(* ===== verification/Prelude.thy ===== *)
theory Prelude
  imports Main
begin

text \<open>
  Shared vocabulary of the development: Python exceptions as values, the outcome of running a
  piece of Python, state-passing programs with exceptions (\<open>prog\<close>) and their combinators,
  insertion-ordered dictionaries, and the lemma collections the component theories feed:
  \<^item> \<open>frame\<close>: rules that a program leaves a projection of the state alone;
  \<^item> \<open>keeps\<close>: rules that a program keeps a predicate of the state;
  \<^item> \<open>run_simps\<close>: equations that run a program step by step.
\<close>

section \<open>Exceptions and outcomes\<close>

text \<open>
  The exception classes the sources raise, catch or can meet. Where the sources build the message
  themselves it is carried; the wording of the interpreter's own messages is not modelled (the
  parameter \<open>exc_text\<close> of \<open>World.sys\<close> stands for it).
\<close>

datatype exn =
    RuntimeError string
  | Exception string
  | OSError string
  | AddrInUse
  | KeyError string
  | ValueError
  | TypeError
  | IndexError
  | AttributeError
  | UnboundLocalError
  | ZeroDivisionError
  | OverflowError

text \<open>
  \<open>Exit\<close> is \<open>os._exit\<close> or \<open>exit\<close>, which no \<open>except\<close> clause of the
  sources survives; \<open>Loops\<close> is a run that does not end.
\<close>

datatype 'a outcome =
    Ret 'a
  | Exc exn
  | Exit int
  | Loops

type_synonym ('w, 'a) prog = "'w \<Rightarrow> 'a outcome \<times> 'w"

section \<open>Programs\<close>

definition ret :: "'a \<Rightarrow> ('w, 'a) prog" where
  "ret x = (\<lambda>w. (Ret x, w))"

definition throw :: "exn \<Rightarrow> ('w, 'a) prog" where
  "throw e = (\<lambda>w. (Exc e, w))"

definition leave :: "int \<Rightarrow> ('w, 'a) prog" where
  "leave n = (\<lambda>w. (Exit n, w))"

definition bnd :: "('w, 'a) prog \<Rightarrow> ('a \<Rightarrow> ('w, 'b) prog) \<Rightarrow> ('w, 'b) prog" where
  "bnd m f = (\<lambda>w. case m w of
      (Ret x, w') \<Rightarrow> f x w'
    | (Exc e, w') \<Rightarrow> (Exc e, w')
    | (Exit n, w') \<Rightarrow> (Exit n, w')
    | (Loops, w') \<Rightarrow> (Loops, w'))"

definition sq :: "('w, 'a) prog \<Rightarrow> ('w, 'b) prog \<Rightarrow> ('w, 'b) prog" where
  "sq m n = bnd m (\<lambda>_. n)"

text \<open>\<open>try: m except ...: h\<close>; the handler decides with \<open>throw\<close> what it lets through.\<close>

definition catch :: "('w, 'a) prog \<Rightarrow> (exn \<Rightarrow> ('w, 'a) prog) \<Rightarrow> ('w, 'a) prog" where
  "catch m h = (\<lambda>w. case m w of
      (Ret x, w') \<Rightarrow> (Ret x, w')
    | (Exc e, w') \<Rightarrow> h e w'
    | (Exit n, w') \<Rightarrow> (Exit n, w')
    | (Loops, w') \<Rightarrow> (Loops, w'))"

definition gets :: "('w \<Rightarrow> 'a) \<Rightarrow> ('w, 'a) prog" where
  "gets f = (\<lambda>w. (Ret (f w), w))"

definition modify :: "('w \<Rightarrow> 'w) \<Rightarrow> ('w, unit) prog" where
  "modify f = (\<lambda>w. (Ret (), f w))"

definition of_sum :: "exn + 'a \<Rightarrow> ('w, 'a) prog" where
  "of_sum r = (case r of Inl e \<Rightarrow> throw e | Inr x \<Rightarrow> ret x)"

definition of_opt :: "exn \<Rightarrow> 'a option \<Rightarrow> ('w, 'a) prog" where
  "of_opt e r = (case r of None \<Rightarrow> throw e | Some x \<Rightarrow> ret x)"

definition whenP :: "bool \<Rightarrow> ('w, unit) prog \<Rightarrow> ('w, unit) prog" where
  "whenP b m = (if b then m else ret ())"

text \<open>\<open>for x in xs: f(x)\<close> over a list the body does not change.\<close>

fun for_each :: "'a list \<Rightarrow> ('a \<Rightarrow> ('w, unit) prog) \<Rightarrow> ('w, unit) prog" where
  "for_each [] f = ret ()"
| "for_each (x # xs) f = sq (f x) (for_each xs f)"

text \<open>Exceptions as sums, for the pure helpers.\<close>

definition sbind :: "exn + 'a \<Rightarrow> ('a \<Rightarrow> exn + 'b) \<Rightarrow> exn + 'b" where
  "sbind r f = (case r of Inl e \<Rightarrow> Inl e | Inr x \<Rightarrow> f x)"

fun smap :: "('a \<Rightarrow> exn + 'b) \<Rightarrow> 'a list \<Rightarrow> exn + 'b list" where
  "smap f [] = Inr []"
| "smap f (x # xs) = sbind (f x) (\<lambda>y. sbind (smap f xs) (\<lambda>ys. Inr (y # ys)))"

section \<open>Frames, invariants, and equations for running programs\<close>

definition frame :: "('w \<Rightarrow> 'b) \<Rightarrow> ('w, 'a) prog \<Rightarrow> bool" where
  "frame p m \<longleftrightarrow> (\<forall>w. p (snd (m w)) = p w)"

definition keeps :: "('w \<Rightarrow> bool) \<Rightarrow> ('w, 'a) prog \<Rightarrow> bool" where
  "keeps P m \<longleftrightarrow> (\<forall>w. P w \<longrightarrow> P (snd (m w)))"

named_theorems frames \<open>rules that a program leaves a projection of the state alone\<close>
named_theorems keepers \<open>rules that a program keeps a predicate of the state\<close>
named_theorems run_simps \<open>equations that run a program\<close>

lemma ret_run [run_simps]: "ret x w = (Ret x, w)"
  by (simp add: ret_def)

lemma throw_run [run_simps]: "throw e w = (Exc e, w)"
  by (simp add: throw_def)

lemma leave_run [run_simps]: "leave n w = (Exit n, w)"
  by (simp add: leave_def)

lemma gets_run [run_simps]: "gets f w = (Ret (f w), w)"
  by (simp add: gets_def)

lemma modify_run [run_simps]: "modify f w = (Ret (), f w)"
  by (simp add: modify_def)

lemma bnd_run [run_simps]:
  "bnd m f w = (case m w of
      (Ret x, w') \<Rightarrow> f x w'
    | (Exc e, w') \<Rightarrow> (Exc e, w')
    | (Exit n, w') \<Rightarrow> (Exit n, w')
    | (Loops, w') \<Rightarrow> (Loops, w'))"
  by (simp add: bnd_def)

lemma sq_run [run_simps]:
  "sq m n w = (case m w of
      (Ret x, w') \<Rightarrow> n w'
    | (Exc e, w') \<Rightarrow> (Exc e, w')
    | (Exit k, w') \<Rightarrow> (Exit k, w')
    | (Loops, w') \<Rightarrow> (Loops, w'))"
  by (simp add: sq_def bnd_def)

lemma catch_run [run_simps]:
  "catch m h w = (case m w of
      (Ret x, w') \<Rightarrow> (Ret x, w')
    | (Exc e, w') \<Rightarrow> h e w'
    | (Exit n, w') \<Rightarrow> (Exit n, w')
    | (Loops, w') \<Rightarrow> (Loops, w'))"
  by (simp add: catch_def)

lemma of_sum_run [run_simps]:
  "of_sum r w = (case r of Inl e \<Rightarrow> (Exc e, w) | Inr x \<Rightarrow> (Ret x, w))"
  by (simp add: of_sum_def ret_def throw_def split: sum.split)

lemma of_opt_run [run_simps]:
  "of_opt e r w = (case r of None \<Rightarrow> (Exc e, w) | Some x \<Rightarrow> (Ret x, w))"
  by (simp add: of_opt_def ret_def throw_def split: option.split)

lemma when_run [run_simps]: "whenP b m w = (if b then m w else (Ret (), w))"
  by (simp add: whenP_def ret_def)

lemma sbind_simps [simp]:
  "sbind (Inl e) f = Inl e"
  "sbind (Inr x) f = f x"
  by (simp_all add: sbind_def)

subsection \<open>Monad laws\<close>

lemma bnd_ret_left [simp]: "bnd (ret x) f = f x"
  by (rule ext) (simp add: run_simps)

lemma bnd_ret_right [simp]: "bnd m ret = m"
  by (rule ext) (simp add: run_simps split: prod.split outcome.split)

lemma bnd_assoc: "bnd (bnd m f) g = bnd m (\<lambda>x. bnd (f x) g)"
  by (rule ext) (simp add: run_simps split: prod.split outcome.split)

lemma bnd_throw [simp]: "bnd (throw e) f = throw e"
  by (rule ext) (simp add: run_simps)

lemma catch_throw [simp]: "catch (throw e) h = h e"
  by (rule ext) (simp add: run_simps)

lemma catch_ret [simp]: "catch (ret x) h = ret x"
  by (rule ext) (simp add: run_simps)

text \<open>A sequence returns exactly when both of its parts do.\<close>

lemma bnd_step: "m w = (Ret x, w') \<Longrightarrow> bnd m f w = f x w'"
  by (simp add: bnd_def)

lemma bnd_Ret: "bnd m f w = (Ret y, w') \<longleftrightarrow> (\<exists>x v. m w = (Ret x, v) \<and> f x v = (Ret y, w'))"
  by (auto simp: run_simps split: prod.splits outcome.splits)

lemma sq_Ret: "sq m n w = (Ret y, w') \<longleftrightarrow> (\<exists>x v. m w = (Ret x, v) \<and> n v = (Ret y, w'))"
  by (simp add: sq_def bnd_Ret)

lemma ret_Ret: "ret x w = (Ret y, w') \<longleftrightarrow> y = x \<and> w' = w"
  by (auto simp: run_simps)

lemma throw_Ret: "throw e w \<noteq> (Ret y, w')"
  by (simp add: run_simps)

lemma gets_Ret: "gets f w = (Ret y, w') \<longleftrightarrow> y = f w \<and> w' = w"
  by (auto simp: run_simps)

lemma modify_Ret: "modify f w = (Ret y, w') \<longleftrightarrow> w' = f w"
  by (auto simp: run_simps)

lemma of_opt_Ret: "of_opt e r w = (Ret y, w') \<longleftrightarrow> r = Some y \<and> w' = w"
  by (auto simp: run_simps split: option.splits)

lemma of_sum_Ret: "of_sum r w = (Ret y, w') \<longleftrightarrow> r = Inr y \<and> w' = w"
  by (auto simp: run_simps split: sum.splits)

lemma if_Ret: "(if b then m else n) w = (Ret y, w') \<longleftrightarrow> (if b then m w = (Ret y, w') else n w = (Ret y, w'))"
  by simp

lemmas returns = bnd_Ret sq_Ret ret_Ret throw_Ret gets_Ret modify_Ret of_opt_Ret of_sum_Ret if_Ret

lemma for_each_map: "for_each (map g xs) f = for_each xs (\<lambda>x. f (g x))"
  by (induction xs) simp_all

subsection \<open>Frame rules\<close>

lemma frameI: "(\<And>w. p (snd (m w)) = p w) \<Longrightarrow> frame p m"
  by (simp add: frame_def)

lemma frameD: "frame p m \<Longrightarrow> p (snd (m w)) = p w"
  by (simp add: frame_def)

lemma frame_run: "frame p m \<Longrightarrow> m w = (r, w') \<Longrightarrow> p w' = p w"
  by (metis frameD snd_conv)

lemma frame_ret [frames]: "frame p (ret x)"
  by (simp add: frame_def run_simps)

lemma frame_throw [frames]: "frame p (throw e)"
  by (simp add: frame_def run_simps)

lemma frame_leave [frames]: "frame p (leave n)"
  by (simp add: frame_def run_simps)

lemma frame_gets [frames]: "frame p (gets f)"
  by (simp add: frame_def run_simps)

lemma frame_modify: "(\<And>w. p (f w) = p w) \<Longrightarrow> frame p (modify f)"
  by (simp add: frame_def run_simps)

lemma frame_bnd [frames]: "frame p m \<Longrightarrow> (\<And>x. frame p (f x)) \<Longrightarrow> frame p (bnd m f)"
  by (auto simp: frame_def run_simps split: prod.split outcome.split) (metis snd_conv)+

lemma frame_sq [frames]: "frame p m \<Longrightarrow> frame p n \<Longrightarrow> frame p (sq m n)"
  by (simp add: sq_def frame_bnd)

lemma frame_catch [frames]: "frame p m \<Longrightarrow> (\<And>e. frame p (h e)) \<Longrightarrow> frame p (catch m h)"
  by (auto simp: frame_def run_simps split: prod.split outcome.split) (metis snd_conv)+

lemma frame_of_sum [frames]: "frame p (of_sum r)"
  by (simp add: frame_def run_simps split: sum.split)

lemma frame_of_opt [frames]: "frame p (of_opt e r)"
  by (simp add: frame_def run_simps split: option.split)

lemma frame_when [frames]: "frame p m \<Longrightarrow> frame p (whenP b m)"
  by (simp add: frame_def run_simps)

lemma frame_for_each [frames]: "(\<And>x. frame p (f x)) \<Longrightarrow> frame p (for_each xs f)"
  by (induction xs) (auto intro: frames)

lemma frame_if [frames]: "frame p m \<Longrightarrow> frame p n \<Longrightarrow> frame p (if b then m else n)"
  by simp

lemma frame_case_option [frames]:
  "frame p m \<Longrightarrow> (\<And>x. frame p (f x)) \<Longrightarrow> frame p (case r of None \<Rightarrow> m | Some x \<Rightarrow> f x)"
  by (simp split: option.split)

lemma frame_case_prod [frames]:
  "(\<And>x y. frame p (f x y)) \<Longrightarrow> frame p (case r of (x, y) \<Rightarrow> f x y)"
  by (simp split: prod.split)

lemma frame_case_list [frames]:
  "frame p m \<Longrightarrow> (\<And>x xs. frame p (f x xs)) \<Longrightarrow> frame p (case r of [] \<Rightarrow> m | x # xs \<Rightarrow> f x xs)"
  by (simp split: list.split)

lemma frame_let [frames]: "(\<And>x. frame p (f x)) \<Longrightarrow> frame p (let x = v in f x)"
  by simp

subsection \<open>Invariant rules\<close>

lemma keepsI: "(\<And>w. P w \<Longrightarrow> P (snd (m w))) \<Longrightarrow> keeps P m"
  by (simp add: keeps_def)

lemma keeps_run: "keeps P m \<Longrightarrow> m w = (r, w') \<Longrightarrow> P w \<Longrightarrow> P w'"
  by (metis keeps_def snd_conv)

lemma keeps_ret [keepers]: "keeps P (ret x)"
  by (simp add: keeps_def run_simps)

lemma keeps_throw [keepers]: "keeps P (throw e)"
  by (simp add: keeps_def run_simps)

lemma keeps_gets [keepers]: "keeps P (gets f)"
  by (simp add: keeps_def run_simps)

lemma keeps_modify: "(\<And>w. P w \<Longrightarrow> P (f w)) \<Longrightarrow> keeps P (modify f)"
  by (simp add: keeps_def run_simps)

lemma keeps_bnd [keepers]: "keeps P m \<Longrightarrow> (\<And>x. keeps P (f x)) \<Longrightarrow> keeps P (bnd m f)"
  by (auto simp: keeps_def run_simps split: prod.split outcome.split)

lemma keeps_sq [keepers]: "keeps P m \<Longrightarrow> keeps P n \<Longrightarrow> keeps P (sq m n)"
  by (simp add: sq_def keeps_bnd)

lemma keeps_if [keepers]: "keeps P m \<Longrightarrow> keeps P n \<Longrightarrow> keeps P (if b then m else n)"
  by simp

lemma keeps_case_option [keepers]:
  "keeps P m \<Longrightarrow> (\<And>x. keeps P (f x)) \<Longrightarrow> keeps P (case r of None \<Rightarrow> m | Some x \<Rightarrow> f x)"
  by (simp split: option.split)

section \<open>Insertion-ordered dictionaries\<close>

text \<open>
  A Python \<open>dict\<close> whose iteration order matters: assigning to a present key keeps its place,
  assigning to a new key appends.
\<close>

type_synonym ('k, 'v) dict = "('k \<times> 'v) list"

fun dict_set :: "'k \<Rightarrow> 'v \<Rightarrow> ('k, 'v) dict \<Rightarrow> ('k, 'v) dict" where
  "dict_set k v [] = [(k, v)]"
| "dict_set k v ((k', v') # d) = (if k' = k then (k, v) # d else (k', v') # dict_set k v d)"

fun dict_update :: "('k, 'v) dict \<Rightarrow> ('k, 'v) dict \<Rightarrow> ('k, 'v) dict" where
  "dict_update d [] = d"
| "dict_update d ((k, v) # e) = dict_update (dict_set k v d) e"

abbreviation dict_ok :: "('k, 'v) dict \<Rightarrow> bool" where
  "dict_ok d \<equiv> distinct (map fst d)"

lemma map_of_dict_set [simp]: "map_of (dict_set k v d) = (map_of d)(k \<mapsto> v)"
  by (induction k v d rule: dict_set.induct) auto

lemma keys_dict_set [simp]: "fst ` set (dict_set k v d) = insert k (fst ` set d)"
  by (induction k v d rule: dict_set.induct) auto

lemma dict_ok_set [simp]: "dict_ok d \<Longrightarrow> dict_ok (dict_set k v d)"
  by (induction k v d rule: dict_set.induct) (auto simp flip: image_set)

lemma set_dict_set: "set (dict_set k v d) \<subseteq> insert (k, v) (set d)"
  by (induction k v d rule: dict_set.induct) auto

lemma dict_ok_update: "dict_ok d \<Longrightarrow> dict_ok (dict_update d e)"
  by (induction d e rule: dict_update.induct) auto

lemma map_of_dict_update: "map_of (dict_update d e) k =
    (case map_of (rev e) k of Some v \<Rightarrow> Some v | None \<Rightarrow> map_of d k)"
  by (induction d e rule: dict_update.induct) (auto simp: map_add_def split: option.splits)

text \<open>A key that is already there keeps its position, a new one goes last.\<close>

lemma dict_set_keys:
  "map fst (dict_set k v d) = (if k \<in> fst ` set d then map fst d else map fst d @ [k])"
  by (induction k v d rule: dict_set.induct) auto

section \<open>Programs that move along a relation\<close>

text \<open>
  A frame says that one projection of the state stays as it is. More general is a relation between the
  state before and after a program, such as "the trace grows by commands of this user only". If the
  relation is reflexive and transitive, the control structures keep it. A program within a relation
  also never ends the process.
\<close>

definition within :: "('w \<Rightarrow> 'w \<Rightarrow> bool) \<Rightarrow> ('w, 'a) prog \<Rightarrow> bool" where
  "within R m \<longleftrightarrow> (\<forall>w. R w (snd (m w)) \<and> (\<forall>n. fst (m w) \<noteq> Exit n))"

lemma withinI: "(\<And>w. R w (snd (m w)) \<and> (\<forall>n. fst (m w) \<noteq> Exit n)) \<Longrightarrow> within R m"
  by (simp add: within_def)

lemma within_no_exit: "within R m \<Longrightarrow> m w \<noteq> (Exit n, w')"
  by (metis within_def fst_conv)

lemma within_mono: "within R m \<Longrightarrow> (\<And>w w'. R w w' \<Longrightarrow> Q w w') \<Longrightarrow> within Q m"
  by (simp add: within_def)

lemma within_run: "within R m \<Longrightarrow> m w = (r, w') \<Longrightarrow> R w w'"
  by (metis within_def snd_conv)

text \<open>A log that is only extended, by entries with a property.\<close>

lemma grows_trans:
  "\<exists>a. y = x @ a \<and> (\<forall>e \<in> set a. P e) \<Longrightarrow> \<exists>b. z = y @ b \<and> (\<forall>e \<in> set b. P e) \<Longrightarrow> \<exists>c. z = x @ c \<and> (\<forall>e \<in> set c. P e)"
  by (metis UnE append_assoc set_append)

locale step_relation =
  fixes R :: "'w \<Rightarrow> 'w \<Rightarrow> bool"
  assumes R_refl: "R w w"
    and R_trans: "R w v \<Longrightarrow> R v x \<Longrightarrow> R w x"
begin

lemma within_ret: "within R (ret x)"
  by (simp add: within_def run_simps R_refl)

lemma within_throw: "within R (throw e)"
  by (simp add: within_def run_simps R_refl)

lemma within_gets: "within R (gets f)"
  by (simp add: within_def run_simps R_refl)

lemma within_of_sum: "within R (of_sum r)"
  by (simp add: within_def run_simps R_refl split: sum.split)

lemma within_of_opt: "within R (of_opt e r)"
  by (simp add: within_def run_simps R_refl split: option.split)

lemma within_bnd: "within R m \<Longrightarrow> (\<And>x. within R (f x)) \<Longrightarrow> within R (bnd m f)"
  by (auto simp: within_def run_simps split: prod.split outcome.split) (metis R_trans fst_conv snd_conv)+

lemma within_sq: "within R m \<Longrightarrow> within R n \<Longrightarrow> within R (sq m n)"
  by (simp add: sq_def within_bnd)

lemma within_catch: "within R m \<Longrightarrow> (\<And>e. within R (h e)) \<Longrightarrow> within R (catch m h)"
  by (auto simp: within_def run_simps split: prod.split outcome.split) (metis R_trans fst_conv snd_conv)+

lemma within_when: "within R m \<Longrightarrow> within R (whenP b m)"
  by (simp add: whenP_def within_ret)

lemma within_if: "(b \<Longrightarrow> within R m) \<Longrightarrow> (\<not> b \<Longrightarrow> within R n) \<Longrightarrow> within R (if b then m else n)"
  by simp

lemma within_for_each: "(\<And>x. within R (f x)) \<Longrightarrow> within R (for_each xs f)"
  by (induction xs) (simp_all add: within_ret within_sq)

lemma within_case_option: "within R m \<Longrightarrow> (\<And>x. within R (f x)) \<Longrightarrow> within R (case r of None \<Rightarrow> m | Some x \<Rightarrow> f x)"
  by (simp split: option.split)

lemma within_case_prod: "(\<And>x y. within R (f x y)) \<Longrightarrow> within R (case r of (x, y) \<Rightarrow> f x y)"
  by (simp split: prod.split)

lemma within_case_list: "within R m \<Longrightarrow> (\<And>x xs. within R (f x xs)) \<Longrightarrow> within R (case r of [] \<Rightarrow> m | x # xs \<Rightarrow> f x xs)"
  by (simp split: list.split)

lemma within_case_sum: "(\<And>x. within R (f x)) \<Longrightarrow> (\<And>x. within R (g x)) \<Longrightarrow> within R (case r of Inl x \<Rightarrow> f x | Inr x \<Rightarrow> g x)"
  by (simp split: sum.split)

lemma within_let: "(\<And>x. within R (f x)) \<Longrightarrow> within R (let x = v in f x)"
  by simp

lemmas within_rules = within_ret within_throw within_gets within_of_sum within_of_opt within_bnd
  within_sq within_catch within_when within_if within_for_each within_case_option within_case_prod
  within_case_list within_case_sum within_let

end

end
