(* ===== verification/PyStr.thy ===== *)
theory PyStr
  imports Prelude
begin

text \<open>
  The Python string operations the sources use, on ASCII text (a Python \<open>str\<close> is a
  \<open>string\<close>, a list of characters): character classes, \<open>strip\<close>, \<open>lower\<close>,
  \<open>split\<close>, \<open>splitlines\<close>, \<open>replace\<close>, \<open>rindex\<close>, \<open>str(int)\<close> and
  \<open>int(str)\<close>. Each comes with the lemmas the components need, among them that
  \<open>int\<close> undoes \<open>str\<close> and that splitting at a separator loses nothing.
\<close>

section \<open>Characters\<close>

abbreviation NL :: char where "NL \<equiv> CHR 0x0A"
abbreviation CR :: char where "CR \<equiv> CHR 0x0D"
abbreviation TAB :: char where "TAB \<equiv> CHR 0x09"

definition code :: "char \<Rightarrow> nat" where
  "code c = of_char c"

text \<open>\<open>\s\<close> and \<open>str.isspace\<close>, \<open>\d\<close>, \<open>\w\<close>, and the letters.\<close>

definition is_space :: "char \<Rightarrow> bool" where
  "is_space c \<longleftrightarrow> (9 \<le> code c \<and> code c \<le> 13) \<or> (28 \<le> code c \<and> code c \<le> 32)"

definition is_digit :: "char \<Rightarrow> bool" where
  "is_digit c \<longleftrightarrow> 48 \<le> code c \<and> code c \<le> 57"

definition is_upper :: "char \<Rightarrow> bool" where
  "is_upper c \<longleftrightarrow> 65 \<le> code c \<and> code c \<le> 90"

definition is_lower :: "char \<Rightarrow> bool" where
  "is_lower c \<longleftrightarrow> 97 \<le> code c \<and> code c \<le> 122"

definition is_alpha :: "char \<Rightarrow> bool" where
  "is_alpha c \<longleftrightarrow> is_upper c \<or> is_lower c"

definition is_word :: "char \<Rightarrow> bool" where
  "is_word c \<longleftrightarrow> is_alpha c \<or> is_digit c \<or> c = CHR ''_''"

text \<open>The line boundaries of \<open>str.splitlines\<close>.\<close>

definition is_linebreak :: "char \<Rightarrow> bool" where
  "is_linebreak c \<longleftrightarrow> (10 \<le> code c \<and> code c \<le> 13) \<or> (28 \<le> code c \<and> code c \<le> 30)"

lemmas char_classes = is_space_def is_digit_def is_upper_def is_lower_def is_alpha_def
  is_word_def is_linebreak_def code_def

definition to_lower :: "char \<Rightarrow> char" where
  "to_lower c = (if is_upper c then char_of (code c + 32) else c)"

section \<open>Prefixes, suffixes, substrings\<close>

definition startswith :: "string \<Rightarrow> string \<Rightarrow> bool" where
  "startswith s p \<longleftrightarrow> take (length p) s = p"

definition endswith :: "string \<Rightarrow> string \<Rightarrow> bool" where
  "endswith s p \<longleftrightarrow> startswith (rev s) (rev p)"

fun contains :: "string \<Rightarrow> string \<Rightarrow> bool" where
  "contains [] p = (p = [])"
| "contains (c # s) p = (startswith (c # s) p \<or> contains s p)"

lemma startswith_iff: "startswith s p \<longleftrightarrow> (\<exists>r. s = p @ r)"
  unfolding startswith_def by (metis append_take_drop_id append_eq_conv_conj)

lemma startswith_append [simp]: "startswith (p @ r) p"
  by (simp add: startswith_def)

lemma startswith_Nil [simp]: "startswith s []"
  by (simp add: startswith_def)

lemma startswith_Nil_left [simp]: "startswith [] p \<longleftrightarrow> p = []"
  by (auto simp: startswith_def)

lemma startswith_Cons [simp]: "startswith (c # s) (d # p) \<longleftrightarrow> c = d \<and> startswith s p"
  by (auto simp: startswith_def)

lemma contains_iff: "contains s p \<longleftrightarrow> (\<exists>a b. s = a @ p @ b)"
proof (induction s)
  case Nil
  then show ?case by auto
next
  case (Cons c s)
  show ?case
  proof
    assume "contains (c # s) p"
    then show "\<exists>a b. c # s = a @ p @ b"
    proof (cases "startswith (c # s) p")
      case True
      then obtain r where "c # s = p @ r" by (auto simp: startswith_iff)
      then show ?thesis by (metis append_Nil)
    next
      case False
      with \<open>contains (c # s) p\<close> obtain a b where "s = a @ p @ b" using Cons.IH by auto
      then show ?thesis by (metis append_Cons)
    qed
  next
    assume "\<exists>a b. c # s = a @ p @ b"
    then obtain a b where ab: "c # s = a @ p @ b" by blast
    show "contains (c # s) p"
    proof (cases a)
      case Nil
      with ab have "startswith (c # s) p" by (simp add: startswith_def)
      then show ?thesis by simp
    next
      case (Cons x xs)
      with ab have "s = xs @ p @ b" by simp
      with Cons.IH show ?thesis by auto
    qed
  qed
qed

section \<open>strip and lower\<close>

definition lstrip :: "string \<Rightarrow> string" where
  "lstrip s = dropWhile is_space s"

definition rstrip :: "string \<Rightarrow> string" where
  "rstrip s = rev (dropWhile is_space (rev s))"

definition strip :: "string \<Rightarrow> string" where
  "strip s = rstrip (lstrip s)"

definition lower :: "string \<Rightarrow> string" where
  "lower s = map to_lower s"

definition no_space :: "string \<Rightarrow> bool" where
  "no_space s \<longleftrightarrow> list_all (\<lambda>c. \<not> is_space c) s"

lemma dropWhile_none: "list_all (\<lambda>c. \<not> P c) s \<Longrightarrow> dropWhile P s = s"
  by (cases s) auto

lemma strip_no_space [simp]: "no_space s \<Longrightarrow> strip s = s"
  by (simp add: strip_def lstrip_def rstrip_def no_space_def dropWhile_none list_all_rev)

lemma set_rstrip: "set (rstrip s) \<subseteq> set s"
  unfolding rstrip_def using set_dropWhileD by fastforce

lemma set_strip: "set (strip s) \<subseteq> set s"
  using set_rstrip unfolding strip_def lstrip_def by (meson set_dropWhileD subset_iff)

section \<open>split, join, splitlines\<close>

text \<open>\<open>s.split(c)\<close> for a one-character separator.\<close>

fun split_ch :: "char \<Rightarrow> string \<Rightarrow> string list" where
  "split_ch c [] = [[]]"
| "split_ch c (x # s) =
     (if x = c then [] # split_ch c s
      else case split_ch c s of [] \<Rightarrow> [[x]] | p # ps \<Rightarrow> (x # p) # ps)"

fun join :: "string \<Rightarrow> string list \<Rightarrow> string" where
  "join sep [] = []"
| "join sep [p] = p"
| "join sep (p # q # ps) = p @ sep @ join sep (q # ps)"

text \<open>\<open>s.split(c, 1)\<close>: the part before the first \<open>c\<close> and, if there is one, the rest.\<close>

definition split_once :: "char \<Rightarrow> string \<Rightarrow> string \<times> string option" where
  "split_once c s =
     (let a = takeWhile (\<lambda>x. x \<noteq> c) s; b = dropWhile (\<lambda>x. x \<noteq> c) s
      in (a, case b of [] \<Rightarrow> None | _ # r \<Rightarrow> Some r))"

text \<open>\<open>s.split()\<close>: maximal runs of non-space characters.\<close>

fun words_acc :: "string \<Rightarrow> string \<Rightarrow> string list" where
  "words_acc w [] = (if w = [] then [] else [w])"
| "words_acc w (c # s) =
     (if is_space c then (if w = [] then words_acc [] s else w # words_acc [] s)
      else words_acc (w @ [c]) s)"

definition split_ws :: "string \<Rightarrow> string list" where
  "split_ws s = words_acc [] s"

text \<open>\<open>s.splitlines()\<close>; a carriage return and line feed together end one line.\<close>

fun lines_acc :: "string \<Rightarrow> string \<Rightarrow> string list" where
  "lines_acc l [] = (if l = [] then [] else [l])"
| "lines_acc l [c] = (if is_linebreak c then [l] else [l @ [c]])"
| "lines_acc l (c # d # s) =
     (if c = CR \<and> d = NL then l # lines_acc [] s
      else if is_linebreak c then l # lines_acc [] (d # s)
      else lines_acc (l @ [c]) (d # s))"

definition splitlines :: "string \<Rightarrow> string list" where
  "splitlines s = lines_acc [] s"

text \<open>\<open>f.readline()\<close> on a text stream: up to and including the next newline.\<close>

definition readline :: "string \<Rightarrow> string \<times> string" where
  "readline s =
     (let a = takeWhile (\<lambda>x. x \<noteq> NL) s; b = dropWhile (\<lambda>x. x \<noteq> NL) s
      in case b of [] \<Rightarrow> (a, []) | x # r \<Rightarrow> (a @ [x], r))"

text \<open>\<open>f.readlines()\<close>: the lines of a stream with their newlines.\<close>

fun readlines_acc :: "string \<Rightarrow> string \<Rightarrow> string list" where
  "readlines_acc l [] = (if l = [] then [] else [l])"
| "readlines_acc l (c # s) =
     (if c = NL then (l @ [c]) # readlines_acc [] s else readlines_acc (l @ [c]) s)"

definition readlines :: "string \<Rightarrow> string list" where
  "readlines s = readlines_acc [] s"

lemma split_ch_nonempty [simp]: "split_ch c s \<noteq> []"
  by (induction s) (auto split: list.splits)

lemma join_Cons: "ps \<noteq> [] \<Longrightarrow> join sep (p # ps) = p @ sep @ join sep ps"
  by (cases ps) auto

lemma join_split_ch: "join [c] (split_ch c s) = s"
proof (induction s)
  case Nil
  then show ?case by simp
next
  case (Cons x s)
  obtain p ps where s: "split_ch c s = p # ps" by (meson neq_Nil_conv split_ch_nonempty)
  show ?case
  proof (cases "x = c")
    case True
    with Cons show ?thesis by (simp add: join_Cons)
  next
    case False
    with s have "join [c] (split_ch c (x # s)) = x # join [c] (p # ps)" by (cases ps) auto
    with Cons s show ?thesis by simp
  qed
qed

lemma split_ch_parts: "p \<in> set (split_ch c s) \<Longrightarrow> c \<notin> set p"
  by (induction s arbitrary: p) (auto split: if_splits list.splits)

lemma split_ch_none: "c \<notin> set s \<Longrightarrow> split_ch c s = [s]"
  by (induction s) auto

lemma split_ch_append: "c \<notin> set a \<Longrightarrow> split_ch c (a @ c # b) = a # split_ch c b"
  by (induction a) auto

lemma split_ch_lines: "list_all (\<lambda>l. c \<notin> set l) ls' \<Longrightarrow> split_ch c (concat (map (\<lambda>l. l @ [c]) ls')) = ls' @ [[]]"
  by (induction ls') (simp_all add: split_ch_append)

lemma split_once_append [simp]: "c \<notin> set a \<Longrightarrow> split_once c (a @ c # b) = (a, Some b)"
  by (induction a) (auto simp: split_once_def Let_def)

lemma split_once_none [simp]: "c \<notin> set a \<Longrightarrow> split_once c a = (a, None)"
  by (induction a) (auto simp: split_once_def Let_def)

lemma readline_append [simp]: "NL \<notin> set a \<Longrightarrow> readline (a @ NL # b) = (a @ [NL], b)"
  by (induction a) (auto simp: readline_def Let_def split: list.splits)

lemma readline_no_NL: "NL \<notin> set a \<Longrightarrow> readline a = (a, [])"
proof -
  assume a: "NL \<notin> set a"
  then have "takeWhile (\<lambda>x. x \<noteq> NL) a = a" "dropWhile (\<lambda>x. x \<noteq> NL) a = []" by (induction a) auto
  then show ?thesis unfolding readline_def Let_def by (simp only: list.case)
qed

lemma readline_shorter: "s \<noteq> [] \<Longrightarrow> length (snd (readline s)) < length s"
proof -
  assume s: "s \<noteq> []"
  have le: "length (dropWhile (\<lambda>x. x \<noteq> NL) s) \<le> length s" by (simp add: length_dropWhile_le)
  show ?thesis
  proof (cases "dropWhile (\<lambda>x. x \<noteq> NL) s")
    case Nil
    with s show ?thesis unfolding readline_def Let_def Nil by simp
  next
    case (Cons x r)
    with le show ?thesis unfolding readline_def Let_def Cons by simp
  qed
qed

lemma readline_empty_iff: "fst (readline s) = [] \<longleftrightarrow> s = []"
proof (cases s)
  case Nil
  then show ?thesis by (simp add: readline_def)
next
  case (Cons c r)
  then show ?thesis by (cases "c = NL") (auto simp: readline_def Let_def split: list.splits)
qed

text \<open>Lines without line breaks, each ended by a newline, are what \<open>splitlines\<close> returns.\<close>

definition plain_line :: "string \<Rightarrow> bool" where
  "plain_line l \<longleftrightarrow> list_all (\<lambda>c. \<not> is_linebreak c) l"

lemma NL_linebreak [simp]: "is_linebreak NL"
  by (simp add: is_linebreak_def code_def)

lemma lines_acc_NL: "lines_acc l (NL # s) = l # lines_acc [] s"
  by (cases s) auto

lemma lines_acc_plain:
  "\<not> is_linebreak c \<Longrightarrow> lines_acc l (c # s) = lines_acc (l @ [c]) s"
  by (cases s) (auto simp: is_linebreak_def code_def)

lemma lines_acc_line: "plain_line a \<Longrightarrow> lines_acc l (a @ NL # s) = (l @ a) # lines_acc [] s"
  by (induction a arbitrary: l) (auto simp: plain_line_def lines_acc_NL lines_acc_plain)

lemma splitlines_unlines:
  "list_all plain_line ls \<Longrightarrow> splitlines (concat (map (\<lambda>l. l @ [NL]) ls)) = ls"
  unfolding splitlines_def by (induction ls) (auto simp: lines_acc_line)

section \<open>replace\<close>

text \<open>\<open>s.replace(old, new)\<close> for a non-empty \<open>old\<close>: leftmost, non-overlapping.\<close>

function replace :: "string \<Rightarrow> string \<Rightarrow> string \<Rightarrow> string" where
  "replace old new s =
     (if old = [] then s
      else case s of
        [] \<Rightarrow> []
      | c # r \<Rightarrow> (if startswith s old then new @ replace old new (drop (length old) s)
                 else c # replace old new r))"
  by pat_completeness auto
termination
  by (relation "measure (\<lambda>(old, new, s). length s)") auto

declare replace.simps [simp del]

lemma replace_Nil [simp]: "replace old new [] = []"
  by (subst replace.simps) simp

lemma replace_step:
  "old \<noteq> [] \<Longrightarrow> \<not> startswith (c # s) old \<Longrightarrow> replace old new (c # s) = c # replace old new s"
  by (subst replace.simps) simp

lemma replace_hit:
  "old \<noteq> [] \<Longrightarrow> replace old new (old @ s) = new @ replace old new s"
proof -
  assume old: "old \<noteq> []"
  then obtain c r where cr: "old @ s = c # r" by (cases old) auto
  have "startswith (old @ s) old" by simp
  with old cr have "replace old new (old @ s) = new @ replace old new (drop (length old) (old @ s))"
    by (subst replace.simps) simp
  then show ?thesis by simp
qed

lemma replace_absent: "\<not> contains s old \<Longrightarrow> replace old new s = s"
proof (induction s)
  case Nil
  then show ?case by simp
next
  case (Cons c s)
  from Cons.prems have h: "\<not> startswith (c # s) old" "\<not> contains s old" by simp_all
  then have "old \<noteq> []" by auto
  with h show ?case using Cons.IH by (simp add: replace_step)
qed

lemma replace_char: "replace [a] [b] s = map (\<lambda>c. if c = a then b else c) s"
proof (induction s)
  case Nil
  then show ?case by simp
next
  case (Cons c s)
  show ?case
  proof (cases "c = a")
    case True
    with Cons replace_hit [of "[a]" "[b]" s] show ?thesis by simp
  next
    case False
    with Cons show ?thesis by (simp add: replace_step)
  qed
qed

section \<open>Indexing from the right\<close>

text \<open>\<open>s.rindex(c)\<close>; \<open>None\<close> is the \<open>ValueError\<close>.\<close>

fun rindex :: "char \<Rightarrow> string \<Rightarrow> nat option" where
  "rindex c [] = None"
| "rindex c (x # s) =
     (case rindex c s of Some i \<Rightarrow> Some (Suc i) | None \<Rightarrow> if x = c then Some 0 else None)"

lemma rindex_None: "c \<notin> set s \<Longrightarrow> rindex c s = None"
  by (induction s) auto

lemma rindex_last: "c \<notin> set b \<Longrightarrow> rindex c (a @ c # b) = Some (length a)"
  by (induction a) (auto simp: rindex_None)

section \<open>Numbers as text\<close>

definition digit_char :: "nat \<Rightarrow> char" where
  "digit_char d = char_of (48 + d)"

fun show_nat :: "nat \<Rightarrow> string" where
  "show_nat n = (if n < 10 then [digit_char n] else show_nat (n div 10) @ [digit_char (n mod 10)])"

declare show_nat.simps [simp del]

definition show_int :: "int \<Rightarrow> string" where
  "show_int i = (if i < 0 then CHR ''-'' # show_nat (nat (- i)) else show_nat (nat i))"

text \<open>
  The digits of an \<open>int\<close> literal: single underscores are allowed between digits.
  The flag says whether the previous character was a digit.
\<close>

fun scan_digits :: "nat \<Rightarrow> nat \<Rightarrow> bool \<Rightarrow> string \<Rightarrow> nat option" where
  "scan_digits b acc d [] = (if d then Some acc else None)"
| "scan_digits b acc d (c # s) =
     (if c = CHR ''_'' then (if d then scan_digits b acc False s else None)
      else if is_digit c \<and> code c - 48 < b then scan_digits b (acc * b + (code c - 48)) True s
      else None)"

definition signed :: "(string \<Rightarrow> nat option) \<Rightarrow> string \<Rightarrow> int option" where
  "signed p s =
     (case s of
        [] \<Rightarrow> None
      | c # r \<Rightarrow> (if c = CHR ''-'' then map_option (\<lambda>n. - int n) (p r)
                 else if c = CHR ''+'' then map_option int (p r)
                 else map_option int (p s)))"

text \<open>\<open>int(s)\<close> and \<open>int(s, 8)\<close>; \<open>None\<close> is the \<open>ValueError\<close>.\<close>

definition py_int :: "string \<Rightarrow> int option" where
  "py_int s = signed (scan_digits 10 0 False) (strip s)"

definition scan_octal :: "string \<Rightarrow> nat option" where
  "scan_octal s =
     (if startswith s ''0o'' \<or> startswith s ''0O'' then
        scan_digits 8 0 False (if startswith (drop 2 s) ''_'' then drop 3 s else drop 2 s)
      else scan_digits 8 0 False s)"

definition py_int8 :: "string \<Rightarrow> int option" where
  "py_int8 s = signed scan_octal (strip s)"

lemma code_digit_char [simp]: "d < 10 \<Longrightarrow> code (digit_char d) = 48 + d"
  by (simp add: code_def digit_char_def)

lemma is_digit_digit_char [simp]: "d < 10 \<Longrightarrow> is_digit (digit_char d)"
  by (simp add: is_digit_def)

lemma digit_not_space: "is_digit c \<Longrightarrow> \<not> is_space c"
  by (auto simp: is_digit_def is_space_def)

lemma digit_not_special [simp]:
  "is_digit c \<Longrightarrow> c \<noteq> CHR ''_''"
  "is_digit c \<Longrightarrow> c \<noteq> CHR ''-''"
  "is_digit c \<Longrightarrow> c \<noteq> CHR ''+''"
  "is_digit c \<Longrightarrow> c \<noteq> NL"
  "is_digit c \<Longrightarrow> c \<noteq> CHR '' ''"
  by (auto simp: is_digit_def code_def)

lemma show_nat_digits: "list_all is_digit (show_nat n)"
proof (induction n rule: show_nat.induct)
  case (1 n)
  then show ?case by (cases "n < 10") (subst show_nat.simps, simp)+
qed

lemma show_nat_nonempty [simp]: "show_nat n \<noteq> []"
  by (subst show_nat.simps) simp

lemma show_nat_no_space: "no_space (show_nat n)"
  using show_nat_digits [of n] unfolding no_space_def
  by (auto simp: list_all_iff digit_not_space)

lemma show_int_no_space: "no_space (show_int i)"
  using show_nat_no_space by (auto simp: show_int_def no_space_def is_space_def code_def)

lemma show_int_nonempty [simp]: "show_int i \<noteq> []"
  by (simp add: show_int_def)

lemma no_space_NL: "no_space s \<Longrightarrow> NL \<notin> set s"
  by (auto simp: no_space_def list_all_iff is_space_def code_def)

lemma scan_digits_append:
  assumes "list_all is_digit s" and "s \<noteq> []"
  shows "scan_digits 10 acc f (s @ t) = scan_digits 10 (the (scan_digits 10 acc f s)) True t"
  using assms
proof (induction s arbitrary: acc f)
  case Nil
  then show ?case by simp
next
  case (Cons c s)
  then have c: "is_digit c" and s: "list_all is_digit s" by auto
  then have lt: "code c - 48 < 10" by (auto simp: is_digit_def)
  show ?case
  proof (cases "s = []")
    case True
    with c lt show ?thesis by simp
  next
    case False
    with Cons.IH [OF s False] c lt show ?thesis by simp
  qed
qed

lemma scan_show_nat: "scan_digits 10 0 False (show_nat n) = Some n"
proof (induction n rule: show_nat.induct)
  case (1 n)
  show ?case
  proof (cases "n < 10")
    case True
    then show ?thesis by (subst show_nat.simps) simp
  next
    case False
    then have "scan_digits 10 0 False (show_nat n)
        = scan_digits 10 (the (scan_digits 10 0 False (show_nat (n div 10)))) True [digit_char (n mod 10)]"
      by (subst show_nat.simps) (simp add: scan_digits_append show_nat_digits)
    also have "\<dots> = Some n" using 1 False by simp
    finally show ?thesis .
  qed
qed

lemma show_nat_no_sign: "show_nat n = c # r \<Longrightarrow> c \<noteq> CHR ''-'' \<and> c \<noteq> CHR ''+''"
  using show_nat_digits [of n] by auto

lemma signed_show_int:
  assumes "\<And>n. p (show_nat n) = Some n"
  shows "signed p (show_int i) = Some i"
proof (cases "i < 0")
  case True
  with assms show ?thesis by (simp add: signed_def show_int_def)
next
  case False
  obtain c r where "show_nat (nat i) = c # r" by (meson neq_Nil_conv show_nat_nonempty)
  with False assms [of "nat i"] show_nat_no_sign [of "nat i" c r] show ?thesis
    by (simp add: signed_def show_int_def)
qed

lemma py_int_show_int [simp]: "py_int (show_int i) = Some i"
  by (simp add: py_int_def show_int_no_space signed_show_int scan_show_nat)

end
