(* ===== verification/Regex.thy ===== *)
theory Regex
  imports PyStr
begin

text \<open>
  The fragment of Python's \<open>re\<close> module the sources use: sequences of single characters,
  greedy repetitions of a character class, the anchors \<open>^\<close> and \<open>$\<close>, and unnested
  capturing groups. \<open>mt\<close> is the backtracking matcher (leftmost, greedy, longest repetition
  first), so every regular expression of the sources is a value of type \<open>rx list\<close> that can
  be read off its literal. \<open>rxm\<close> says declaratively what it means to match; the matcher is
  sound and complete for it, and the closed forms at the end let the component theories replace a
  search by a plain string function.
\<close>

section \<open>Expressions\<close>

text \<open>
  \<open>Rep P lo hi\<close> is \<open>P{lo,hi}\<close>, unbounded for \<open>None\<close>. \<open>Bol\<close> is \<open>^\<close>
  without \<open>re.M\<close>, \<open>BolM\<close> is \<open>^\<close> with it, \<open>Eol\<close> is \<open>$\<close> without it.
  \<open>Open\<close> and \<open>Close\<close> delimit a group.
\<close>

datatype rx =
    One "char \<Rightarrow> bool"
  | Rep "char \<Rightarrow> bool" nat "nat option"
  | Bol
  | BolM
  | Eol
  | Open
  | Close

definition lit :: "string \<Rightarrow> rx list" where
  "lit w = map (\<lambda>c. One (\<lambda>x. x = c)) w"

definition dot :: "char \<Rightarrow> bool" where
  "dot c \<longleftrightarrow> c \<noteq> NL"

abbreviation star :: "(char \<Rightarrow> bool) \<Rightarrow> rx" where
  "star P \<equiv> Rep P 0 None"

abbreviation plus :: "(char \<Rightarrow> bool) \<Rightarrow> rx" where
  "plus P \<equiv> Rep P 1 None"

definition nonspace :: "char \<Rightarrow> bool" where
  "nonspace c \<longleftrightarrow> \<not> is_space c"

definition nondigit :: "char \<Rightarrow> bool" where
  "nondigit c \<longleftrightarrow> \<not> is_digit c"

definition pred_opt :: "nat option \<Rightarrow> nat option" where
  "pred_opt hi = map_option (\<lambda>n. n - 1) hi"

definition at_bol :: "string \<Rightarrow> bool" where
  "at_bol pre \<longleftrightarrow> (case pre of [] \<Rightarrow> True | c # _ \<Rightarrow> c = NL)"

section \<open>The backtracking matcher\<close>

text \<open>
  \<open>mt r pre s cur caps\<close> matches \<open>r\<close> at the front of \<open>s\<close>. \<open>pre\<close> is the text
  before this position, last character first; \<open>cur\<close> is the group being captured, \<open>caps\<close>
  the groups captured so far. The result is the groups and the text after the match.
\<close>

fun mt :: "rx list \<Rightarrow> string \<Rightarrow> string \<Rightarrow> string option \<Rightarrow> string list \<Rightarrow> (string list \<times> string) option" where
  "mt [] pre s cur caps = Some (caps, s)"
| "mt (One P # r) pre [] cur caps = None"
| "mt (One P # r) pre (c # s) cur caps =
     (if P c then mt r (c # pre) s (map_option (\<lambda>x. x @ [c]) cur) caps else None)"
| "mt (Rep P lo hi # r) pre [] cur caps = (if lo = 0 then mt r pre [] cur caps else None)"
| "mt (Rep P lo hi # r) pre (c # s) cur caps =
     (case (if P c \<and> hi \<noteq> Some 0
            then mt (Rep P (lo - 1) (pred_opt hi) # r) (c # pre) s (map_option (\<lambda>x. x @ [c]) cur) caps
            else None) of
        Some m \<Rightarrow> Some m
      | None \<Rightarrow> (if lo = 0 then mt r pre (c # s) cur caps else None))"
| "mt (Bol # r) pre s cur caps = (if pre = [] then mt r pre s cur caps else None)"
| "mt (BolM # r) pre s cur caps = (if at_bol pre then mt r pre s cur caps else None)"
| "mt (Eol # r) pre s cur caps = (if s = [] \<or> s = [NL] then mt r pre s cur caps else None)"
| "mt (Open # r) pre s cur caps = mt r pre s (Some []) caps"
| "mt (Close # r) pre s cur caps =
     mt r pre s None (caps @ [case cur of None \<Rightarrow> [] | Some x \<Rightarrow> x])"

text \<open>\<open>re.match\<close>: the match at the start, as its groups and the rest of the text.\<close>

definition re_match :: "rx list \<Rightarrow> string \<Rightarrow> (string list \<times> string) option" where
  "re_match r s = mt r [] s None []"

text \<open>\<open>re.search\<close>: the groups of the leftmost match.\<close>

fun search_from :: "rx list \<Rightarrow> string \<Rightarrow> string \<Rightarrow> string list option" where
  "search_from r pre [] = map_option fst (mt r pre [] None [])"
| "search_from r pre (c # s) =
     (case mt r pre (c # s) None [] of
        Some m \<Rightarrow> Some (fst m)
      | None \<Rightarrow> search_from r (c # pre) s)"

definition re_search :: "rx list \<Rightarrow> string \<Rightarrow> string list option" where
  "re_search r s = search_from r [] s"

section \<open>What it means to match\<close>

inductive rxm :: "rx list \<Rightarrow> string \<Rightarrow> string \<Rightarrow> string \<Rightarrow> bool" where
  rxm_nil: "rxm [] pre s s"
| rxm_one: "P c \<Longrightarrow> rxm r (c # pre) s t \<Longrightarrow> rxm (One P # r) pre (c # s) t"
| rxm_stop: "rxm r pre s t \<Longrightarrow> rxm (Rep P 0 hi # r) pre s t"
| rxm_more: "P c \<Longrightarrow> hi \<noteq> Some 0 \<Longrightarrow> rxm (Rep P (lo - 1) (pred_opt hi) # r) (c # pre) s t
    \<Longrightarrow> rxm (Rep P lo hi # r) pre (c # s) t"
| rxm_bol: "rxm r [] s t \<Longrightarrow> rxm (Bol # r) [] s t"
| rxm_bolm: "at_bol pre \<Longrightarrow> rxm r pre s t \<Longrightarrow> rxm (BolM # r) pre s t"
| rxm_eol: "s = [] \<or> s = [NL] \<Longrightarrow> rxm r pre s t \<Longrightarrow> rxm (Eol # r) pre s t"
| rxm_open: "rxm r pre s t \<Longrightarrow> rxm (Open # r) pre s t"
| rxm_close: "rxm r pre s t \<Longrightarrow> rxm (Close # r) pre s t"

inductive_cases rxm_nilE: "rxm [] pre s t"
inductive_cases rxm_oneE: "rxm (One P # r) pre s t"
inductive_cases rxm_repE: "rxm (Rep P lo hi # r) pre s t"
inductive_cases rxm_bolE: "rxm (Bol # r) pre s t"
inductive_cases rxm_bolmE: "rxm (BolM # r) pre s t"
inductive_cases rxm_eolE: "rxm (Eol # r) pre s t"
inductive_cases rxm_openE: "rxm (Open # r) pre s t"
inductive_cases rxm_closeE: "rxm (Close # r) pre s t"

lemmas rxm_elims = rxm_nilE rxm_oneE rxm_bolE rxm_bolmE rxm_eolE rxm_openE rxm_closeE

lemma mt_sound: "mt r pre s cur caps = Some (gs, t) \<Longrightarrow> rxm r pre s t"
  by (induction r pre s cur caps rule: mt.induct)
    (auto intro: rxm.intros split: if_splits option.splits)

lemma mt_complete: "rxm r pre s t \<Longrightarrow> mt r pre s cur caps \<noteq> None"
proof (induction arbitrary: cur caps rule: rxm.induct)
  case (rxm_stop r pre s t P hi)
  then show ?case by (cases s) (auto split: option.splits)
next
  case (rxm_more P c hi lo r pre s t)
  obtain m where "mt (Rep P (lo - 1) (pred_opt hi) # r) (c # pre) s (map_option (\<lambda>x. x @ [c]) cur) caps = Some m"
    using rxm_more.IH [of "map_option (\<lambda>x. x @ [c]) cur" caps] by blast
  with rxm_more.hyps show ?case by simp
qed auto

lemma mt_iff: "mt r pre s cur caps \<noteq> None \<longleftrightarrow> (\<exists>t. rxm r pre s t)"
proof
  assume "mt r pre s cur caps \<noteq> None"
  then obtain gs t where "mt r pre s cur caps = Some (gs, t)" by auto
  then have "rxm r pre s t" by (rule mt_sound)
  then show "\<exists>t. rxm r pre s t" ..
next
  assume "\<exists>t. rxm r pre s t"
  then show "mt r pre s cur caps \<noteq> None" using mt_complete by auto
qed

text \<open>A match never looks past the text it is given.\<close>

lemma rxm_suffix: "rxm r pre s t \<Longrightarrow> \<exists>u. s = u @ t"
  by (induction rule: rxm.induct) (metis append_Nil append_Cons)+

section \<open>Closed forms\<close>

lemma lit_simps [simp]: "lit [] = []" "lit (c # w) = One (\<lambda>x. x = c) # lit w"
  by (simp_all add: lit_def)

lemma mt_lit: "mt (lit w @ r) pre s cur caps =
    (if startswith s w
     then mt r (rev w @ pre) (drop (length w) s) (map_option (\<lambda>x. x @ w) cur) caps else None)"
proof (induction w arbitrary: pre s cur)
  case Nil
  then show ?case by (simp add: option.map_ident)
next
  case (Cons d w)
  show ?case
  proof (cases s)
    case Nil
    then show ?thesis by simp
  next
    case (Cons c s')
    with Cons.IH show ?thesis by (simp add: option.map_comp comp_def)
  qed
qed

text \<open>
  Greedy repetition, when the rest matches after the longest run: the longest run is taken.
\<close>

lemma mt_star_longest:
  assumes "mt r (rev (takeWhile P s) @ pre) (dropWhile P s)
      (map_option (\<lambda>x. x @ takeWhile P s) cur) caps = Some m"
  shows "mt (star P # r) pre s cur caps = Some m"
  using assms
proof (induction s arbitrary: pre cur)
  case Nil
  then show ?case by (simp add: option.map_ident)
next
  case (Cons c s)
  show ?case
  proof (cases "P c")
    case True
    with Cons.prems have "mt (star P # r) (c # pre) s (map_option (\<lambda>x. x @ [c]) cur) caps = Some m"
      by (intro Cons.IH) (simp add: option.map_comp comp_def)
    with True show ?thesis by (simp add: pred_opt_def)
  next
    case False
    with Cons.prems show ?thesis by (simp add: option.map_ident)
  qed
qed

text \<open>
  Greedy repetition, when the rest cannot start inside the run: exactly the longest run is taken.
\<close>

lemma mt_star_exact:
  assumes "\<And>pre c s cur. P c \<Longrightarrow> mt r pre (c # s) cur caps = None"
  shows "mt (star P # r) pre s cur caps =
    mt r (rev (takeWhile P s) @ pre) (dropWhile P s) (map_option (\<lambda>x. x @ takeWhile P s) cur) caps"
proof (induction s arbitrary: pre cur)
  case Nil
  then show ?case by (simp add: option.map_ident)
next
  case (Cons c s)
  show ?case
  proof (cases "P c")
    case True
    with assms Cons.IH show ?thesis
      by (simp add: pred_opt_def option.map_comp comp_def split: option.split)
  next
    case False
    then show ?thesis by (simp add: option.map_ident)
  qed
qed

lemma mt_plus_exact:
  assumes "\<And>pre c s cur. P c \<Longrightarrow> mt r pre (c # s) cur caps = None"
  shows "mt (plus P # r) pre s cur caps =
    (if takeWhile P s = [] then None
     else mt r (rev (takeWhile P s) @ pre) (dropWhile P s) (map_option (\<lambda>x. x @ takeWhile P s) cur) caps)"
proof (cases s)
  case Nil
  then show ?thesis by simp
next
  case (Cons c s')
  then show ?thesis
    by (simp add: pred_opt_def mt_star_exact [OF assms] option.map_comp comp_def split: option.split)
qed

lemma mt_plus_longest:
  assumes "takeWhile P s \<noteq> []"
    and "mt r (rev (takeWhile P s) @ pre) (dropWhile P s)
      (map_option (\<lambda>x. x @ takeWhile P s) cur) caps = Some m"
  shows "mt (plus P # r) pre s cur caps = Some m"
proof (cases s)
  case Nil
  with assms show ?thesis by simp
next
  case (Cons c s')
  with assms(1) have "P c" by (auto split: if_splits)
  moreover have "mt (star P # r) (c # pre) s' (map_option (\<lambda>x. x @ [c]) cur) caps = Some m"
    using assms(2) Cons \<open>P c\<close> by (intro mt_star_longest) (simp add: option.map_comp comp_def)
  ultimately show ?thesis using Cons by (simp add: pred_opt_def)
qed

text \<open>
  \<open>.*^\<close> with \<open>re.M\<close>: the dot does not cross a newline, so the anchor only holds where the
  match starts, at the beginning of a line.
\<close>

lemma mt_dots_bol:
  "mt (star dot # BolM # r) pre s cur caps =
    (if at_bol pre then mt r pre s cur caps else None)"
proof -
  have no: "mt (star dot # BolM # r) (c # pre) s cur caps = None" if "dot c" for c pre s cur
    using that
  proof (induction s arbitrary: c pre cur)
    case Nil
    then show ?case by (simp add: at_bol_def dot_def)
  next
    case (Cons d s)
    then show ?case by (simp add: at_bol_def dot_def pred_opt_def)
  qed
  show ?thesis
  proof (cases s)
    case Nil
    then show ?thesis by simp
  next
    case (Cons c s')
    then show ?thesis using no by (simp add: pred_opt_def)
  qed
qed

text \<open>A search whose expression is a pattern literal after \<open>.*\<close> is a substring test.\<close>

lemma rxm_star_drop:
  "rxm (star P # r) pre s t \<longleftrightarrow> (\<exists>k. k \<le> length (takeWhile P s) \<and> rxm r (rev (take k s) @ pre) (drop k s) t)"
proof (induction s arbitrary: pre)
  case Nil
  show ?case
    by (auto elim: rxm_repE intro: rxm_stop)
next
  case (Cons c s)
  have "rxm (star P # r) pre (c # s) t \<longleftrightarrow>
      rxm r pre (c # s) t \<or> P c \<and> rxm (star P # r) (c # pre) s t"
    by (auto elim: rxm_repE intro: rxm_stop rxm_more simp: pred_opt_def)
  also have "\<dots> \<longleftrightarrow> (\<exists>k. k \<le> length (takeWhile P (c # s)) \<and>
      rxm r (rev (take k (c # s)) @ pre) (drop k (c # s)) t)" (is "?L \<longleftrightarrow> ?R")
  proof
    assume ?L
    then show ?R
    proof
      assume "rxm r pre (c # s) t"
      then show ?R by (intro exI [of _ 0]) simp
    next
      assume "P c \<and> rxm (star P # r) (c # pre) s t"
      with Cons.IH obtain k where "k \<le> length (takeWhile P s)"
        "rxm r (rev (take k s) @ c # pre) (drop k s) t" by auto
      with \<open>P c \<and> _\<close> show ?R by (intro exI [of _ "Suc k"]) simp
    qed
  next
    assume ?R
    then obtain k where k: "k \<le> length (takeWhile P (c # s))"
      "rxm r (rev (take k (c # s)) @ pre) (drop k (c # s)) t" by blast
    show ?L
    proof (cases k)
      case 0
      with k show ?thesis by simp
    next
      case (Suc j)
      with k have "P c" by (auto split: if_splits)
      with k Suc have "rxm (star P # r) (c # pre) s t" by (subst Cons.IH) auto
      with \<open>P c\<close> show ?thesis by blast
    qed
  qed
  finally show ?case .
qed

lemma rxm_lit: "rxm (lit w) pre s t \<longleftrightarrow> s = w @ t"
proof (induction w arbitrary: pre s)
  case Nil
  then show ?case by (auto elim: rxm_nilE intro: rxm_nil)
next
  case (Cons c w)
  then show ?case by (auto elim!: rxm_oneE intro: rxm_one)
qed

lemma search_from_iff:
  "search_from r pre s \<noteq> None \<longleftrightarrow> (\<exists>k t. k \<le> length s \<and> rxm r (rev (take k s) @ pre) (drop k s) t)"
proof (induction s arbitrary: pre)
  case Nil
  then show ?case using mt_iff [of r pre "[]" None "[]"] by auto
next
  case (Cons c s)
  have "search_from r pre (c # s) \<noteq> None \<longleftrightarrow>
      (\<exists>t. rxm r pre (c # s) t) \<or> search_from r (c # pre) s \<noteq> None"
    using mt_iff [of r pre "c # s" None "[]"] by (auto split: option.split)
  also have "\<dots> \<longleftrightarrow> (\<exists>k t. k \<le> length (c # s) \<and> rxm r (rev (take k (c # s)) @ pre) (drop k (c # s)) t)"
    (is "?L \<longleftrightarrow> ?R")
  proof
    assume ?L
    then show ?R
    proof
      assume "\<exists>t. rxm r pre (c # s) t"
      then show ?R by (intro exI [of _ 0]) simp
    next
      assume "search_from r (c # pre) s \<noteq> None"
      with Cons.IH obtain k t where "k \<le> length s" "rxm r (rev (take k s) @ c # pre) (drop k s) t" by auto
      then show ?R by (intro exI [of _ "Suc k"]) auto
    qed
  next
    assume ?R
    then obtain k t where k: "k \<le> length (c # s)" "rxm r (rev (take k (c # s)) @ pre) (drop k (c # s)) t"
      by blast
    show ?L
    proof (cases k)
      case 0
      with k show ?thesis by auto
    next
      case (Suc j)
      with k have "search_from r (c # pre) s \<noteq> None" by (subst Cons.IH) auto
      then show ?thesis ..
    qed
  qed
  finally show ?case .
qed

lemma re_search_dots_lit: "re_search (star dot # lit w) s \<noteq> None \<longleftrightarrow> contains s w"
proof
  assume "re_search (star dot # lit w) s \<noteq> None"
  then obtain k t where "rxm (star dot # lit w) (rev (take k s) @ []) (drop k s) t"
    unfolding re_search_def search_from_iff by blast
  then obtain j where "drop j (drop k s) = w @ t"
    unfolding rxm_star_drop rxm_lit by blast
  then have "s = take (j + k) s @ w @ t" by (metis append_take_drop_id drop_drop)
  then show "contains s w" by (auto simp: contains_iff)
next
  assume "contains s w"
  then obtain a b where s: "s = a @ w @ b" by (auto simp: contains_iff)
  then have "rxm (star dot # lit w) (rev (take (length a) s) @ []) (drop (length a) s) b"
    by (subst rxm_star_drop) (intro exI [of _ 0], simp add: rxm_lit)
  with s show "re_search (star dot # lit w) s \<noteq> None"
    unfolding re_search_def search_from_iff by (intro exI [of _ "length a"] exI [of _ b]) simp
qed

end
