(* ===== verification/PyFloat.thy ===== *)
theory PyFloat
  imports PyStr
begin

text \<open>
  What the sources observe of Python's floating point numbers: \<open>int(float(s))\<close> on text and
  \<open>int(a / b)\<close> on integers. Both round to an IEEE double (53 significant bits, ties to even)
  and then truncate. The rounding is modelled exactly, on numerator and denominator; the main lemma
  says that below \<open>2^53\<close> it does not disturb the truncated quotient.
\<close>

section \<open>Rounding to a double and truncating\<close>

definition round_half_even :: "nat \<Rightarrow> nat \<Rightarrow> nat" where
  "round_half_even n d =
     (let q = n div d; r = n mod d
      in if 2 * r < d then q else if d < 2 * r then q + 1 else if even q then q else q + 1)"

fun bit_length :: "nat \<Rightarrow> nat" where
  "bit_length n = (if n = 0 then 0 else Suc (bit_length (n div 2)))"

declare bit_length.simps [simp del]

text \<open>
  The integer part of the double nearest to \<open>n / d\<close>. \<open>l\<close> is the number of bits of the integer
  part, so the unit in the last place is \<open>2^(l - 53)\<close>; a quotient below one half has integer part
  0 at any finer unit too.
\<close>

definition float_trunc :: "nat \<Rightarrow> nat \<Rightarrow> nat" where
  "float_trunc n d =
     (let l = bit_length (n div d)
      in if l \<le> 53 then round_half_even (n * 2 ^ (53 - l)) d div 2 ^ (53 - l)
         else round_half_even n (d * 2 ^ (l - 53)) * 2 ^ (l - 53))"

text \<open>\<open>int(n / d)\<close> on non-negative integers; \<open>None\<close> is the \<open>OverflowError\<close>.\<close>

definition py_int_div :: "nat \<Rightarrow> nat \<Rightarrow> nat option" where
  "py_int_div n d = (let v = float_trunc n d in if v < 2 ^ 1024 then Some v else None)"

text \<open>Truncation is towards zero, so a sign can be taken out.\<close>

definition py_int_div_int :: "int \<Rightarrow> nat \<Rightarrow> int option" where
  "py_int_div_int a d = map_option (\<lambda>v. sgn a * int v) (py_int_div (nat \<bar>a\<bar>) d)"

section \<open>float(s)\<close>

datatype float_text = Finite bool nat nat | Infinite | NotANumber | BadFloat

text \<open>Underscores may separate digits.\<close>

fun drop_underscores :: "bool \<Rightarrow> string \<Rightarrow> string option" where
  "drop_underscores p [] = Some []"
| "drop_underscores p (c # s) =
     (if c = CHR ''_'' then
        (if p \<and> (case s of [] \<Rightarrow> False | d # _ \<Rightarrow> is_digit d) then drop_underscores False s else None)
      else map_option ((#) c) (drop_underscores (is_digit c) s))"

fun digits_val :: "nat \<Rightarrow> string \<Rightarrow> nat" where
  "digits_val acc [] = acc"
| "digits_val acc (c # s) = digits_val (acc * 10 + (code c - 48)) s"

definition exponent :: "string \<Rightarrow> int option" where
  "exponent s =
     (case s of
        [] \<Rightarrow> Some 0
      | c # r \<Rightarrow>
          (if c = CHR ''e'' \<or> c = CHR ''E'' then
             signed (\<lambda>t. if t \<noteq> [] \<and> list_all is_digit t then Some (digits_val 0 t) else None) r
           else None))"

definition decimal :: "bool \<Rightarrow> string \<Rightarrow> float_text" where
  "decimal neg s =
     (let a = takeWhile is_digit s; r = dropWhile is_digit s;
          dotted = startswith r ''.'';
          b = (if dotted then takeWhile is_digit (tl r) else []);
          r' = (if dotted then dropWhile is_digit (tl r) else r)
      in if a = [] \<and> b = [] then BadFloat
         else case exponent r' of
                None \<Rightarrow> BadFloat
              | Some e \<Rightarrow>
                  (let m = digits_val 0 (a @ b); k = e - int (length b)
                   in if 0 \<le> k then Finite neg (m * 10 ^ nat k) 1
                      else Finite neg m (10 ^ nat (- k))))"

definition unsigned_float :: "bool \<Rightarrow> string \<Rightarrow> float_text" where
  "unsigned_float neg s =
     (if lower s = ''inf'' \<or> lower s = ''infinity'' then Infinite
      else if lower s = ''nan'' then NotANumber
      else case drop_underscores False s of None \<Rightarrow> BadFloat | Some t \<Rightarrow> decimal neg t)"

definition py_float :: "string \<Rightarrow> float_text" where
  "py_float s =
     (case strip s of
        [] \<Rightarrow> BadFloat
      | c # r \<Rightarrow>
          (if c = CHR ''-'' then unsigned_float True r
           else if c = CHR ''+'' then unsigned_float False r
           else unsigned_float False (c # r)))"

text \<open>\<open>int(float(s))\<close>; \<open>None\<close> is a \<open>ValueError\<close> or an \<open>OverflowError\<close>.\<close>

definition int_of_float_text :: "string \<Rightarrow> int option" where
  "int_of_float_text s =
     (case py_float s of
        Finite neg n d \<Rightarrow> map_option (\<lambda>v. if neg then - int v else int v) (py_int_div n d)
      | Infinite \<Rightarrow> None
      | NotANumber \<Rightarrow> None
      | BadFloat \<Rightarrow> None)"

section \<open>Rounding below 2^53\<close>

lemma round_half_even_ge: "n div d \<le> round_half_even n d"
  by (simp add: round_half_even_def Let_def)

lemma round_half_even_upper: "0 < d \<Longrightarrow> 2 * d * round_half_even n d \<le> 2 * n + d"
proof -
  assume d: "0 < d"
  define q r where "q = n div d" and "r = n mod d"
  have n: "n = d * q + r" by (simp add: q_def r_def)
  have "round_half_even n d = q \<or> round_half_even n d = q + 1 \<and> d \<le> 2 * r"
    by (auto simp: round_half_even_def Let_def q_def r_def)
  then show ?thesis by (auto simp: n algebra_simps)
qed

lemma bit_length_upper: "n < 2 ^ bit_length n"
proof (induction n rule: bit_length.induct)
  case (1 n)
  show ?case
  proof (cases "n = 0")
    case True
    then show ?thesis by (simp add: bit_length.simps)
  next
    case False
    with 1 have "n div 2 < 2 ^ bit_length (n div 2)" by simp
    then have "n < 2 * 2 ^ bit_length (n div 2)" by linarith
    with False show ?thesis by (subst bit_length.simps) simp
  qed
qed

lemma bit_length_lower: "0 < n \<Longrightarrow> 2 ^ (bit_length n - 1) \<le> n"
proof (induction n rule: bit_length.induct)
  case (1 n)
  show ?case
  proof (cases "n div 2 = 0")
    case True
    with 1 have "n = 1" by linarith
    then show ?thesis by (simp add: bit_length.simps)
  next
    case False
    with 1 have le: "2 ^ (bit_length (n div 2) - 1) \<le> n div 2" by simp
    have pos: "0 < bit_length (n div 2)" using False by (subst bit_length.simps) simp
    have "bit_length n - 1 = bit_length (n div 2)" using 1 by (subst bit_length.simps) simp
    with pos have "2 ^ (bit_length n - 1) = 2 * 2 ^ (bit_length (n div 2) - 1)"
      by (metis Suc_diff_1 power_Suc)
    also have "\<dots> \<le> n" using le by linarith
    finally show ?thesis .
  qed
qed

lemma bit_length_le: "n < 2 ^ k \<Longrightarrow> bit_length n \<le> k"
proof (rule ccontr)
  assume n: "n < 2 ^ k" and "\<not> bit_length n \<le> k"
  then have k: "k \<le> bit_length n - 1" and pos: "0 < n"
    by (simp, cases "n = 0") (auto simp: bit_length.simps)
  have "(2::nat) ^ k \<le> 2 ^ (bit_length n - 1)" using k by simp
  also have "\<dots> \<le> n" using pos by (rule bit_length_lower)
  finally show False using n by simp
qed

text \<open>
  The rounded value stays below the next integer: an integer quotient \<open>q\<close> with \<open>l\<close> bits needs a
  denominator below \<open>2^(54 - l)\<close> when the numerator is below \<open>2^53\<close>, so the gap to \<open>q + 1\<close> is more
  than half a unit in the last place.
\<close>

lemma round_below_next:
  assumes d: "0 < d" and n: "n < 2 ^ 53" and k: "k = 53 - bit_length (n div d)"
    and l: "bit_length (n div d) \<le> 53"
  shows "round_half_even (n * 2 ^ k) d < (n div d + 1) * 2 ^ k"
proof (rule ccontr)
  define q where "q = n div d"
  assume "\<not> ?thesis"
  then have "(q + 1) * 2 ^ k \<le> round_half_even (n * 2 ^ k) d" by (simp add: q_def)
  then have "2 * d * ((q + 1) * 2 ^ k) \<le> 2 * d * round_half_even (n * 2 ^ k) d" by simp
  also have "\<dots> \<le> 2 * (n * 2 ^ k) + d" using d by (rule round_half_even_upper)
  finally have le: "2 * ((q + 1) * d) * 2 ^ k \<le> 2 * n * 2 ^ k + d" by (simp add: algebra_simps)
  have "n + 1 \<le> (q + 1) * d"
    using d by (simp add: q_def) (metis add.commute mult.commute dividend_less_div_times Suc_leI)
  then have "2 * (n + 1) * 2 ^ k \<le> 2 * ((q + 1) * d) * 2 ^ k"
    by (metis mult_le_mono1 mult_le_mono2)
  with le have gap: "2 * 2 ^ k \<le> d" by (simp add: algebra_simps)
  show False
  proof (cases "q = 0")
    case True
    then have k53: "k = 53" using k by (simp add: q_def bit_length.simps)
    with le True have "d * (2 * 2 ^ 53) \<le> n * (2 * 2 ^ 53) + d" by (simp add: algebra_simps)
    moreover have "n * (2 * 2 ^ 53) < 2 ^ 53 * (2 * 2 ^ 53)" using n by simp
    moreover have "2 * 2 ^ 53 \<le> d" using gap k53 by simp
    ultimately show False by simp
  next
    case False
    then have "2 ^ (bit_length q - 1) \<le> q" by (intro bit_length_lower) simp
    then have "2 ^ (bit_length q - 1) * d \<le> q * d" by simp
    also have "\<dots> \<le> n" by (simp add: q_def)
    also have "\<dots> < 2 ^ 53" by (rule n)
    finally have lt: "2 ^ (bit_length q - 1) * d < 2 ^ 53" .
    have "0 < bit_length q" using False by (subst bit_length.simps) simp
    then have "(2::nat) ^ 53 = 2 ^ (bit_length q - 1) * (2 * 2 ^ k)"
      using l k by (simp add: q_def power_add [symmetric] power_Suc [symmetric] del: power_Suc)
    also have "\<dots> \<le> 2 ^ (bit_length q - 1) * d" using gap by simp
    finally show False using lt by simp
  qed
qed

theorem float_trunc_exact: "0 < d \<Longrightarrow> n < 2 ^ 53 \<Longrightarrow> float_trunc n d = n div d"
proof -
  assume d: "0 < d" and n: "n < 2 ^ 53"
  define l where "l = bit_length (n div d)"
  have "n div d < 2 ^ 53" using n by (meson div_le_dividend le_less_trans)
  then have l: "l \<le> 53" unfolding l_def by (rule bit_length_le)
  define k where "k = 53 - l"
  have "n div d * 2 ^ k \<le> n * 2 ^ k div d"
    using d by (simp add: less_eq_div_iff_mult_less_eq mult.commute mult.left_commute)
  also have "\<dots> \<le> round_half_even (n * 2 ^ k) d" by (rule round_half_even_ge)
  finally have lower: "n div d * 2 ^ k \<le> round_half_even (n * 2 ^ k) d" .
  have upper: "round_half_even (n * 2 ^ k) d < (n div d + 1) * 2 ^ k"
    using d n l by (intro round_below_next) (simp_all add: k_def l_def)
  have "round_half_even (n * 2 ^ k) d div 2 ^ k = n div d"
    using lower upper by (intro div_nat_eqI) (simp_all add: mult.commute)
  with l show ?thesis by (simp add: float_trunc_def Let_def l_def k_def)
qed

lemma py_int_div_exact: "0 < d \<Longrightarrow> n < 2 ^ 53 \<Longrightarrow> py_int_div n d = Some (n div d)"
proof -
  assume d: "0 < d" and n: "n < 2 ^ 53"
  have "n div d < 2 ^ 53" using n by (meson div_le_dividend le_less_trans)
  also have "(2::nat) ^ 53 \<le> 2 ^ 1024" by (intro power_increasing) simp_all
  finally show ?thesis using d n by (simp add: py_int_div_def float_trunc_exact)
qed

lemma py_int_div_int_exact:
  "0 < d \<Longrightarrow> 0 \<le> a \<Longrightarrow> a < 2 ^ 53 \<Longrightarrow> py_int_div_int a d = Some (a div int d)"
proof -
  assume d: "0 < d" and a: "0 \<le> a" "a < 2 ^ 53"
  then have "nat a < 2 ^ 53" by (simp add: nat_less_iff)
  with d a show ?thesis
    by (cases "a = 0") (simp_all add: py_int_div_int_def py_int_div_exact nat_div_distrib zdiv_int)
qed

section \<open>Decimal integers\<close>

lemma drop_underscores_digits: "list_all is_digit s \<Longrightarrow> drop_underscores p s = Some s"
  by (induction s arbitrary: p) auto

lemma digits_val_scan: "list_all is_digit s \<Longrightarrow> s \<noteq> [] \<or> p \<Longrightarrow> scan_digits 10 acc p s = Some (digits_val acc s)"
proof (induction s arbitrary: acc p)
  case Nil
  then show ?case by simp
next
  case (Cons c s)
  then have "is_digit c" by simp
  then have "code c - 48 < 10" by (auto simp: is_digit_def)
  with Cons show ?case by simp
qed

lemma digits_val_show [simp]: "digits_val 0 (show_nat n) = n"
  using digits_val_scan [OF show_nat_digits, of n False 0] scan_show_nat [of n] by simp

lemma lower_digits: "list_all is_digit s \<Longrightarrow> lower s = s"
  by (induction s) (auto simp: lower_def to_lower_def is_digit_def is_upper_def)

lemma unsigned_float_show: "unsigned_float neg (show_nat n) = Finite neg n 1"
proof -
  have d: "list_all is_digit (show_nat n)" by (rule show_nat_digits)
  obtain c r where cr: "show_nat n = c # r" by (meson neq_Nil_conv show_nat_nonempty)
  have "c \<noteq> CHR ''i'' \<and> c \<noteq> CHR ''n''" using d cr by (auto simp: is_digit_def code_def)
  with cr d have ne: "lower (show_nat n) \<noteq> ''inf''" "lower (show_nat n) \<noteq> ''infinity''"
      "lower (show_nat n) \<noteq> ''nan''"
    by (simp_all add: lower_digits)
  have tw: "takeWhile is_digit (show_nat n) = show_nat n" "dropWhile is_digit (show_nat n) = []"
    using d by (simp_all add: list_all_iff)
  show ?thesis
    by (simp add: unsigned_float_def ne drop_underscores_digits [OF d] decimal_def tw exponent_def Let_def)
qed

theorem int_of_float_text_show:
  assumes "\<bar>i\<bar> < 2 ^ 53"
  shows "int_of_float_text (show_int i) = Some i"
proof -
  have n: "nat \<bar>i\<bar> < 2 ^ 53" using assms by (simp add: nat_less_iff)
  have st: "strip (show_int i) = show_int i" by (simp add: show_int_no_space)
  show ?thesis
  proof (cases "i < 0")
    case True
    then have "py_float (show_int i) = Finite True (nat (- i)) 1"
      by (simp add: py_float_def st) (simp add: show_int_def unsigned_float_show)
    with True n show ?thesis by (simp add: int_of_float_text_def py_int_div_exact)
  next
    case False
    obtain c r where cr: "show_nat (nat i) = c # r" by (meson neq_Nil_conv show_nat_nonempty)
    with False show_nat_no_sign [OF cr] have "py_float (show_int i) = Finite False (nat i) 1"
      using unsigned_float_show [of False "nat i"] by (simp add: py_float_def st) (simp add: show_int_def)
    with False n show ?thesis by (simp add: int_of_float_text_def py_int_div_exact)
  qed
qed

end
