(* ===== verification/World.thy ===== *)
theory World
  imports PyStr
begin

text \<open>
  The state of one TSI process and what it sees of the machine it runs on. \<open>world\<close> holds the
  process credentials and environment, the configuration dictionary, the user cache, the child
  processes, the control and data channels of the connector, the files, and the list of the commands
  started so far together with the credentials they were started with. \<open>sys\<close> collects what is
  outside the sources: the password and group databases (as functions of time), the outcome of a
  shell command, the access decision of the kernel and the wording of the interpreter's messages.
\<close>

section \<open>Configuration values\<close>

text \<open>
  The configuration is a Python dictionary from names to values of several types. A distinguished
  name is a list of relative names, where \<open>None\<close> is what \<open>Utils.convert_rdn\<close> returns for an
  unknown attribute.
\<close>

type_synonym rdn = "string \<times> string"
type_synonym dn = "rdn option list"

datatype cval =
    CNone
  | CBool bool
  | CInt int
  | CStr string
  | CStrs "string list"
  | CDict "(string, string) dict"
  | CDns "dn list"
  | CRange int int int

type_synonym config = "string \<Rightarrow> cval option"

fun truthy :: "cval \<Rightarrow> bool" where
  "truthy CNone = False"
| "truthy (CBool b) = b"
| "truthy (CInt i) = (i \<noteq> 0)"
| "truthy (CStr s) = (s \<noteq> [])"
| "truthy (CStrs l) = (l \<noteq> [])"
| "truthy (CDict d) = (d \<noteq> [])"
| "truthy (CDns d) = (d \<noteq> [])"
| "truthy (CRange a b c) = True"

text \<open>Using a value where text is needed; anything else is a \<open>TypeError\<close>.\<close>

fun as_str :: "cval \<Rightarrow> exn + string" where
  "as_str (CStr s) = Inr s"
| "as_str _ = Inl TypeError"

section \<open>Credentials, commands, files\<close>

text \<open>
  Real, effective and saved ids and the supplementary groups. \<open>setid_caps\<close> says that the process
  was given \<open>CAP_SETUID\<close> and \<open>CAP_SETGID\<close> without being root (\<open>setpriv\<close>).
\<close>

record cred =
  ruid :: int
  euid :: int
  suid :: int
  rgid :: int
  egid :: int
  sgid :: int
  groups :: "int list"
  setid_caps :: bool

text \<open>A command started by the process: who ran it, its arguments, and whether in the background.\<close>

record event =
  ev_cred :: cred
  ev_argv :: "string list"
  ev_background :: bool

datatype exec_result = Finished int string

text \<open>A file or directory with what \<open>os.stat\<close> reports of it.\<close>

record meta =
  st_mode :: nat
  st_uid :: int
  st_gid :: int
  st_mtime :: int

datatype fnode =
    FFile "string" meta
  | FDir "string list" meta

fun meta_of :: "fnode \<Rightarrow> meta" where
  "meta_of (FFile c m) = m"
| "meta_of (FDir c m) = m"

section \<open>The user cache\<close>

text \<open>
  The fields of a \<open>UserCache\<close> object. Its dictionaries hold \<open>None\<close> for a name that was looked up
  in vain; \<open>get\<close> makes no difference between that and a missing key, so both are \<open>None\<close> here.
\<close>

record user_cache =
  cache_ttl :: cval
  use_id :: bool
  all_groups :: "string \<Rightarrow> int list option"
  uids :: "string \<Rightarrow> int option"
  gids :: "string \<Rightarrow> int option"
  homes :: "string \<Rightarrow> string option"
  group_gids :: "string \<Rightarrow> int option"
  users_timestamps :: "string \<Rightarrow> int option"
  groups_timestamps :: "string \<Rightarrow> int option"

section \<open>Login sessions\<close>

text \<open>The calls of the PAM library: \<open>pam_start\<close> with a service and a user, and the calls on its handle.\<close>

datatype pam_call = PamStart string string | PamOpenSession | PamCloseSession | PamEnd

section \<open>Outgoing connections\<close>

text \<open>
  Where a connection goes, to a host and port from a local port (0 for any) or to a socket file,
  and the attempt to open it with the credentials it was made with.
\<close>

datatype target = Tcp string cval int | Unix string

record dial =
  dl_cred :: cred
  dl_target :: target

section \<open>What lies outside the sources\<close>

text \<open>
  \<open>pwnam t u\<close> is the password entry (uid, gid, home) of \<open>u\<close> at time \<open>t\<close>; \<open>grnam\<close> and
  \<open>grall\<close> likewise for groups. \<open>execute h argv\<close> is what the command \<open>argv\<close> returns after the
  commands \<open>h\<close> were started; \<open>new_pid h\<close> is the process id of the next child. \<open>may c p m\<close> is
  the access decision (4 read, 2 write, 1 execute) for a process with credentials \<open>c\<close>, where writing
  a path that does not exist is creating it. \<open>new_mode\<close> and \<open>new_dir_mode\<close> are the modes of a new file and directory (after the umask),
  \<open>dir_size p\<close> the size \<open>os.stat\<close> reports for a directory, \<open>max_depth\<close> the recursion limit of the
  interpreter. A read or write of \<open>n\<close> bytes at position \<open>k\<close> of a file may be cut short by the kernel
  to \<open>read_limit k n\<close> or \<open>write_limit k n\<close> bytes (but at least one). \<open>random_id h\<close> is the random
  string drawn after the commands \<open>h\<close>, \<open>clock_ms h\<close> the clock in milliseconds, \<open>own_pid\<close> the process
  id of the TSI, and \<open>waitpid h p\<close> what \<open>os.waitpid(p, os.WNOHANG)\<close> returns: \<open>None\<close> if there is no
  such child, 0 if it still runs, and otherwise its process id. \<open>pam_err h c\<close> is the result of the
  call \<open>c\<close> of the PAM library after the calls \<open>h\<close>, \<open>pam_text\<close> its description of a result,
  \<open>uftp_client\<close> the path of the file \<open>UFTP.py\<close>, and \<open>connect_res h d\<close> the error of the attempt \<open>d\<close> to
  open a connection after the attempts \<open>h\<close>, if it fails.
\<close>

record sys =
  pwnam :: "int \<Rightarrow> string \<Rightarrow> (int \<times> int \<times> string) option"
  grnam :: "int \<Rightarrow> string \<Rightarrow> int option"
  grall :: "int \<Rightarrow> (int \<times> string list) list"
  pwuid :: "int \<Rightarrow> string option"
  grgid :: "int \<Rightarrow> string option"
  execute :: "event list \<Rightarrow> string list \<Rightarrow> exec_result"
  new_pid :: "event list \<Rightarrow> int"
  may :: "cred \<Rightarrow> string \<Rightarrow> nat \<Rightarrow> bool"
  new_mode :: nat
  new_dir_mode :: nat
  dir_size :: "string \<Rightarrow> nat"
  read_limit :: "nat \<Rightarrow> nat \<Rightarrow> nat"
  write_limit :: "nat \<Rightarrow> nat \<Rightarrow> nat"
  max_depth :: nat
  random_id :: "event list \<Rightarrow> string"
  own_pid :: int
  clock_ms :: "event list \<Rightarrow> int"
  waitpid :: "event list \<Rightarrow> int \<Rightarrow> int option"
  pam_err :: "pam_call list \<Rightarrow> pam_call \<Rightarrow> int"
  pam_text :: "int \<Rightarrow> string"
  uftp_client :: string
  connect_res :: "dial list \<Rightarrow> dial \<Rightarrow> exn option"
  exc_text :: "exn \<Rightarrow> string"

section \<open>The process\<close>

record world =
  config :: config
  ucache :: user_cache
  cred :: cred
  environ :: "string \<Rightarrow> string option"
  cwd :: string
  now :: int
  trace :: "event list"
  child_pids :: "int list"
  ctl_in :: string
  ctl_out :: string
  dat_in :: string
  dat_out :: string
  files :: "string \<Rightarrow> fnode option"
  pam_calls :: "pam_call list"
  dials :: "dial list"

type_synonym 'a tsi = "(world, 'a) prog"

text \<open>\<open>config[k]\<close> and \<open>config.get(k, d)\<close>.\<close>

definition cfg_sub :: "string \<Rightarrow> cval tsi" where
  "cfg_sub k = bnd (gets config) (\<lambda>c. of_opt (KeyError k) (c k))"

definition cfg_get :: "string \<Rightarrow> cval \<Rightarrow> cval tsi" where
  "cfg_get k d = gets (\<lambda>w. case config w k of None \<Rightarrow> d | Some v \<Rightarrow> v)"

definition cfg_str :: "string \<Rightarrow> string tsi" where
  "cfg_str k = bnd (cfg_sub k) (\<lambda>v. of_sum (as_str v))"

definition cfg_set :: "string \<Rightarrow> cval \<Rightarrow> unit tsi" where
  "cfg_set k v = modify (\<lambda>w. w\<lparr>config := (config w)(k \<mapsto> v)\<rparr>)"

text \<open>A path as the kernel resolves it, and \<open>os.chdir\<close>.\<close>

definition abs_path :: "world \<Rightarrow> string \<Rightarrow> string" where
  "abs_path w p = (if startswith p ''/'' then p else cwd w @ ''/'' @ p)"

definition os_chdir :: "string \<Rightarrow> unit tsi" where
  "os_chdir p = (\<lambda>w. case files w (abs_path w p) of
      Some (FDir _ _) \<Rightarrow> (Ret (), w\<lparr>cwd := abs_path w p\<rparr>)
    | _ \<Rightarrow> (Exc (OSError p), w))"

text \<open>The text \<open>str(e)\<close> of an exception: the sources' own message where there is one.\<close>

fun exn_str :: "sys \<Rightarrow> exn \<Rightarrow> string" where
  "exn_str S (RuntimeError m) = m"
| "exn_str S (Exception m) = m"
| "exn_str S e = exc_text S e"

lemma abs_path_upd [simp]:
  "abs_path (w\<lparr>files := x0\<rparr>) p = abs_path w p"
  "abs_path (w\<lparr>ctl_in := x1\<rparr>) p = abs_path w p"
  "abs_path (w\<lparr>ctl_out := x2\<rparr>) p = abs_path w p"
  "abs_path (w\<lparr>dat_in := x3\<rparr>) p = abs_path w p"
  "abs_path (w\<lparr>dat_out := x4\<rparr>) p = abs_path w p"
  "abs_path (w\<lparr>trace := x5\<rparr>) p = abs_path w p"
  "abs_path (w\<lparr>child_pids := x6\<rparr>) p = abs_path w p"
  "abs_path (w\<lparr>ucache := x7\<rparr>) p = abs_path w p"
  "abs_path (w\<lparr>cred := x8\<rparr>) p = abs_path w p"
  "abs_path (w\<lparr>environ := x9\<rparr>) p = abs_path w p"
  "abs_path (w\<lparr>config := x10\<rparr>) p = abs_path w p"
  "abs_path (w\<lparr>now := x11\<rparr>) p = abs_path w p"
  "abs_path (w\<lparr>pam_calls := x12\<rparr>) p = abs_path w p"
  "abs_path (w\<lparr>dials := x13\<rparr>) p = abs_path w p"
  by (simp_all add: abs_path_def)

lemma cfg_sub_run [run_simps]:
  "cfg_sub k w = (case config w k of None \<Rightarrow> (Exc (KeyError k), w) | Some v \<Rightarrow> (Ret v, w))"
  by (simp add: cfg_sub_def run_simps)

lemma cfg_get_run [run_simps]:
  "cfg_get k d w = (Ret (case config w k of None \<Rightarrow> d | Some v \<Rightarrow> v), w)"
  by (simp add: cfg_get_def run_simps)

lemma cfg_str_run [run_simps]:
  "cfg_str k w = (case config w k of
      None \<Rightarrow> (Exc (KeyError k), w)
    | Some v \<Rightarrow> (case as_str v of Inl e \<Rightarrow> (Exc e, w) | Inr s \<Rightarrow> (Ret s, w)))"
  by (simp add: cfg_str_def run_simps split: option.split)

lemma frame_cfg_sub [frames]: "frame p (cfg_sub k)"
  by (simp add: frame_def run_simps split: option.split)

lemma frame_cfg_get [frames]: "frame p (cfg_get k d)"
  by (simp add: frame_def run_simps)

lemma frame_cfg_str [frames]: "frame p (cfg_str k)"
  by (simp add: frame_def run_simps split: option.split sum.split)

lemma frame_os_chdir: "(\<And>w x. p (w\<lparr>cwd := x\<rparr>) = p w) \<Longrightarrow> frame p (os_chdir q)"
  by (simp add: frame_def os_chdir_def split: option.split fnode.split)

end
