(* ===== verification/Utils.thy ===== *)
theory Utils
  imports Regex PyFloat World
begin

text \<open>
  \<open>lib/Utils.py\<close>: reading parameters and numbers out of a request, expanding variables, adding
  file permissions, running shell commands, and matching certificate subjects against the list of
  allowed names. The last section replaces the regular expression searches by plain functions on the
  lines of the message and states what they return.
\<close>

section \<open>Parameters of a request\<close>

text \<open>The expression \<open>.*^#TSI_<parameter> (.*)\n.*\<close>, searched with \<open>re.M\<close>.\<close>

definition rx_param :: "string \<Rightarrow> rx list" where
  "rx_param parameter =
     star dot # BolM # lit (''#TSI_'' @ parameter @ '' '') @
     [Open, star dot, Close, One (\<lambda>c. c = NL), star dot]"

definition extract_parameter :: "string \<Rightarrow> string \<Rightarrow> string option \<Rightarrow> string option" where
  "extract_parameter message parameter default_value =
     (case re_search (rx_param parameter) message of
        None \<Rightarrow> default_value
      | Some caps \<Rightarrow> (if caps ! 0 = [] then default_value else Some (caps ! 0)))"

definition extract_number :: "string \<Rightarrow> string \<Rightarrow> int" where
  "extract_number message parameter =
     (case extract_parameter message parameter None of
        None \<Rightarrow> -1
      | Some result \<Rightarrow> (case int_of_float_text result of None \<Rightarrow> -1 | Some v \<Rightarrow> v))"

definition env_get :: "(string \<Rightarrow> string option) \<Rightarrow> string \<Rightarrow> string" where
  "env_get env k = (case env k of None \<Rightarrow> [] | Some v \<Rightarrow> v)"

definition expand_variables :: "(string \<Rightarrow> string option) \<Rightarrow> string \<Rightarrow> string" where
  "expand_variables env message =
     replace ''$USER'' (env_get env ''USER'')
       (replace ''$LOGNAME'' (env_get env ''LOGNAME'')
         (replace ''$HOME'' (env_get env ''HOME'') message))"

section \<open>Files\<close>

text \<open>
  \<open>os.chmod\<close> replaces the twelve permission bits; the file type bits above them stay. The kernel
  lets only the owner or root do it.
\<close>

definition privileged :: "cred \<Rightarrow> bool" where
  "privileged c \<longleftrightarrow> euid c = 0 \<or> setid_caps c"

definition set_mode :: "nat \<Rightarrow> nat \<Rightarrow> nat" where
  "set_mode old m = old div 4096 * 4096 + m mod 4096"

fun with_mode :: "nat \<Rightarrow> fnode \<Rightarrow> fnode" where
  "with_mode m (FFile c a) = FFile c (a\<lparr>st_mode := set_mode (st_mode a) m\<rparr>)"
| "with_mode m (FDir c a) = FDir c (a\<lparr>st_mode := set_mode (st_mode a) m\<rparr>)"

definition os_chmod :: "string \<Rightarrow> nat \<Rightarrow> unit tsi" where
  "os_chmod p m = (\<lambda>w. case files w (abs_path w p) of
      None \<Rightarrow> (Exc (OSError p), w)
    | Some f \<Rightarrow>
        (if euid (cred w) = 0 \<or> euid (cred w) = st_uid (meta_of f)
         then (Ret (), w\<lparr>files := (files w)(abs_path w p \<mapsto> with_mode m f)\<rparr>)
         else (Exc (OSError p), w)))"

definition addperms :: "string \<Rightarrow> nat \<Rightarrow> unit tsi" where
  "addperms path mode =
     bnd (gets (\<lambda>w. files w (abs_path w path))) (\<lambda>f.
     bnd (of_opt (OSError path) f) (\<lambda>n.
     os_chmod path (or (st_mode (meta_of n)) mode)))"

section \<open>Running commands\<close>

definition bash_argv :: "string \<Rightarrow> bool \<Rightarrow> string list" where
  "bash_argv cmd login_shell =
     (if login_shell then [''/bin/bash'', ''-l'', ''-c'', cmd] else [''/bin/bash'', ''-c'', cmd])"

definition log_event :: "string list \<Rightarrow> bool \<Rightarrow> unit tsi" where
  "log_event argv bg =
     modify (\<lambda>w. w\<lparr>trace := trace w @ [\<lparr>ev_cred = cred w, ev_argv = argv, ev_background = bg\<rparr>]\<rparr>)"

text \<open>
  \<open>run_command(cmd, discard, child_pids, login_shell)\<close>; \<open>track\<close> says whether a list of child
  processes was passed. The result is the success flag and the output.
\<close>

definition run_command :: "sys \<Rightarrow> string \<Rightarrow> bool \<Rightarrow> bool \<Rightarrow> bool \<Rightarrow> (bool \<times> string) tsi" where
  "run_command S cmd discard track login_shell =
     (let cmds = bash_argv cmd login_shell in
      if \<not> discard then
        bnd (gets trace) (\<lambda>h.
        bnd (log_event cmds False) (\<lambda>_.
        (case execute S h cmds of Finished returncode output \<Rightarrow>
           (if returncode = 0 then ret (True, output)
            else ret (False, ''Command '' @ [CHR 0x27] @ cmd @ [CHR 0x27] @ '' failed with code ''
                       @ show_int returncode @ '': '' @ output)))))
      else
        bnd (gets trace) (\<lambda>h.
        bnd (log_event cmds True) (\<lambda>_.
        bnd (whenP track (modify (\<lambda>w. w\<lparr>child_pids := child_pids w @ [new_pid S h]\<rparr>))) (\<lambda>_.
        ret (True, []))))) "

section \<open>Certificate subjects\<close>

definition rdn_map :: "(string, string) dict" where
  "rdn_map = [(''C'', ''countryName''), (''CN'', ''commonName''), (''O'', ''organizationName''),
     (''OU'', ''organizationalUnitName''), (''L'', ''localityName''),
     (''ST'', ''stateOrProvinceName''), (''DC'', ''domainComponent'')]"

definition convert_rdn :: "string \<Rightarrow> exn + rdn option" where
  "convert_rdn r =
     (let parts = split_ch (CHR ''='') r in
      case map_of rdn_map (hd parts) of
        None \<Rightarrow> Inr None
      | Some translated \<Rightarrow>
          (case tl parts of [] \<Rightarrow> Inl IndexError | v # _ \<Rightarrow> Inr (Some (translated, v))))"

definition convert_dn :: "string \<Rightarrow> exn + dn" where
  "convert_dn d =
     smap convert_rdn (filter (\<lambda>e. e \<noteq> []) (map strip (split_ch (CHR '','') d)))"

text \<open>
  A subject is a tuple of tuples of pairs, as \<open>ssl.getpeercert()['subject']\<close> gives it. Comparing
  with an unknown name (\<open>None\<close>) subscripts \<open>None\<close>.
\<close>

type_synonym subject = "rdn list list"

fun match_attrs :: "rdn option \<Rightarrow> rdn list \<Rightarrow> exn + bool" where
  "match_attrs r [] = Inr False"
| "match_attrs None (y # ys) = Inl TypeError"
| "match_attrs (Some r) (y # ys) =
     (if fst y = fst r \<and> snd y = snd r then Inr True else match_attrs (Some r) ys)"

definition match_rdn :: "rdn option \<Rightarrow> subject \<Rightarrow> exn + bool" where
  "match_rdn r s = match_attrs r (concat s)"

fun match_dn :: "dn \<Rightarrow> subject \<Rightarrow> exn + bool" where
  "match_dn [] s = Inr True"
| "match_dn (r # d) s = sbind (match_rdn r s) (\<lambda>b. if b then match_dn d s else Inr False)"

fun check_access :: "subject \<Rightarrow> dn list \<Rightarrow> exn + bool" where
  "check_access s [] = Inr False"
| "check_access s (d # acl) = sbind (match_dn d s) (\<lambda>b. if b then Inr True else check_access s acl)"

section \<open>Frames\<close>

lemma frame_os_chmod:
  "(\<And>w x. p (w\<lparr>files := x\<rparr>) = p w) \<Longrightarrow> frame p (os_chmod q m)"
  by (simp add: frame_def os_chmod_def split: option.split)

lemma frame_addperms [frames]:
  "(\<And>w x. p (w\<lparr>files := x\<rparr>) = p w) \<Longrightarrow> frame p (addperms q m)"
  unfolding addperms_def by (intro frames frame_os_chmod)

lemma frame_log_event: "(\<And>w x. p (w\<lparr>trace := x\<rparr>) = p w) \<Longrightarrow> frame p (log_event a b)"
  unfolding log_event_def by (intro frame_modify)

lemma frame_case_exec [frames]:
  "(\<And>c s. frame p (f c s)) \<Longrightarrow> frame p (case r of Finished c s \<Rightarrow> f c s)"
  by (cases r) simp

lemma frame_run_command [frames]:
  "(\<And>w x. p (w\<lparr>trace := x\<rparr>) = p w) \<Longrightarrow> (\<And>w x. p (w\<lparr>child_pids := x\<rparr>) = p w)
    \<Longrightarrow> frame p (run_command S cmd d t l)"
  unfolding run_command_def Let_def
  by (intro frames frame_log_event frame_modify)

text \<open>Every command is logged with the credentials of the process that starts it.\<close>

lemma run_command_trace:
  "trace (snd (run_command S cmd d t l w)) =
     trace w @ [\<lparr>ev_cred = cred w, ev_argv = bash_argv cmd l, ev_background = d\<rparr>]"
  by (auto simp: run_command_def Let_def log_event_def run_simps split: exec_result.split)

lemma run_command_returns: "\<exists>r. fst (run_command S cmd d t l w) = Ret r"
  by (auto simp: run_command_def Let_def log_event_def run_simps split: exec_result.split)

section \<open>The parameter search on lines\<close>

text \<open>The complete lines of a message: those ended by a newline.\<close>

definition full_lines :: "string \<Rightarrow> string list" where
  "full_lines s = butlast (split_ch NL s)"

definition param_of_lines :: "string \<Rightarrow> string list \<Rightarrow> string option" where
  "param_of_lines key ls = map_option (drop (length key)) (find (\<lambda>l. startswith l key) ls)"

lemma split_ch_last: "\<exists>ls l. split_ch NL s = ls @ [l]"
  by (meson rev_exhaust split_ch_nonempty)

lemma full_lines_Cons: "NL \<notin> set a \<Longrightarrow> full_lines (a @ NL # b) = a # full_lines b"
  by (simp add: full_lines_def split_ch_append)

lemma full_lines_none: "NL \<notin> set a \<Longrightarrow> full_lines a = []"
  by (simp add: full_lines_def split_ch_none)

lemma full_lines_unlines:
  "list_all (\<lambda>l. NL \<notin> set l) ls \<Longrightarrow> full_lines (concat (map (\<lambda>l. l @ [NL]) ls) @ r) = ls @ full_lines r"
  by (induction ls) (auto simp: full_lines_Cons)

lemma startswith_line:
  "NL \<notin> set key \<Longrightarrow> startswith (a @ NL # b) key \<longleftrightarrow> startswith a key"
proof (induction key arbitrary: a)
  case Nil
  then show ?case by simp
next
  case (Cons k key)
  then show ?case by (cases a) auto
qed

lemma takeWhile_dot [simp]: "NL \<notin> set a \<Longrightarrow> takeWhile dot (a @ NL # b) = a"
  by (induction a) (auto simp: dot_def)

lemma dropWhile_dot [simp]: "NL \<notin> set a \<Longrightarrow> dropWhile dot (a @ NL # b) = NL # b"
  by (induction a) (auto simp: dot_def)

lemma dropWhile_dot_tail [simp]: "NL \<notin> set a \<Longrightarrow> dropWhile dot a = []"
  by (metis dot_def dropWhile_eq_Nil_conv)

lemma mt_star_end: "mt [star P] pre s cur caps = Some (caps, dropWhile P s)"
  by (rule mt_star_longest) simp

lemma dropWhile_dot_Cons: "dropWhile dot s = c # b \<Longrightarrow> c = NL"
  by (metis dot_def dropWhile_eq_Cons_conv)

lemma mt_line_value:
  "mt [star dot, Close, One (\<lambda>c. c = NL), star dot] pre s (Some []) [] =
    (case dropWhile dot s of [] \<Rightarrow> None | _ # b \<Rightarrow> Some ([takeWhile dot s], dropWhile dot b))"
proof -
  have eq: "mt [star dot, Close, One (\<lambda>c. c = NL), star dot] pre s (Some []) [] =
      mt [Close, One (\<lambda>c. c = NL), star dot] (rev (takeWhile dot s) @ pre) (dropWhile dot s)
        (map_option (\<lambda>x. x @ takeWhile dot s) (Some [])) []"
    by (rule mt_star_exact) (simp add: dot_def)
  show ?thesis
  proof (cases "dropWhile dot s")
    case Nil
    show ?thesis unfolding eq Nil by simp
  next
    case (Cons c b)
    moreover from Cons have "c = NL" by (rule dropWhile_dot_Cons)
    ultimately show ?thesis unfolding eq by (simp add: mt_star_end)
  qed
qed

definition param_key :: "string \<Rightarrow> string" where
  "param_key parameter = ''#TSI_'' @ parameter @ '' ''"

lemma mt_param:
  "mt (rx_param p) pre s cur [] =
    (if at_bol pre \<and> startswith s (param_key p)
     then (case dropWhile dot (drop (length (param_key p)) s) of
             [] \<Rightarrow> None
           | _ # b \<Rightarrow> Some ([takeWhile dot (drop (length (param_key p)) s)], dropWhile dot b))
     else None)"
  unfolding rx_param_def param_key_def [symmetric]
  by (simp add: mt_dots_bol mt_lit mt_line_value)

text \<open>Within a line nothing is found; the search moves on to the next line.\<close>

lemma search_param_rest:
  assumes "NL \<notin> set a" and "\<not> at_bol pre"
  shows "search_from (rx_param p) pre (a @ NL # s) = search_from (rx_param p) (NL # rev a @ pre) s"
  using assms
proof (induction a arbitrary: pre)
  case Nil
  then show ?case by (simp add: mt_param)
next
  case (Cons c a)
  then have "\<not> at_bol (c # pre)" by (auto simp: at_bol_def)
  with Cons show ?case by (simp add: mt_param)
qed

lemma search_param_end:
  assumes "NL \<notin> set a" and "\<not> at_bol pre"
  shows "search_from (rx_param p) pre a = None"
  using assms
proof (induction a arbitrary: pre)
  case Nil
  then show ?case by (simp add: mt_param)
next
  case (Cons c a)
  then have "\<not> at_bol (c # pre)" by (auto simp: at_bol_def)
  with Cons show ?case by (simp add: mt_param)
qed

lemma search_param_line:
  assumes a: "NL \<notin> set a" and p: "NL \<notin> set p" and pre: "at_bol pre"
  shows "search_from (rx_param p) pre (a @ NL # s) =
    (if startswith a (param_key p) then Some [drop (length (param_key p)) a]
     else search_from (rx_param p) (NL # rev a @ pre) s)"
proof (cases "startswith a (param_key p)")
  case True
  then obtain v where v: "a = param_key p @ v" by (auto simp: startswith_iff)
  with a have nv: "NL \<notin> set v" by simp
  have "mt (rx_param p) pre (a @ NL # s) None [] = Some ([v], dropWhile dot s)"
    using v nv pre by (simp add: mt_param)
  moreover obtain c r where "a @ NL # s = c # r" by (cases "a @ NL # s") auto
  ultimately show ?thesis using True v by simp
next
  case False
  have nk: "NL \<notin> set (param_key p)" using p by (simp add: param_key_def)
  have none: "mt (rx_param p) pre (a @ NL # s) None [] = None"
    using False nk by (simp add: mt_param startswith_line)
  show ?thesis
  proof (cases a)
    case Nil
    with none False show ?thesis by simp
  next
    case (Cons c a')
    with a have "\<not> at_bol (c # pre)" by (auto simp: at_bol_def)
    with Cons a none False show ?thesis by (simp add: search_param_rest)
  qed
qed

lemma search_param_last:
  assumes "NL \<notin> set a" and "at_bol pre"
  shows "search_from (rx_param p) pre a = None"
proof -
  have none: "mt (rx_param p) pre a None [] = None"
    using assms dropWhile_dot_tail [of "drop (length (param_key p)) a"]
    by (metis (no_types, lifting) in_set_dropD list.simps(4) mt_param)
  show ?thesis
  proof (cases a)
    case Nil
    with none show ?thesis by simp
  next
    case (Cons c a')
    with assms have "\<not> at_bol (c # pre)" "NL \<notin> set a'" by (auto simp: at_bol_def)
    with Cons none show ?thesis by (simp add: search_param_end)
  qed
qed

lemma line_cases:
  obtains (last) "NL \<notin> set s" | (line) a b where "s = a @ NL # b" and "NL \<notin> set a"
  by (metis split_list_first)

lemma search_param_lines:
  assumes "NL \<notin> set p" and "at_bol pre"
  shows "search_from (rx_param p) pre s =
    map_option (\<lambda>v. [v]) (param_of_lines (param_key p) (full_lines s))"
  using assms(2)
proof (induction s arbitrary: pre rule: length_induct)
  case (1 s)
  show ?case
  proof (cases s rule: line_cases)
    case last
    with 1 show ?thesis by (simp add: search_param_last full_lines_none param_of_lines_def)
  next
    case (line a b)
    have "search_from (rx_param p) (NL # rev a @ pre) b =
        map_option (\<lambda>v. [v]) (param_of_lines (param_key p) (full_lines b))"
      using "1.IH" line by (simp add: at_bol_def)
    with line 1 assms(1) show ?thesis
      by (simp add: search_param_line full_lines_Cons param_of_lines_def)
  qed
qed

text \<open>
  The search returns the value on the first complete line that starts with the parameter's tag; an
  empty value counts as absent, even when a later line has one.
\<close>

lemma extract_parameter_lines:
  assumes "NL \<notin> set p"
  shows "extract_parameter msg p d =
    (case param_of_lines (param_key p) (full_lines msg) of
       None \<Rightarrow> d
     | Some v \<Rightarrow> if v = [] then d else Some v)"
  using assms
  by (simp add: extract_parameter_def re_search_def search_param_lines at_bol_def split: option.split)

lemma param_of_lines_hit:
  assumes "list_all (\<lambda>l. \<not> startswith l key) ls"
  shows "param_of_lines key (ls @ (key @ v) # rs) = Some v"
  using assms by (induction ls) (auto simp: param_of_lines_def)

lemma param_of_lines_miss:
  "list_all (\<lambda>l. \<not> startswith l key) ls \<Longrightarrow> param_of_lines key ls = None"
  by (induction ls) (auto simp: param_of_lines_def)

lemma extract_parameter_no_NL:
  assumes "extract_parameter msg p None = Some v" and "NL \<notin> set p"
  shows "NL \<notin> set v"
proof -
  from assms obtain l where "l \<in> set (full_lines msg)" "v = drop (length (param_key p)) l"
    by (auto simp: extract_parameter_lines param_of_lines_def find_Some_iff split: option.splits if_splits)
      (metis nth_mem)
  moreover then have "NL \<notin> set l" by (metis full_lines_def in_set_butlastD split_ch_parts)
  ultimately show ?thesis by (metis in_set_dropD)
qed

section \<open>Properties\<close>

text \<open>A request as UNICORE/X composes it: one line per parameter.\<close>

definition param_line :: "string \<times> string \<Rightarrow> string" where
  "param_line kv = param_key (fst kv) @ snd kv"

definition request :: "(string \<times> string) list \<Rightarrow> string" where
  "request ps = concat (map (\<lambda>kv. param_line kv @ [NL]) ps)"

definition param_ok :: "string \<times> string \<Rightarrow> bool" where
  "param_ok kv \<longleftrightarrow> CHR '' '' \<notin> set (fst kv) \<and> NL \<notin> set (fst kv) \<and> NL \<notin> set (snd kv)"

lemma word_prefix: "CHR '' '' \<notin> set k \<Longrightarrow> CHR '' '' \<notin> set p \<Longrightarrow>
    startswith (k @ CHR '' '' # v) (p @ [CHR '' '']) \<longleftrightarrow> k = p"
proof (induction p arbitrary: k)
  case Nil
  then show ?case by (cases k) (auto simp: startswith_def)
next
  case (Cons c p)
  then show ?case by (cases k) auto
qed

lemma param_line_key:
  "param_ok kv \<Longrightarrow> CHR '' '' \<notin> set p \<Longrightarrow> startswith (param_line kv) (param_key p) \<longleftrightarrow> fst kv = p"
  by (simp add: param_line_def param_key_def param_ok_def word_prefix)

lemma request_lines:
  assumes "list_all param_ok ps"
  shows "full_lines (request ps) = map param_line ps"
proof -
  have "request ps = concat (map (\<lambda>l. l @ [NL]) (map param_line ps)) @ []"
    by (simp add: request_def comp_def)
  moreover have "list_all (\<lambda>l. NL \<notin> set l) (map param_line ps)"
    using assms by (auto simp: list_all_iff param_ok_def param_line_def param_key_def)
  ultimately show ?thesis by (simp only: full_lines_unlines) (simp add: full_lines_none)
qed

lemma param_of_request:
  "list_all param_ok ps \<Longrightarrow> CHR '' '' \<notin> set p \<Longrightarrow> param_of_lines (param_key p) (map param_line ps) = map_of ps p"
proof (induction ps)
  case Nil
  then show ?case by (simp add: param_of_lines_def)
next
  case (Cons kv ps)
  then show ?case
    by (cases kv) (auto simp: param_of_lines_def param_line_key, auto simp: param_line_def)
qed

lemma extract_parameter_request:
  assumes "list_all param_ok ps" and "CHR '' '' \<notin> set p" and "NL \<notin> set p"
  shows "extract_parameter (request ps) p d =
    (case map_of ps p of None \<Rightarrow> d | Some v \<Rightarrow> if v = [] then d else Some v)"
  using assms by (simp add: extract_parameter_lines request_lines param_of_request)

text \<open>
  Reading a request back. For a request composed of parameter lines, \<open>extract_parameter\<close> returns
  the value of the first line with that name; a missing or empty value gives the default.
\<close>

theorem extract_parameter_reads_request:
  assumes "list_all param_ok ps" and "CHR '' '' \<notin> set p" and "NL \<notin> set p"
  shows "extract_parameter (request ps) p d =
    (case map_of ps p of None \<Rightarrow> d | Some v \<Rightarrow> if v = [] then d else Some v)"
  using assms by (rule extract_parameter_request)

theorem extract_parameter_reads_request_witness:
  "extract_parameter (request [(''FILE'', ''/tmp/x y''), (''START'', ''0''), (''FILE'', ''other'')]) ''FILE'' None
     = Some ''/tmp/x y''"
  using extract_parameter_reads_request
    [of "[(''FILE'', ''/tmp/x y''), (''START'', ''0''), (''FILE'', ''other'')]" "''FILE''" None]
  by (simp add: param_ok_def)

text \<open>
  The regular expression search of \<open>extract_parameter\<close> is a scan of the complete lines of any
  message for the first one that begins with the parameter's tag.
\<close>

theorem extract_parameter_scans_lines:
  assumes "NL \<notin> set p"
  shows "extract_parameter msg p d =
    (case find (\<lambda>l. startswith l (''#TSI_'' @ p @ '' '')) (butlast (split_ch NL msg)) of
       None \<Rightarrow> d
     | Some l \<Rightarrow> if drop (length p + 6) l = [] then d else Some (drop (length p + 6) l))"
proof -
  have key: "''#TSI_'' @ p @ '' '' = param_key p" and len: "length p + 6 = length (param_key p)"
    by (simp_all add: param_key_def)
  show ?thesis using assms unfolding key len
    by (simp add: extract_parameter_lines param_of_lines_def full_lines_def split: option.split)
qed

theorem extract_parameter_scans_lines_witness:
  "extract_parameter (''#TSI_A x'' @ [NL] @ ''#TSI_AB y'' @ [NL] @ ''#TSI_B z'') ''B'' None = None"
proof -
  have "split_ch NL (''#TSI_A x'' @ [NL] @ ''#TSI_AB y'' @ [NL] @ ''#TSI_B z'') =
      [''#TSI_A x'', ''#TSI_AB y'', ''#TSI_B z'']" by code_simp
  with extract_parameter_scans_lines [of "''B''"] show ?thesis by simp
qed

text \<open>
  An integer of at most 53 bits written into a request is read back exactly by \<open>extract_number\<close>,
  although the code converts it through a floating point number.
\<close>

theorem extract_number_reads_request:
  assumes "list_all param_ok ps" and "CHR '' '' \<notin> set p" and "NL \<notin> set p"
    and "map_of ps p = Some (show_int i)" and "\<bar>i\<bar> < 2 ^ 53"
  shows "extract_number (request ps) p = i"
  using assms by (simp add: extract_number_def extract_parameter_request int_of_float_text_show)

theorem extract_number_reads_request_witness:
  "extract_number (request [(''LENGTH'', ''4503599627370497'')]) ''LENGTH'' = 4503599627370497"
proof -
  have "show_int 4503599627370497 = ''4503599627370497''"
    by (simp add: show_int_def show_nat.simps digit_char_def char_of_def bit_Suc_0_iff)
  with extract_number_reads_request [of "[(''LENGTH'', ''4503599627370497'')]" "''LENGTH''" 4503599627370497]
  show ?thesis by (simp add: param_ok_def)
qed

section \<open>Access control\<close>

lemma match_attrs_Some: "match_attrs (Some r) ys = Inr (r \<in> set ys)"
  by (induction ys) (auto simp: prod_eq_iff)

lemma match_dn_known:
  "None \<notin> set d \<Longrightarrow> match_dn d s = Inr (the ` set d \<subseteq> \<Union> (set ` set s))"
proof (induction d)
  case (Cons r d)
  then obtain x where "r = Some x" by (cases r) auto
  with Cons show ?case by (auto simp: match_rdn_def match_attrs_Some)
qed simp

text \<open>
  C32: With names made of known attributes only, a certificate subject is accepted exactly when some
  entry of the access list has all its attributes in the subject. In particular an empty list accepts
  nobody, and an empty entry accepts everybody.
\<close>

theorem check_access_iff:
  assumes "\<forall>d \<in> set acl. None \<notin> set d"
  shows "check_access s acl = Inr (\<exists>d \<in> set acl. \<forall>r \<in> set d. \<exists>attrs \<in> set s. the r \<in> set attrs)"
  using assms
proof (induction acl)
  case (Cons d acl)
  then show ?case by (auto simp: match_dn_known)
qed simp

theorem check_access_iff_witness:
  "check_access [[(''commonName'', ''unicorex'')], [(''countryName'', ''DE'')]]
     [[Some (''commonName'', ''other'')], [Some (''countryName'', ''DE''), Some (''commonName'', ''unicorex'')]] = Inr True"
  using check_access_iff [of "[[Some (''commonName'', ''other'')],
      [Some (''countryName'', ''DE''), Some (''commonName'', ''unicorex'')]]"
      "[[(''commonName'', ''unicorex'')], [(''countryName'', ''DE'')]]"]
  by simp

text \<open>
  An entry of the access list whose first attribute is not one of the seven known ones (an e-mail
  address, for example) makes the check of every non-empty subject raise a \<open>TypeError\<close>.
\<close>

theorem check_access_unknown_attribute:
  assumes "map_of rdn_map (hd (split_ch (CHR ''='') (hd els))) = None"
    and "filter (\<lambda>e. e \<noteq> []) (map strip (split_ch (CHR '','') dn)) = els" and "els \<noteq> []"
    and "convert_dn dn = Inr d" and "concat s \<noteq> []"
  shows "check_access s (d # acl) = Inl TypeError"
proof -
  from assms obtain e es where els: "els = e # es" by (cases els) auto
  with assms have "convert_rdn e = Inr None" by (simp add: convert_rdn_def Let_def)
  with assms els obtain d' where "d = None # d'"
    by (auto simp: convert_dn_def sbind_def split: sum.splits)
  moreover have "match_attrs None (concat s) = Inl TypeError" using assms by (cases "concat s") auto
  ultimately show ?thesis by (simp add: match_rdn_def)
qed

theorem check_access_unknown_attribute_witness:
  "\<exists>d. convert_dn ''EMAIL=a@b, CN=x'' = Inr d \<and>
     check_access [[(''commonName'', ''x'')]] [d] = Inl TypeError"
proof -
  have c: "convert_dn ''EMAIL=a@b, CN=x'' = Inr [None, Some (''commonName'', ''x'')]" by code_simp
  have f: "filter (\<lambda>e. e \<noteq> []) (map strip (split_ch (CHR '','') ''EMAIL=a@b, CN=x'')) = [''EMAIL=a@b'', ''CN=x'']"
    by code_simp
  have "map_of rdn_map (hd (split_ch (CHR ''='') (hd [''EMAIL=a@b'', ''CN=x'']))) = None" by code_simp
  from check_access_unknown_attribute [OF this f _ c] c show ?thesis by simp
qed

end
