(* ===== verification/Connector.thy ===== *)
theory Connector
  imports Utils
begin

text \<open>
  \<open>lib/Connector.py\<close>, class \<open>Connector\<close>: the control and data channels between a TSI worker and
  the UNICORE/X server. \<open>ctl_in\<close> and \<open>dat_in\<close> hold everything the peer sends until it closes
  the connection (the control channel as text, with newlines already translated), \<open>ctl_out\<close> and
  \<open>dat_out\<close> everything the worker has written. Also \<open>Utils.run_and_report\<close>, which replies
  through a connector, and the shape of the replies: an error reply is always exactly one line.
\<close>

section \<open>Writing\<close>

definition write_message :: "string option \<Rightarrow> unit tsi" where
  "write_message message =
     (case message of
        None \<Rightarrow> ret ()
      | Some m \<Rightarrow> modify (\<lambda>w. w\<lparr>ctl_out := ctl_out w @ m @ [NL]\<rparr>))"

definition failed :: "string option \<Rightarrow> unit tsi" where
  "failed message =
     (let msg = ''TSI_FAILED: '' in
      case message of
        None \<Rightarrow> write_message (Some msg)
      | Some m \<Rightarrow> write_message (Some (msg @ replace [NL] '':'' m)))"

definition ok :: "string option \<Rightarrow> unit tsi" where
  "ok message =
     (let msg = ''TSI_OK'' in
      case message of
        None \<Rightarrow> write_message (Some msg)
      | Some m \<Rightarrow> write_message (Some (msg @ [NL] @ m)))"

definition write_data :: "string \<Rightarrow> nat tsi" where
  "write_data data =
     bnd (modify (\<lambda>w. w\<lparr>dat_out := dat_out w @ data\<rparr>)) (\<lambda>_. ret (length data))"

section \<open>Reading\<close>

text \<open>
  Lines are appended until one is the terminator; an empty line read means the peer has closed the
  connection. The result is the message or the exception, and what is left of the stream.
\<close>

function read_lines :: "string \<Rightarrow> string \<Rightarrow> (exn + string) \<times> string" where
  "read_lines message s =
     (let line = fst (readline s); rest = snd (readline s)
      in if length line = 0 then (Inl (OSError ''Socket closed''), rest)
         else if line = ''ENDOFMESSAGE'' @ [NL] then (Inr message, rest)
         else read_lines (message @ line) rest)"
  by pat_completeness auto
termination
  by (relation "measure (\<lambda>(m, s). length s)")
    (auto simp: readline_empty_iff intro!: readline_shorter)

declare read_lines.simps [simp del]

definition read_message :: "string tsi" where
  "read_message = (\<lambda>w. case read_lines [] (ctl_in w) of
      (Inl e, rest) \<Rightarrow> (Exc e, w\<lparr>ctl_in := rest\<rparr>)
    | (Inr m, rest) \<Rightarrow> (Ret m, w\<lparr>ctl_in := rest\<rparr>))"

definition buf_size :: nat where
  "buf_size = 32768"

text \<open>A buffered read returns as many bytes as asked for, fewer only when the peer has closed.\<close>

definition read_data :: "nat \<Rightarrow> string tsi" where
  "read_data maxlen = (\<lambda>w.
     let limit = min maxlen buf_size
     in (Ret (take limit (dat_in w)), w\<lparr>dat_in := drop limit (dat_in w)\<rparr>))"

section \<open>Running a command and reporting its outcome\<close>

definition run_and_report :: "sys \<Rightarrow> string \<Rightarrow> bool \<Rightarrow> unit tsi" where
  "run_and_report S cmd login_shell =
     bnd (run_command S cmd False False login_shell) (\<lambda>(success, output).
     if \<not> success then failed (Some output) else ok (Some output))"

section \<open>Equations and frames\<close>

lemma write_message_run [run_simps]:
  "write_message (Some m) w = (Ret (), w\<lparr>ctl_out := ctl_out w @ m @ [NL]\<rparr>)"
  by (simp add: write_message_def run_simps)

lemma failed_run [run_simps]:
  "failed (Some m) w =
    (Ret (), w\<lparr>ctl_out := ctl_out w @ ''TSI_FAILED: '' @ map (\<lambda>c. if c = NL then CHR '':'' else c) m @ [NL]\<rparr>)"
  by (simp add: failed_def run_simps replace_char)

lemma ok_run [run_simps]:
  "ok (Some m) w = (Ret (), w\<lparr>ctl_out := ctl_out w @ ''TSI_OK'' @ [NL] @ m @ [NL]\<rparr>)"
  "ok None w = (Ret (), w\<lparr>ctl_out := ctl_out w @ ''TSI_OK'' @ [NL]\<rparr>)"
  by (simp_all add: ok_def run_simps)

lemma frame_write_message [frames]:
  "(\<And>w x. p (w\<lparr>ctl_out := x\<rparr>) = p w) \<Longrightarrow> frame p (write_message m)"
  unfolding write_message_def by (intro frames frame_modify)

lemma frame_failed [frames]: "(\<And>w x. p (w\<lparr>ctl_out := x\<rparr>) = p w) \<Longrightarrow> frame p (failed m)"
  unfolding failed_def by (intro frames)

lemma frame_ok [frames]: "(\<And>w x. p (w\<lparr>ctl_out := x\<rparr>) = p w) \<Longrightarrow> frame p (ok m)"
  unfolding ok_def by (intro frames)

lemma frame_write_data [frames]:
  "(\<And>w x. p (w\<lparr>dat_out := x\<rparr>) = p w) \<Longrightarrow> frame p (write_data d)"
  unfolding write_data_def by (intro frames frame_modify)

lemma frame_read_message [frames]:
  "(\<And>w x. p (w\<lparr>ctl_in := x\<rparr>) = p w) \<Longrightarrow> frame p read_message"
  by (simp add: frame_def read_message_def split: prod.split sum.split)

lemma frame_read_data [frames]:
  "(\<And>w x. p (w\<lparr>dat_in := x\<rparr>) = p w) \<Longrightarrow> frame p (read_data n)"
  by (simp add: frame_def read_data_def Let_def)

lemma frame_run_and_report [frames]:
  "(\<And>w x. p (w\<lparr>trace := x\<rparr>) = p w) \<Longrightarrow> (\<And>w x. p (w\<lparr>child_pids := x\<rparr>) = p w)
    \<Longrightarrow> (\<And>w x. p (w\<lparr>ctl_out := x\<rparr>) = p w) \<Longrightarrow> frame p (run_and_report S c l)"
  unfolding run_and_report_def by (intro frames)

section \<open>Replies\<close>

text \<open>
  What a client sees of a reply: an error is the one line \<open>TSI_FAILED: ...\<close>, a success starts with
  the line \<open>TSI_OK\<close>.
\<close>

definition ok_reply :: "string \<Rightarrow> bool" where
  "ok_reply r \<longleftrightarrow> startswith r (''TSI_OK'' @ [NL])"

definition failed_reply :: "string \<Rightarrow> bool" where
  "failed_reply r \<longleftrightarrow> (\<exists>m. r = ''TSI_FAILED: '' @ m @ [NL] \<and> NL \<notin> set m)"

definition replies :: "string \<Rightarrow> bool" where
  "replies r \<longleftrightarrow> ok_reply r \<or> failed_reply r"

text \<open>\<open>emits w m P\<close>: the program returns normally after adding output that satisfies \<open>P\<close>.\<close>

definition written :: "world \<Rightarrow> world \<Rightarrow> string" where
  "written w w' = drop (length (ctl_out w)) (ctl_out w')"

lemma failed_reply_failed: "failed_reply (written w (snd (failed m w)))"
proof (cases m)
  case None
  then show ?thesis
    by (auto simp: written_def failed_def failed_reply_def run_simps)
next
  case (Some t)
  then show ?thesis
    by (auto simp: written_def failed_reply_def run_simps)
qed

lemma ok_reply_ok: "ok_reply (written w (snd (ok m w)))"
  by (cases m) (simp_all add: written_def ok_reply_def run_simps startswith_def)

lemma replies_failed: "replies (written w (snd (failed m w)))"
  by (simp add: replies_def failed_reply_failed)

lemma replies_ok: "replies (written w (snd (ok m w)))"
  by (simp add: replies_def ok_reply_ok)

section \<open>Framing of messages\<close>

lemma read_lines_line:
  assumes "NL \<notin> set l" and "l \<noteq> ''ENDOFMESSAGE''"
  shows "read_lines m (l @ NL # r) = read_lines (m @ l @ [NL]) r"
  using assms by (subst read_lines.simps) (auto simp: Let_def)

lemma read_lines_end: "read_lines m (''ENDOFMESSAGE'' @ NL # r) = (Inr m, r)"
  by (subst read_lines.simps) (subst readline_append, simp, subst readline_append, simp, simp add: Let_def)

lemma read_lines_message:
  assumes "list_all (\<lambda>l. NL \<notin> set l \<and> l \<noteq> ''ENDOFMESSAGE'') ls"
  shows "read_lines m (concat (map (\<lambda>l. l @ [NL]) ls) @ r) =
    read_lines (m @ concat (map (\<lambda>l. l @ [NL]) ls)) r"
  using assms by (induction ls arbitrary: m) (auto simp: read_lines_line)

lemma read_lines_closed:
  assumes "NL \<notin> set l"
  shows "read_lines m l = (Inl (OSError ''Socket closed''), [])"
proof (cases "l = []")
  case True
  then show ?thesis by (subst read_lines.simps) (simp add: readline_def Let_def)
next
  case False
  have rl: "readline l = (l, [])" using assms by (rule readline_no_NL)
  have ne: "l \<noteq> ''ENDOFMESSAGE'' @ [NL]" using assms by auto
  have "read_lines m l = read_lines (m @ l) []"
    by (subst read_lines.simps) (use rl False ne in \<open>simp add: Let_def\<close>)
  also have "\<dots> = (Inl (OSError ''Socket closed''), [])"
    by (subst read_lines.simps) (simp add: readline_def Let_def)
  finally show ?thesis .
qed

section \<open>Properties\<close>

text \<open>
  C30: A message sent as lines followed by the line \<open>ENDOFMESSAGE\<close> is read back exactly, and the
  reader stops there: what the peer sends next is left on the channel.
\<close>

theorem read_message_framing:
  assumes "list_all (\<lambda>l. NL \<notin> set l \<and> l \<noteq> ''ENDOFMESSAGE'') ls"
    and "ctl_in w = concat (map (\<lambda>l. l @ [NL]) ls) @ ''ENDOFMESSAGE'' @ NL # rest"
  shows "read_message w = (Ret (concat (map (\<lambda>l. l @ [NL]) ls)), w\<lparr>ctl_in := rest\<rparr>)"
  using assms by (simp add: read_message_def read_lines_message read_lines_end del: append.simps)

theorem read_message_framing_witness:
  "\<forall>w. read_message (w\<lparr>ctl_in := ''#TSI_LS'' @ [NL] @ ''ENDOFMESSAGE'' @ NL # ''more''\<rparr>) =
     (Ret (''#TSI_LS'' @ [NL]), w\<lparr>ctl_in := ''more''\<rparr>)"
proof
  fix w :: world
  show "read_message (w\<lparr>ctl_in := ''#TSI_LS'' @ [NL] @ ''ENDOFMESSAGE'' @ NL # ''more''\<rparr>) =
     (Ret (''#TSI_LS'' @ [NL]), w\<lparr>ctl_in := ''more''\<rparr>)"
    using read_message_framing [of "[''#TSI_LS'']" "w\<lparr>ctl_in := ''#TSI_LS'' @ [NL] @ ''ENDOFMESSAGE'' @ NL # ''more''\<rparr>" "''more''"]
    by simp
qed

text \<open>
  When the peer closes the connection before the line \<open>ENDOFMESSAGE\<close>, the reader does not wait
  forever and returns no partial message: it raises the error "Socket closed".
\<close>

theorem read_message_closed:
  assumes "list_all (\<lambda>l. l \<noteq> ''ENDOFMESSAGE'') (butlast (split_ch NL (ctl_in w)))"
  shows "fst (read_message w) = Exc (OSError ''Socket closed'')"
proof -
  obtain ls l where s: "split_ch NL (ctl_in w) = ls @ [l]" using split_ch_last by blast
  have parts: "\<forall>x \<in> set (ls @ [l]). NL \<notin> set x" using s split_ch_parts by metis
  have j: "join [NL] (xs @ [y]) = concat (map (\<lambda>l. l @ [NL]) xs) @ y" for xs y
    by (induction xs) (auto simp: join_Cons)
  have "ctl_in w = concat (map (\<lambda>l. l @ [NL]) ls) @ l"
    using join_split_ch [of NL "ctl_in w"] s j by simp
  moreover have "list_all (\<lambda>l. NL \<notin> set l \<and> l \<noteq> ''ENDOFMESSAGE'') ls"
    using assms s parts by (auto simp: list_all_iff)
  moreover have "NL \<notin> set l" using parts by simp
  ultimately show ?thesis by (simp add: read_message_def read_lines_message read_lines_closed)
qed

theorem read_message_closed_witness:
  "\<forall>w. fst (read_message (w\<lparr>ctl_in := ''#TSI_LS'' @ [NL] @ ''ENDOFMESSAGE''\<rparr>)) = Exc (OSError ''Socket closed'')"
proof
  fix w :: world
  have "split_ch NL (''#TSI_LS'' @ [NL] @ ''ENDOFMESSAGE'') = [''#TSI_LS'', ''ENDOFMESSAGE'']" by code_simp
  with read_message_closed [of "w\<lparr>ctl_in := ''#TSI_LS'' @ [NL] @ ''ENDOFMESSAGE''\<rparr>"]
  show "fst (read_message (w\<lparr>ctl_in := ''#TSI_LS'' @ [NL] @ ''ENDOFMESSAGE''\<rparr>)) = Exc (OSError ''Socket closed'')"
    by simp
qed

text \<open>
  An error reply is always the single line \<open>TSI_FAILED: ...\<close>, whatever the error message
  contains, and a success reply always begins with the line \<open>TSI_OK\<close>: the two cannot be confused.
\<close>

theorem replies_are_framed:
  "failed_reply (written w (snd (failed m w))) \<and> \<not> ok_reply (written w (snd (failed m w))) \<and>
   ok_reply (written w (snd (ok m' w))) \<and> \<not> failed_reply (written w (snd (ok m' w)))"
proof -
  have "\<not> ok_reply r" if "failed_reply r" for r
    using that by (auto simp: failed_reply_def ok_reply_def)
  then show ?thesis using failed_reply_failed ok_reply_ok by blast
qed

end
