(* ===== verification/Base64.thy ===== *)
theory Base64
  imports PyStr
begin

text \<open>
  The standard library's \<open>base64.b64encode\<close> and \<open>b64decode\<close>, which the stream connector uses for data
  chunks. A byte is a character of code below 256. The decoder works as \<open>binascii.a2b_base64\<close> does: it
  skips characters outside the alphabet, stops at the padding of a full group, and fails when the text
  ends within a group. The main fact is that decoding what was encoded gives the data back.
\<close>

definition b64_alphabet :: string where
  "b64_alphabet = ''ABCDEFGHIJKLMNOPQRSTUVWXYZabcdefghijklmnopqrstuvwxyz0123456789+/''"

definition b64_char :: "nat \<Rightarrow> char" where
  "b64_char i = b64_alphabet ! i"

definition b64_val :: "char \<Rightarrow> nat option" where
  "b64_val c = (let i = length (takeWhile (\<lambda>x. x \<noteq> c) b64_alphabet) in if i < 64 then Some i else None)"

fun b64_encode :: "nat list \<Rightarrow> string" where
  "b64_encode [] = []"
| "b64_encode [a] = [b64_char (a div 4), b64_char (a mod 4 * 16), CHR ''='', CHR ''='']"
| "b64_encode [a, b] = [b64_char (a div 4), b64_char (a mod 4 * 16 + b div 16), b64_char (b mod 16 * 4), CHR ''='']"
| "b64_encode (a # b # c # r) =
     [b64_char (a div 4), b64_char (a mod 4 * 16 + b div 16), b64_char (b mod 16 * 4 + c div 64), b64_char (c mod 64)]
     @ b64_encode r"

text \<open>The position in the group of four, the bits left over, and the padding characters seen.\<close>

fun b64_decode :: "nat \<Rightarrow> nat \<Rightarrow> nat \<Rightarrow> string \<Rightarrow> nat list option" where
  "b64_decode quad left pads [] = (if quad = 0 then Some [] else None)"
| "b64_decode quad left pads (c # s) =
     (if c = CHR ''='' then
        (if quad < 2 then b64_decode quad left pads s
         else if quad + (pads + 1) \<ge> 4 then Some []
         else b64_decode quad left (pads + 1) s)
      else
        (case b64_val c of
           None \<Rightarrow> b64_decode quad left pads s
         | Some v \<Rightarrow>
             (if quad = 0 then b64_decode 1 v 0 s
              else if quad = 1 then map_option ((#) (left * 4 + v div 16)) (b64_decode 2 (v mod 16) 0 s)
              else if quad = 2 then map_option ((#) (left * 16 + v div 4)) (b64_decode 3 (v mod 4) 0 s)
              else map_option ((#) (left * 64 + v)) (b64_decode 0 0 0 s))))"

definition b64encode :: "string \<Rightarrow> string" where
  "b64encode data = b64_encode (map code data)"

text \<open>\<open>None\<close> is the \<open>ValueError\<close>, also for a text that is not ASCII.\<close>

definition b64decode :: "string \<Rightarrow> string option" where
  "b64decode s =
     (if list_all (\<lambda>c. code c < 128) s then map_option (map char_of) (b64_decode 0 0 0 s) else None)"

section \<open>The alphabet\<close>

lemma alphabet_table:
  "list_all (\<lambda>i. b64_val (b64_char i) = Some i \<and> b64_char i \<noteq> CHR ''='' \<and> b64_char i \<noteq> CHR ''-'' \<and> \<not> is_space (b64_char i)
     \<and> code (b64_char i) < 128) [0..<64]"
  by code_simp

lemma b64_char_facts:
  assumes "i < 64"
  shows "b64_val (b64_char i) = Some i" "b64_char i \<noteq> CHR ''=''" "b64_char i \<noteq> CHR ''-''"
    "\<not> is_space (b64_char i)" "code (b64_char i) < 128"
  using alphabet_table assms by (auto simp: list_all_iff)

definition b64_text :: "char \<Rightarrow> bool" where
  "b64_text c \<longleftrightarrow> \<not> is_space c \<and> c \<noteq> CHR ''-'' \<and> code c < 128"

lemma sextets:
  assumes "a < 256" "b < 256" "(c::nat) < 256"
  shows "a div 4 < 64" "a mod 4 * 16 < 64" "a mod 4 * 16 + b div 16 < 64" "b mod 16 * 4 < 64"
    "b mod 16 * 4 + c div 64 < 64" "c mod 64 < 64"
proof -
  have "a mod 4 \<le> 3" "b div 16 \<le> 15" "b mod 16 \<le> 15" "c div 64 \<le> 3" using assms by auto
  then show "a mod 4 * 16 < 64" "a mod 4 * 16 + b div 16 < 64" "b mod 16 * 4 < 64" "b mod 16 * 4 + c div 64 < 64"
    by linarith+
qed (use assms in auto)

lemma code_bound: "code c < 256"
  by (simp add: code_def)

lemma b64_text_char: "i < 64 \<Longrightarrow> b64_text (b64_char i)" "b64_text (CHR ''='')"
  by (simp add: b64_text_def b64_char_facts) (simp add: b64_text_def is_space_def code_def)

lemma encode_text: "\<forall>x \<in> set d. x < 256 \<Longrightarrow> \<forall>c \<in> set (b64_encode d). b64_text c"
proof (induction d rule: b64_encode.induct)
  case (2 a)
  then show ?case using sextets [of a 0 0] by (simp add: b64_text_char)
next
  case (3 a b)
  then show ?case using sextets [of a b 0] by (simp add: b64_text_char)
next
  case (4 a b c r)
  then show ?case using sextets [of a b c] by (auto simp: b64_text_char)
qed simp

section \<open>Decoding what was encoded\<close>

lemma decode_char:
  assumes "i < 64"
  shows "b64_decode 0 l p (b64_char i # s) = b64_decode 1 i 0 s"
    "b64_decode 1 l p (b64_char i # s) = map_option ((#) (l * 4 + i div 16)) (b64_decode 2 (i mod 16) 0 s)"
    "b64_decode (Suc 0) l p (b64_char i # s) = map_option ((#) (l * 4 + i div 16)) (b64_decode 2 (i mod 16) 0 s)"
    "b64_decode 2 l p (b64_char i # s) = map_option ((#) (l * 16 + i div 4)) (b64_decode 3 (i mod 4) 0 s)"
    "b64_decode 3 l p (b64_char i # s) = map_option ((#) (l * 64 + i)) (b64_decode 0 0 0 s)"
  using b64_char_facts [OF assms] by simp_all

lemma decode_pad:
  "b64_decode 2 l 0 (CHR ''='' # CHR ''='' # s) = Some []" "b64_decode 3 l 0 (CHR ''='' # s) = Some []"
  by simp_all

lemma decode_newline: "b64_decode 0 l p [NL] = Some []"
proof -
  have "b64_val NL = None" by code_simp
  then show ?thesis by simp
qed

declare b64_decode.simps(2) [simp del]

lemma digit_split: "q < n \<Longrightarrow> (x * n + q) div n = x" "q < n \<Longrightarrow> (x * n + q) mod n = (q::nat)"
  by simp_all

lemma bytes_back:
  assumes "a < 256" "b < 256" "(c::nat) < 256"
  shows "a div 4 * 4 + (a mod 4 * 16 + b div 16) div 16 = a" "a div 4 * 4 + (a mod 4 * 16) div 16 = a"
    "(a mod 4 * 16 + b div 16) mod 16 * 16 + (b mod 16 * 4 + c div 64) div 4 = b"
    "(a mod 4 * 16 + b div 16) mod 16 * 16 + (b mod 16 * 4) div 4 = b"
    "(b mod 16 * 4 + c div 64) mod 4 * 64 + c mod 64 = c"
proof -
  have "b div 16 < 16" "c div 64 < 4" using assms by auto
  then show "a div 4 * 4 + (a mod 4 * 16 + b div 16) div 16 = a"
    "(a mod 4 * 16 + b div 16) mod 16 * 16 + (b mod 16 * 4 + c div 64) div 4 = b"
    "(a mod 4 * 16 + b div 16) mod 16 * 16 + (b mod 16 * 4) div 4 = b"
    "(b mod 16 * 4 + c div 64) mod 4 * 64 + c mod 64 = c"
    by (simp_all only: digit_split div_mult_mod_eq nonzero_mult_div_cancel_right)
  show "a div 4 * 4 + (a mod 4 * 16) div 16 = a" by simp
qed

lemma decode_encode:
  "\<forall>x \<in> set d. x < 256 \<Longrightarrow> b64_decode 0 l p (b64_encode d @ [NL]) = Some d"
proof (induction d arbitrary: l p rule: b64_encode.induct)
  case 1
  show ?case by (simp add: decode_newline)
next
  case (2 a)
  then show ?case using sextets [of a 0 0] bytes_back [of a 0 0] by (simp add: decode_char decode_pad)
next
  case (3 a b)
  then show ?case using sextets [of a b 0] bytes_back [of a b 0] by (simp add: decode_char decode_pad)
next
  case (4 a b c r)
  then have r: "a < 256" "b < 256" "c < 256" "b64_decode 0 0 0 (b64_encode r @ [NL]) = Some r" by auto
  then show ?case using sextets [of a b c] bytes_back [of a b c] by (simp add: decode_char)
qed

lemma b64_round_trip: "b64decode (b64encode data @ [NL]) = Some data"
proof -
  have b: "\<forall>x \<in> set (map code data). x < 256" by (simp add: code_bound)
  have "list_all (\<lambda>c. code c < 128) (b64encode data @ [NL])"
    using encode_text [OF b] by (auto simp: b64encode_def b64_text_def list_all_iff code_def)
  moreover have "map char_of (map code data) = data" by (simp add: code_def o_def)
  ultimately show ?thesis using decode_encode [OF b, of 0 0] by (simp add: b64decode_def b64encode_def)
qed

end
