(* ===== verification/Streams.thy ===== *)
theory Streams
  imports Connector Base64
begin

text \<open>
  Class \<open>StreamConnector\<close> of \<open>lib/Connector.py\<close>: a request is read from standard input and answered on
  standard output; data chunks travel on the same streams as base64 text. Standard input is the field
  \<open>ctl_in\<close> of the process and standard output \<open>ctl_out\<close>. The interface that a handler uses for its
  replies is a locale, with an interpretation for each of the two connectors; the operations that differ
  between them are chosen by the class of the connector at the end of the theory.
\<close>

section \<open>The stream connector\<close>

text \<open>Lines are taken from the stream up to one that is the terminator when stripped, or to its end.\<close>

function stream_lines :: "string \<Rightarrow> string \<Rightarrow> string \<Rightarrow> string \<times> string" where
  "stream_lines termination message s =
     (if s = [] then (message, [])
      else let line = fst (readline s); rest = snd (readline s)
           in if strip line = termination then (message, rest)
              else stream_lines termination (message @ line) rest)"
  by pat_completeness auto
termination
  by (relation "measure (\<lambda>(t, m, s). length s)") (auto intro!: readline_shorter)

declare stream_lines.simps [simp del]

definition stream_read_message :: "string \<Rightarrow> string tsi" where
  "stream_read_message termination = (\<lambda>w.
     let (m, rest) = stream_lines termination [] (ctl_in w) in (Ret m, w\<lparr>ctl_in := rest\<rparr>))"

definition stream_write_message :: "string option \<Rightarrow> unit tsi" where
  "stream_write_message message =
     (case message of
        None \<Rightarrow> ret ()
      | Some m \<Rightarrow>
          bnd (modify (\<lambda>w. w\<lparr>ctl_out := ctl_out w @ m\<rparr>)) (\<lambda>_.
          modify (\<lambda>w. w\<lparr>ctl_out := ctl_out w @ [NL]\<rparr>)))"

definition stream_failed :: "string option \<Rightarrow> unit tsi" where
  "stream_failed message =
     (case message of
        None \<Rightarrow> throw AttributeError
      | Some m \<Rightarrow> stream_write_message (Some (''TSI_FAILED: '' @ replace [NL] '':'' m)))"

definition stream_ok :: "string option \<Rightarrow> unit tsi" where
  "stream_ok message =
     bnd (stream_write_message (Some ''TSI_OK'')) (\<lambda>_.
     whenP (message \<noteq> None) (stream_write_message message))"

definition stream_read_data :: "nat \<Rightarrow> string tsi" where
  "stream_read_data maxlen =
     bnd (stream_read_message ''---END DATA---'') (\<lambda>msg.
     case split_once NL msg of
       (header, None) \<Rightarrow> throw ValueError
     | (header, Some msg) \<Rightarrow>
         (if \<not> startswith header ''---BEGIN DATA BASE64'' then throw ValueError
          else of_opt ValueError (b64decode msg)))"

definition stream_write_data :: "string \<Rightarrow> nat tsi" where
  "stream_write_data data =
     bnd (stream_write_message (Some ''---BEGIN DATA BASE64---'')) (\<lambda>_.
     bnd (stream_write_message (Some (b64encode data))) (\<lambda>_.
     bnd (stream_write_message (Some ''---END DATA---'')) (\<lambda>_.
     ret (length data))))"

section \<open>Replies through either connector\<close>

text \<open>What a handler may assume of the connector it replies through.\<close>

locale reply_channel =
  fixes send :: "string option \<Rightarrow> unit tsi"
    and send_ok :: "string option \<Rightarrow> unit tsi"
    and send_failed :: "string option \<Rightarrow> unit tsi"
  assumes send_some: "send (Some m) w = (Ret (), w\<lparr>ctl_out := ctl_out w @ m @ [NL]\<rparr>)"
    and send_none: "send None w = (Ret (), w)"
    and ok_some: "send_ok (Some m) = send (Some (''TSI_OK'' @ [NL] @ m))"
    and ok_none: "send_ok None = send (Some ''TSI_OK'')"
    and failed_some: "send_failed (Some m) = send (Some (''TSI_FAILED: '' @ replace [NL] '':'' m))"
begin

lemma ok_is_framed: "ok_reply (written w (snd (send_ok m w)))"
  by (cases m) (simp_all add: ok_some ok_none send_some written_def ok_reply_def startswith_def)

lemma failed_is_framed: "failed_reply (written w (snd (send_failed (Some m) w)))"
proof -
  have "written w (snd (send_failed (Some m) w)) = ''TSI_FAILED: '' @ replace [NL] '':'' m @ [NL]"
    by (simp add: failed_some send_some written_def)
  moreover have "NL \<notin> set (replace [NL] '':'' m)" by (auto simp: replace_char)
  ultimately show ?thesis unfolding failed_reply_def by blast
qed

lemma only_output:
  "\<exists>out. send_ok m w = (Ret (), w\<lparr>ctl_out := ctl_out w @ out\<rparr>)"
  "\<exists>out. send_failed (Some x) w = (Ret (), w\<lparr>ctl_out := ctl_out w @ out\<rparr>)"
  by (cases m; auto simp: ok_some ok_none send_some) (auto simp: failed_some send_some)

end

interpretation socket_channel: reply_channel write_message ok failed
  by unfold_locales (simp_all add: write_message_def ok_def failed_def run_simps Let_def fun_eq_iff)

interpretation stream_channel: reply_channel stream_write_message stream_ok stream_failed
  by unfold_locales (simp_all add: stream_write_message_def stream_ok_def stream_failed_def run_simps fun_eq_iff)

section \<open>Equivalence with the socket connector\<close>

text \<open>
  C27: A reply sent through the stream connector reads exactly as the same reply sent through the sockets:
  success with or without a text, and failure with a text, write the same characters and change nothing
  else.
\<close>

theorem stream_replies_same: "stream_ok m = ok m \<and> stream_failed (Some x) = failed (Some x) \<and> stream_write_message m = write_message m"
proof -
  have "stream_write_message m = write_message m" for m
    by (cases m) (simp_all add: fun_eq_iff socket_channel.send_some stream_channel.send_some
        socket_channel.send_none stream_channel.send_none)
  then show ?thesis
    by (cases m) (simp_all add: socket_channel.ok_some stream_channel.ok_some socket_channel.ok_none stream_channel.ok_none
        socket_channel.failed_some stream_channel.failed_some)
qed

section \<open>Reading messages and data\<close>

lemma stream_lines_line:
  assumes "NL \<notin> set l" and "strip (l @ [NL]) \<noteq> t"
  shows "stream_lines t m (l @ NL # s) = stream_lines t (m @ l @ [NL]) s"
  by (subst stream_lines.simps) (use assms in simp)

lemma stream_lines_end:
  assumes "NL \<notin> set l" and "strip (l @ [NL]) = t"
  shows "stream_lines t m (l @ NL # s) = (m, s)"
  by (subst stream_lines.simps) (use assms in simp)

lemma stream_lines_message:
  assumes "\<forall>l \<in> set ls. NL \<notin> set l \<and> strip (l @ [NL]) \<noteq> t" and "NL \<notin> set e" and "strip (e @ [NL]) = t"
  shows "stream_lines t m (concat (map (\<lambda>l. l @ [NL]) ls) @ e @ NL # s) = (m @ concat (map (\<lambda>l. l @ [NL]) ls), s)"
  using assms(1)
proof (induction ls arbitrary: m)
  case Nil
  then show ?case using stream_lines_end [OF assms(2,3)] by simp
next
  case (Cons l ls)
  then show ?case using stream_lines_line [of l t m] by simp
qed

text \<open>
  A message on standard input is what stands before the first line that is the end marker, up to
  blanks around it; the rest stays on the stream.
\<close>

theorem stream_message_framing:
  assumes "\<forall>l \<in> set ls. NL \<notin> set l \<and> strip (l @ [NL]) \<noteq> t" and "NL \<notin> set e" and "strip (e @ [NL]) = t"
    and "ctl_in w = concat (map (\<lambda>l. l @ [NL]) ls) @ e @ NL # rest"
  shows "stream_read_message t w = (Ret (concat (map (\<lambda>l. l @ [NL]) ls)), w\<lparr>ctl_in := rest\<rparr>)"
  using stream_lines_message [OF assms(1-3), of "[]" rest] assms(4) by (simp add: stream_read_message_def)

theorem stream_message_framing_witness:
  "\<forall>w. stream_read_message ''ENDOFMESSAGE'' (w\<lparr>ctl_in := ''#TSI_LS'' @ [NL] @ '' ENDOFMESSAGE '' @ NL # ''more''\<rparr>) =
     (Ret (''#TSI_LS'' @ [NL]), w\<lparr>ctl_in := ''more''\<rparr>)"
proof
  fix w :: world
  have s: "strip (''#TSI_LS'' @ [NL]) \<noteq> ''ENDOFMESSAGE''" "strip ('' ENDOFMESSAGE '' @ [NL]) = ''ENDOFMESSAGE''" by code_simp+
  show "stream_read_message ''ENDOFMESSAGE'' (w\<lparr>ctl_in := ''#TSI_LS'' @ [NL] @ '' ENDOFMESSAGE '' @ NL # ''more''\<rparr>) =
     (Ret (''#TSI_LS'' @ [NL]), w\<lparr>ctl_in := ''more''\<rparr>)"
    using stream_message_framing [of "[''#TSI_LS'']" "''ENDOFMESSAGE''" "'' ENDOFMESSAGE ''"
        "w\<lparr>ctl_in := ''#TSI_LS'' @ [NL] @ '' ENDOFMESSAGE '' @ NL # ''more''\<rparr>" "''more''"] s
    by simp
qed

lemma b64encode_line:
  "NL \<notin> set (b64encode d)" "CHR ''-'' \<notin> set (b64encode d)" "\<forall>c \<in> set (b64encode d). \<not> is_space c"
proof -
  have t: "\<forall>c \<in> set (b64encode d). b64_text c" unfolding b64encode_def
    by (rule encode_text) (simp add: code_bound)
  have "is_space NL" by code_simp
  then show "NL \<notin> set (b64encode d)" using t unfolding b64_text_def by blast
  show "CHR ''-'' \<notin> set (b64encode d)" "\<forall>c \<in> set (b64encode d). \<not> is_space c"
    using t unfolding b64_text_def by blast+
qed

lemma strip_keeps_chars: "set (strip s) \<subseteq> set s"
  unfolding strip_def lstrip_def rstrip_def by (auto dest!: set_dropWhileD)

text \<open>The block a data chunk is sent as.\<close>

definition data_block :: "string \<Rightarrow> string" where
  "data_block d = ''---BEGIN DATA BASE64---'' @ NL # b64encode d @ NL # ''---END DATA---'' @ [NL]"

lemma data_block_written: "stream_write_data d w = (Ret (length d), w\<lparr>ctl_out := ctl_out w @ data_block d\<rparr>)"
  unfolding stream_write_data_def
  by (simp only: bnd_run stream_channel.send_some prod.case outcome.case ret_run) (simp add: data_block_def)

lemma stream_read_block:
  assumes "ctl_in w = data_block d @ rest"
  shows "stream_read_data n w = (Ret d, w\<lparr>ctl_in := rest\<rparr>)"
proof -
  let ?b = "''---BEGIN DATA BASE64---''"
  let ?e = "''---END DATA---''"
  have s: "strip (?b @ [NL]) \<noteq> ?e" "strip (?e @ [NL]) = ?e" "NL \<notin> set ?b" "NL \<notin> set ?e" by code_simp+
  have d: "strip (b64encode d @ [NL]) \<noteq> ?e"
  proof
    assume "strip (b64encode d @ [NL]) = ?e"
    then have "CHR ''-'' \<in> set (strip (b64encode d @ [NL]))" by simp
    then have "CHR ''-'' \<in> set (b64encode d @ [NL])" using strip_keeps_chars by blast
    then show False using b64encode_line(2) [of d] by simp
  qed
  have "ctl_in w = concat (map (\<lambda>l. l @ [NL]) [?b, b64encode d]) @ ?e @ NL # rest"
    unfolding assms data_block_def by simp
  then have m: "stream_read_message ?e w = (Ret (?b @ NL # b64encode d @ [NL]), w\<lparr>ctl_in := rest\<rparr>)"
    using stream_lines_message [of "[?b, b64encode d]" ?e ?e "[]" rest] s d b64encode_line(1)
    by (simp add: stream_read_message_def)
  have "NL \<notin> set ?b \<Longrightarrow> split_once NL (?b @ NL # x) = (?b, Some x)" for x
    by (rule split_once_append)
  then have h: "split_once NL (?b @ NL # b64encode d @ [NL]) = (?b, Some (b64encode d @ [NL]))" using s(3) by blast
  have t: "startswith ?b ''---BEGIN DATA BASE64''" by code_simp
  show ?thesis unfolding stream_read_data_def bnd_run m prod.case outcome.case h option.case
    by (simp only: t simp_thms if_False b64_round_trip of_opt_run option.case prod.case outcome.case)
qed

text \<open>
  A data chunk that was written to a stream is read back from it unchanged, whatever bytes it holds,
  and the reader takes exactly what the writer wrote.
\<close>

theorem stream_data_round_trip:
  assumes "stream_write_data d v = (r, v')" and "ctl_in w = written v v' @ rest"
  shows "stream_read_data n w = (Ret d, w\<lparr>ctl_in := rest\<rparr>)"
  by (rule stream_read_block) (use assms in \<open>auto simp: data_block_written written_def\<close>)

theorem stream_data_round_trip_witness:
  "\<forall>v w. \<exists>v'. stream_write_data [CHR 0x00, CHR 0xFF, NL, CHR ''x''] v = (Ret 4, v') \<and>
     stream_read_data 100 (w\<lparr>ctl_in := written v v' @ ''more''\<rparr>) =
       (Ret [CHR 0x00, CHR 0xFF, NL, CHR ''x''], w\<lparr>ctl_in := ''more''\<rparr>)"
proof (intro allI)
  fix v w :: world
  let ?d = "[CHR 0x00, CHR 0xFF, NL, CHR ''x'']"
  obtain v' where v': "stream_write_data ?d v = (Ret 4, v')"
    using data_block_written [of ?d v] by simp
  from stream_data_round_trip [OF v', of "w\<lparr>ctl_in := written v v' @ ''more''\<rparr>" "''more''" 100] v'
  show "\<exists>v'. stream_write_data ?d v = (Ret 4, v') \<and>
     stream_read_data 100 (w\<lparr>ctl_in := written v v' @ ''more''\<rparr>) = (Ret ?d, w\<lparr>ctl_in := ''more''\<rparr>)" by simp
qed

section \<open>The class of a connector\<close>

text \<open>
  A worker is handed one of the two connectors. The handlers send their replies with \<open>ok\<close>, \<open>failed\<close> and
  \<open>write_message\<close>, always with a text in a failure, and so in the same way through both; reading a message
  and moving data depend on the class.
\<close>

datatype connector = Sockets | Streams

definition conn_read_message :: "connector \<Rightarrow> string tsi" where
  "conn_read_message C = (case C of Sockets \<Rightarrow> read_message | Streams \<Rightarrow> stream_read_message ''ENDOFMESSAGE'')"

definition conn_read_data :: "connector \<Rightarrow> nat \<Rightarrow> string tsi" where
  "conn_read_data C maxlen = (case C of Sockets \<Rightarrow> read_data maxlen | Streams \<Rightarrow> stream_read_data maxlen)"

definition conn_write_data :: "connector \<Rightarrow> string \<Rightarrow> nat tsi" where
  "conn_write_data C data = (case C of Sockets \<Rightarrow> write_data data | Streams \<Rightarrow> stream_write_data data)"

lemma conn_simps [simp]:
  "conn_read_message Sockets = read_message" "conn_read_message Streams = stream_read_message ''ENDOFMESSAGE''"
  "conn_read_data Sockets = read_data" "conn_read_data Streams = stream_read_data"
  "conn_write_data Sockets = write_data" "conn_write_data Streams = stream_write_data"
  by (simp_all add: conn_read_message_def conn_read_data_def conn_write_data_def fun_eq_iff)

section \<open>What reading leaves on the stream\<close>

lemma stream_lines_shorter: "length (snd (stream_lines t m s)) \<le> length s \<and> (s \<noteq> [] \<longrightarrow> length (snd (stream_lines t m s)) < length s)"
proof (induction t m s rule: stream_lines.induct)
  case (1 t m s)
  show ?case
  proof (cases "s = []")
    case True
    then show ?thesis by (subst stream_lines.simps) simp
  next
    case False
    note r = readline_shorter [OF False]
    show ?thesis
    proof (cases "strip (fst (readline s)) = t")
      case True
      then show ?thesis using False r by (subst (1 2) stream_lines.simps) (simp add: Let_def)
    next
      case nt: False
      from 1 [OF False refl refl nt] r show ?thesis
        using False nt by (subst (1 2) stream_lines.simps) (simp add: Let_def)
    qed
  qed
qed

lemma stream_read_message_run:
  obtains m rest where "stream_read_message t w = (Ret m, w\<lparr>ctl_in := rest\<rparr>)" "length rest \<le> length (ctl_in w)"
    "ctl_in w \<noteq> [] \<longrightarrow> length rest < length (ctl_in w)" "ctl_in w = [] \<longrightarrow> m = [] \<and> rest = []"
proof -
  have "stream_lines t [] [] = ([], [])" by (subst stream_lines.simps) simp
  with that [of "fst (stream_lines t [] (ctl_in w))" "snd (stream_lines t [] (ctl_in w))"] stream_lines_shorter [of t "[]" "ctl_in w"]
  show thesis by (auto simp: stream_read_message_def split_beta)
qed

lemma stream_read_data_run:
  obtains r rest where "stream_read_data n w = (r, w\<lparr>ctl_in := rest\<rparr>)" "length rest \<le> length (ctl_in w)"
    "(\<exists>d. r = Ret d \<and> length rest < length (ctl_in w)) \<or> r = Exc ValueError"
proof -
  obtain m rest where m: "stream_read_message ''---END DATA---'' w = (Ret m, w\<lparr>ctl_in := rest\<rparr>)" "length rest \<le> length (ctl_in w)"
    "ctl_in w \<noteq> [] \<longrightarrow> length rest < length (ctl_in w)" "ctl_in w = [] \<longrightarrow> m = [] \<and> rest = []"
    by (rule stream_read_message_run [of "''---END DATA---''" w])
  define q where "q = (case split_once NL m of (header, None) \<Rightarrow> Exc ValueError | (header, Some msg) \<Rightarrow>
      if startswith header ''---BEGIN DATA BASE64'' then (case b64decode msg of None \<Rightarrow> Exc ValueError | Some d \<Rightarrow> Ret d)
      else Exc ValueError)"
  have "stream_read_data n w = (q, w\<lparr>ctl_in := rest\<rparr>)"
    by (simp add: stream_read_data_def bnd_run m(1) q_def throw_run of_opt_run split: prod.splits option.splits)
  moreover have "q = Exc ValueError \<or> (\<exists>d. q = Ret d) \<and> m \<noteq> []"
    by (cases "m = []") (auto simp: q_def split: prod.splits option.splits)
  ultimately show thesis using m by (intro that [of q rest]) auto
qed

end
