(* ===== verification/UserCache.thy ===== *)
theory UserCache
  imports Utils
begin

text \<open>
  \<open>lib/UserCache.py\<close>: cached answers about users and groups with a time to live. The state is
  \<open>World.user_cache\<close>; the password and group databases are functions of time. The theory shows
  that an answer is never older than the time to live, and that within one request (one reading of
  the clock) all answers about a user come from one and the same password entry: the contract
  \<open>user_source\<close> that switching the user identity relies on.
\<close>

section \<open>Operations\<close>

definition upd_cache :: "(user_cache \<Rightarrow> user_cache) \<Rightarrow> unit tsi" where
  "upd_cache f = modify (\<lambda>w. w\<lparr>ucache := f (ucache w)\<rparr>)"

definition new_user_cache :: "cval \<Rightarrow> bool \<Rightarrow> user_cache" where
  "new_user_cache ttl use_id_to_resolve =
     \<lparr>cache_ttl = ttl, use_id = use_id_to_resolve, all_groups = Map.empty, uids = Map.empty,
      gids = Map.empty, homes = Map.empty, group_gids = Map.empty,
      users_timestamps = Map.empty, groups_timestamps = Map.empty\<rparr>"

text \<open>
  \<open>timestamp + self.cache_ttl < time.time()\<close>: a time to live that is not a number (the value of
  a configuration file is text) raises a \<open>TypeError\<close>.
\<close>

definition expired :: "int option \<Rightarrow> bool tsi" where
  "expired timestamp =
     (case timestamp of
        None \<Rightarrow> ret True
      | Some t \<Rightarrow>
          bnd (gets (\<lambda>w. cache_ttl (ucache w))) (\<lambda>ttl.
          case ttl of
            CInt n \<Rightarrow> gets (\<lambda>w. t + n < now w)
          | CBool b \<Rightarrow> gets (\<lambda>w. t + of_bool b < now w)
          | _ \<Rightarrow> throw TypeError))"

definition get_gids_4user_via_getgrall :: "sys \<Rightarrow> string \<Rightarrow> int \<Rightarrow> int list tsi" where
  "get_gids_4user_via_getgrall S user gid =
     gets (\<lambda>w. map fst (filter (\<lambda>g. user \<in> set (snd g)) (grall S (now w))) @ [gid])"

definition get_gids_4user_via_id :: "sys \<Rightarrow> string \<Rightarrow> int \<Rightarrow> int list tsi" where
  "get_gids_4user_via_id S user gid =
     bnd (run_command S (''id -G '' @ user) False False False) (\<lambda>(success, out).
     if \<not> success then ret []
     else
       bnd (of_sum (smap (\<lambda>g. case py_int g of None \<Rightarrow> Inl ValueError | Some i \<Rightarrow> Inr i)
              (split_ch (CHR '' '') out))) (\<lambda>all.
       if gid \<notin> set all then ret (all @ [gid]) else ret all))"

definition get_gids_4user_nc :: "sys \<Rightarrow> string \<Rightarrow> int \<Rightarrow> int list tsi" where
  "get_gids_4user_nc S user gid =
     bnd (gets (\<lambda>w. use_id (ucache w))) (\<lambda>b.
     if b then get_gids_4user_via_id S user gid else get_gids_4user_via_getgrall S user gid)"

definition update_group_info :: "sys \<Rightarrow> string \<Rightarrow> unit tsi" where
  "update_group_info S gname =
     bnd (upd_cache (\<lambda>c. c\<lparr>group_gids := (group_gids c)(gname := None)\<rparr>)) (\<lambda>_.
     bnd (upd_cache (\<lambda>c. c\<lparr>groups_timestamps := (groups_timestamps c)(gname := None)\<rparr>)) (\<lambda>_.
     bnd (gets (\<lambda>w. grnam S (now w) gname)) (\<lambda>g.
     case g of
       None \<Rightarrow> ret ()
     | Some gr_gid \<Rightarrow>
         bnd (upd_cache (\<lambda>c. c\<lparr>group_gids := (group_gids c)(gname \<mapsto> gr_gid)\<rparr>)) (\<lambda>_.
         bnd (gets now) (\<lambda>t.
         upd_cache (\<lambda>c. c\<lparr>groups_timestamps := (groups_timestamps c)(gname \<mapsto> t)\<rparr>))))))"

definition update_user_info :: "sys \<Rightarrow> string \<Rightarrow> unit tsi" where
  "update_user_info S user =
     bnd (upd_cache (\<lambda>c. c\<lparr>uids := (uids c)(user := None), gids := (gids c)(user := None),
        homes := (homes c)(user := None), all_groups := (all_groups c)(user := None),
        users_timestamps := (users_timestamps c)(user := None)\<rparr>)) (\<lambda>_.
     bnd (gets (\<lambda>w. pwnam S (now w) user)) (\<lambda>p.
     case p of
       None \<Rightarrow> ret ()
     | Some (uid, gid, home) \<Rightarrow>
         bnd (upd_cache (\<lambda>c. c\<lparr>uids := (uids c)(user \<mapsto> uid), gids := (gids c)(user \<mapsto> gid),
            homes := (homes c)(user \<mapsto> home)\<rparr>)) (\<lambda>_.
         bnd (get_gids_4user_nc S user gid) (\<lambda>gs.
         bnd (upd_cache (\<lambda>c. c\<lparr>all_groups := (all_groups c)(user \<mapsto> gs)\<rparr>)) (\<lambda>_.
         bnd (gets now) (\<lambda>t.
         upd_cache (\<lambda>c. c\<lparr>users_timestamps := (users_timestamps c)(user \<mapsto> t)\<rparr>)))))))"

definition prepare_users :: "sys \<Rightarrow> string \<Rightarrow> unit tsi" where
  "prepare_users S user =
     bnd (gets (\<lambda>w. users_timestamps (ucache w) user)) (\<lambda>timestamp.
     bnd (expired timestamp) (\<lambda>e. if e then update_user_info S user else ret ()))"

definition prepare_groups :: "sys \<Rightarrow> string \<Rightarrow> unit tsi" where
  "prepare_groups S gname =
     bnd (gets (\<lambda>w. groups_timestamps (ucache w) gname)) (\<lambda>timestamp.
     bnd (expired timestamp) (\<lambda>e. if e then update_group_info S gname else ret ()))"

definition get_gids_4user :: "sys \<Rightarrow> string \<Rightarrow> int list tsi" where
  "get_gids_4user S user =
     bnd (prepare_users S user) (\<lambda>_.
     gets (\<lambda>w. case all_groups (ucache w) user of None \<Rightarrow> [] | Some gs \<Rightarrow> gs))"

definition get_gid_4group :: "sys \<Rightarrow> string \<Rightarrow> int tsi" where
  "get_gid_4group S gname =
     bnd (prepare_groups S gname) (\<lambda>_.
     gets (\<lambda>w. case group_gids (ucache w) gname of None \<Rightarrow> -1 | Some g \<Rightarrow> g))"

definition get_gid_4user :: "sys \<Rightarrow> string \<Rightarrow> int tsi" where
  "get_gid_4user S user =
     bnd (prepare_users S user) (\<lambda>_.
     gets (\<lambda>w. case gids (ucache w) user of None \<Rightarrow> -1 | Some g \<Rightarrow> g))"

definition get_uid_4user :: "sys \<Rightarrow> string \<Rightarrow> int tsi" where
  "get_uid_4user S user =
     bnd (prepare_users S user) (\<lambda>_.
     gets (\<lambda>w. case uids (ucache w) user of None \<Rightarrow> -1 | Some u \<Rightarrow> u))"

definition get_home_4user :: "sys \<Rightarrow> string \<Rightarrow> string option tsi" where
  "get_home_4user S user =
     bnd (prepare_users S user) (\<lambda>_. gets (\<lambda>w. homes (ucache w) user))"

section \<open>Frames\<close>

lemma frame_upd_cache [frames]:
  "(\<And>w x. p (w\<lparr>ucache := x\<rparr>) = p w) \<Longrightarrow> frame p (upd_cache f)"
  unfolding upd_cache_def by (intro frame_modify)

lemma frame_expired [frames]: "frame p (expired t)"
  unfolding expired_def
  by (auto intro!: frames split: cval.split option.split)

definition cache_frame :: "(world \<Rightarrow> 'b) \<Rightarrow> bool" where
  "cache_frame p \<longleftrightarrow> (\<forall>w x. p (w\<lparr>ucache := x\<rparr>) = p w) \<and> (\<forall>w x. p (w\<lparr>trace := x\<rparr>) = p w)
     \<and> (\<forall>w x. p (w\<lparr>child_pids := x\<rparr>) = p w)"

lemma frame_gids_nc: "cache_frame p \<Longrightarrow> frame p (get_gids_4user_nc S u g)"
  unfolding get_gids_4user_nc_def get_gids_4user_via_id_def get_gids_4user_via_getgrall_def
  by (intro frames) (simp_all add: cache_frame_def)

lemma frame_prepare_users: "cache_frame p \<Longrightarrow> frame p (prepare_users S u)"
  unfolding prepare_users_def update_user_info_def
  by (intro frames frame_gids_nc) (simp_all add: cache_frame_def)

lemma frame_prepare_groups: "cache_frame p \<Longrightarrow> frame p (prepare_groups S g)"
  unfolding prepare_groups_def update_group_info_def
  by (intro frames) (simp_all add: cache_frame_def)

lemma frame_cache_gets [frames]:
  assumes "cache_frame p"
  shows "frame p (get_uid_4user S u)" "frame p (get_gid_4user S u)"
    "frame p (get_gids_4user S u)" "frame p (get_home_4user S u)" "frame p (get_gid_4group S g)"
  unfolding get_uid_4user_def get_gid_4user_def get_gids_4user_def get_home_4user_def
    get_gid_4group_def
  by (intro frames frame_prepare_users frame_prepare_groups assms)+

lemma cache_frames [simp]:
  "cache_frame config" "cache_frame cred" "cache_frame environ" "cache_frame cwd" "cache_frame now"
  "cache_frame ctl_in" "cache_frame ctl_out" "cache_frame dat_in" "cache_frame dat_out"
  "cache_frame files"
  by (simp_all add: cache_frame_def)

section \<open>What the cache answers\<close>

text \<open>
  For a user of the password database, \<open>id -G\<close> prints group numbers: the documented behaviour of
  that command, on which the cache relies when it resolves groups.
\<close>

definition id_prints_numbers :: "sys \<Rightarrow> bool" where
  "id_prints_numbers S \<longleftrightarrow> (\<forall>h t u out. pwnam S t u \<noteq> None
     \<longrightarrow> execute S h (bash_argv (''id -G '' @ u) False) = Finished 0 out
     \<longrightarrow> (\<forall>g \<in> set (split_ch (CHR '' '') out). py_int g \<noteq> None))"

definition fresh_gids :: "sys \<Rightarrow> string \<Rightarrow> int \<Rightarrow> bool \<Rightarrow> event list \<Rightarrow> int \<Rightarrow> int list" where
  "fresh_gids S u gid by_id h t =
     (if by_id then
        (case execute S h (bash_argv (''id -G '' @ u) False) of
           Finished c out \<Rightarrow>
             (if c = 0 then
                (let all = map (the \<circ> py_int) (split_ch (CHR '' '') out)
                 in if gid \<notin> set all then all @ [gid] else all)
              else []))
      else map fst (filter (\<lambda>g. u \<in> set (snd g)) (grall S t)) @ [gid])"

record user_entry =
  e_uid :: int
  e_gid :: int
  e_gids :: "int list"
  e_home :: string

text \<open>A time stamp that is still within the time to live.\<close>

definition live :: "world \<Rightarrow> int option \<Rightarrow> bool" where
  "live w ts \<longleftrightarrow> (case ts of
      None \<Rightarrow> False
    | Some t \<Rightarrow> (case cache_ttl (ucache w) of CInt n \<Rightarrow> now w \<le> t + n | _ \<Rightarrow> False))"

text \<open>The entry the cache holds for a user, and the answer it gives now: that entry or a fresh one.\<close>

definition cached_entry :: "user_cache \<Rightarrow> string \<Rightarrow> user_entry option" where
  "cached_entry c u =
     (case (uids c u, gids c u, all_groups c u, homes c u) of
        (Some a, Some b, Some g, Some h) \<Rightarrow> Some \<lparr>e_uid = a, e_gid = b, e_gids = g, e_home = h\<rparr>
      | _ \<Rightarrow> None)"

definition fresh_entry :: "sys \<Rightarrow> world \<Rightarrow> string \<Rightarrow> user_entry option" where
  "fresh_entry S w u = map_option (\<lambda>(uid, gid, home).
     \<lparr>e_uid = uid, e_gid = gid,
      e_gids = fresh_gids S u gid (use_id (ucache w)) (trace w) (now w), e_home = home\<rparr>)
     (pwnam S (now w) u)"

definition user_answer :: "sys \<Rightarrow> world \<Rightarrow> string \<Rightarrow> user_entry option" where
  "user_answer S w u =
     (if live w (users_timestamps (ucache w) u) then cached_entry (ucache w) u else fresh_entry S w u)"

definition group_answer :: "sys \<Rightarrow> world \<Rightarrow> string \<Rightarrow> int option" where
  "group_answer S w g =
     (if live w (groups_timestamps (ucache w) g) then group_gids (ucache w) g else grnam S (now w) g)"

section \<open>The invariant\<close>

text \<open>
  Every time stamp is in the past, and what is stored under it is what the database said then.
\<close>

definition cache_inv :: "sys \<Rightarrow> world \<Rightarrow> bool" where
  "cache_inv S w \<longleftrightarrow>
     id_prints_numbers S \<and> (\<exists>n \<ge> 0. cache_ttl (ucache w) = CInt n) \<and>
     (\<forall>u t. users_timestamps (ucache w) u = Some t \<longrightarrow> t \<le> now w \<and>
        (\<exists>e. cached_entry (ucache w) u = Some e \<and> pwnam S t u = Some (e_uid e, e_gid e, e_home e))) \<and>
     (\<forall>g t. groups_timestamps (ucache w) g = Some t \<longrightarrow> t \<le> now w \<and>
        (\<exists>gid. group_gids (ucache w) g = Some gid \<and> grnam S t g = Some gid))"

text \<open>The world after the cache has been brought up to date for a user or a group.\<close>

definition id_event :: "world \<Rightarrow> string \<Rightarrow> event" where
  "id_event w u = \<lparr>ev_cred = cred w, ev_argv = bash_argv (''id -G '' @ u) False, ev_background = False\<rparr>"

definition put_entry :: "string \<Rightarrow> user_entry option \<Rightarrow> int \<Rightarrow> user_cache \<Rightarrow> user_cache" where
  "put_entry u e t c = c\<lparr>
     uids := (uids c)(u := map_option e_uid e), gids := (gids c)(u := map_option e_gid e),
     homes := (homes c)(u := map_option e_home e), all_groups := (all_groups c)(u := map_option e_gids e),
     users_timestamps := (users_timestamps c)(u := map_option (\<lambda>_. t) e)\<rparr>"

definition touch_user :: "sys \<Rightarrow> string \<Rightarrow> world \<Rightarrow> world" where
  "touch_user S u w =
     (if live w (users_timestamps (ucache w) u) then w
      else w\<lparr>ucache := put_entry u (fresh_entry S w u) (now w) (ucache w),
             trace := trace w @ (if use_id (ucache w) \<and> pwnam S (now w) u \<noteq> None then [id_event w u] else [])\<rparr>)"

definition touch_group :: "sys \<Rightarrow> string \<Rightarrow> world \<Rightarrow> world" where
  "touch_group S g w =
     (if live w (groups_timestamps (ucache w) g) then w
      else w\<lparr>ucache := (ucache w)\<lparr>
               group_gids := (group_gids (ucache w))(g := grnam S (now w) g),
               groups_timestamps := (groups_timestamps (ucache w))(g := map_option (\<lambda>_. now w) (grnam S (now w) g))\<rparr>\<rparr>)"

lemma cache_inv_ttl: "cache_inv S w \<Longrightarrow> \<exists>n \<ge> 0. cache_ttl (ucache w) = CInt n"
  by (simp add: cache_inv_def)

lemma expired_live:
  "cache_inv S w \<Longrightarrow> expired ts w = (Ret (\<not> live w ts), w)"
  by (auto simp: expired_def live_def run_simps not_le dest!: cache_inv_ttl split: option.split)

lemma smap_total:
  "\<forall>x \<in> set xs. f x \<noteq> None \<Longrightarrow>
    smap (\<lambda>g. case f g of None \<Rightarrow> Inl e | Some i \<Rightarrow> Inr i) xs = Inr (map (the \<circ> f) xs)"
  by (induction xs) auto

lemma gids_nc_run:
  assumes "id_prints_numbers S" and "pwnam S t u \<noteq> None"
  shows "get_gids_4user_nc S u gid w =
    (Ret (fresh_gids S u gid (use_id (ucache w)) (trace w) (now w)),
     w\<lparr>trace := trace w @ (if use_id (ucache w) then [id_event w u] else [])\<rparr>)"
proof (cases "use_id (ucache w)")
  case False
  then show ?thesis
    by (simp add: get_gids_4user_nc_def get_gids_4user_via_getgrall_def fresh_gids_def run_simps)
next
  case True
  obtain c out where ex: "execute S (trace w) (bash_argv (''id -G '' @ u) False) = Finished c out"
    by (cases "execute S (trace w) (bash_argv (''id -G '' @ u) False)")
  show ?thesis
  proof (cases "c = 0")
    case False
    with True ex show ?thesis
      by (simp add: get_gids_4user_nc_def get_gids_4user_via_id_def fresh_gids_def run_command_def
          log_event_def id_event_def Let_def run_simps)
  next
    case c: True
    with assms ex have "\<forall>g \<in> set (split_ch (CHR '' '') out). py_int g \<noteq> None"
      unfolding id_prints_numbers_def by blast
    note sm = smap_total [OF this]
    show ?thesis using True ex c
      by (simp add: get_gids_4user_nc_def get_gids_4user_via_id_def fresh_gids_def run_command_def
          log_event_def id_event_def Let_def run_simps sm)
  qed
qed

lemma prepare_users_run:
  assumes "cache_inv S w"
  shows "prepare_users S u w = (Ret (), touch_user S u w)"
proof -
  have ids: "id_prints_numbers S" using assms by (simp add: cache_inv_def)
  show ?thesis
  proof (cases "live w (users_timestamps (ucache w) u)")
    case True
    with assms show ?thesis
      by (simp add: prepare_users_def expired_live touch_user_def run_simps)
  next
    case False
    with assms ids show ?thesis
      by (cases "pwnam S (now w) u")
        (auto simp: prepare_users_def expired_live touch_user_def run_simps update_user_info_def
          upd_cache_def gids_nc_run [where t = "now w"] put_entry_def fresh_entry_def id_event_def)
  qed
qed

lemma prepare_groups_run:
  assumes "cache_inv S w"
  shows "prepare_groups S g w = (Ret (), touch_group S g w)"
  using assms
  by (auto simp: prepare_groups_def expired_live touch_group_def run_simps update_group_info_def
      upd_cache_def split: option.split)

lemma cached_put_same:
  "cached_entry (put_entry u e t c) u = e"
  by (cases e) (simp_all add: cached_entry_def put_entry_def)

lemma cached_put_other:
  "u' \<noteq> u \<Longrightarrow> cached_entry (put_entry u e t c) u' = cached_entry c u'"
  by (simp add: cached_entry_def put_entry_def)

lemma put_entry_simps [simp]:
  "cache_ttl (put_entry u e t c) = cache_ttl c"
  "use_id (put_entry u e t c) = use_id c"
  "group_gids (put_entry u e t c) = group_gids c"
  "groups_timestamps (put_entry u e t c) = groups_timestamps c"
  "users_timestamps (put_entry u e t c) u' =
     (if u' = u then map_option (\<lambda>_. t) e else users_timestamps c u')"
  by (simp_all add: put_entry_def)

lemma touch_user_fields [simp]:
  "config (touch_user S u w) = config w" "cred (touch_user S u w) = cred w"
  "environ (touch_user S u w) = environ w" "now (touch_user S u w) = now w"
  "cwd (touch_user S u w) = cwd w" "ctl_out (touch_user S u w) = ctl_out w"
  "files (touch_user S u w) = files w"
  "cache_ttl (ucache (touch_user S u w)) = cache_ttl (ucache w)"
  by (simp_all add: touch_user_def)

lemma touch_group_fields [simp]:
  "config (touch_group S g w) = config w" "cred (touch_group S g w) = cred w"
  "environ (touch_group S g w) = environ w" "now (touch_group S g w) = now w"
  "cwd (touch_group S g w) = cwd w" "ctl_out (touch_group S g w) = ctl_out w"
  "files (touch_group S g w) = files w" "trace (touch_group S g w) = trace w"
  "cache_ttl (ucache (touch_group S g w)) = cache_ttl (ucache w)"
  by (simp_all add: touch_group_def)

lemma cached_entry_cong:
  "uids c = uids d \<Longrightarrow> gids c = gids d \<Longrightarrow> all_groups c = all_groups d \<Longrightarrow> homes c = homes d
    \<Longrightarrow> cached_entry c = cached_entry d"
  by (rule ext) (simp add: cached_entry_def)

lemma cached_entry_fields:
  assumes "cached_entry c u = Some e"
  shows "uids c u = Some (e_uid e)" "gids c u = Some (e_gid e)" "all_groups c u = Some (e_gids e)"
    "homes c u = Some (e_home e)"
  using assms by (auto simp: cached_entry_def split: option.splits)

lemma live_now: "0 \<le> n \<Longrightarrow> cache_ttl (ucache w) = CInt n \<Longrightarrow> live w (Some (now w))"
  by (simp add: live_def)

lemma live_cong: "now v = now w \<Longrightarrow> cache_ttl (ucache v) = cache_ttl (ucache w) \<Longrightarrow> live v = live w"
  by (rule ext) (simp add: live_def split: option.split cval.split)

lemma live_None [simp]: "\<not> live w None"
  by (simp add: live_def)

lemma live_touch_user [simp]: "live (touch_user S u w) = live w"
  by (rule live_cong) simp_all

lemma live_touch_group [simp]: "live (touch_group S g w) = live w"
  by (rule live_cong) simp_all

text \<open>Bringing the cache up to date keeps the invariant and does not change any answer.\<close>

lemma cache_inv_touch_user:
  assumes "cache_inv S w"
  shows "cache_inv S (touch_user S u w)"
proof (cases "live w (users_timestamps (ucache w) u)")
  case True
  with assms show ?thesis by (simp add: touch_user_def)
next
  case False
  have "pwnam S (now w) u = Some (e_uid e, e_gid e, e_home e)" if "fresh_entry S w u = Some e" for e
    using that by (auto simp: fresh_entry_def)
  with assms False show ?thesis
    unfolding cache_inv_def touch_user_def
    by (auto simp: cached_put_same cached_put_other)
qed

lemma cache_inv_touch_group:
  assumes "cache_inv S w"
  shows "cache_inv S (touch_group S g w)"
proof (cases "live w (groups_timestamps (ucache w) g)")
  case True
  with assms show ?thesis by (simp add: touch_group_def)
next
  case False
  have ce: "cached_entry ((ucache w)\<lparr>group_gids := a, groups_timestamps := b\<rparr>) = cached_entry (ucache w)"
    for a b by (rule cached_entry_cong) simp_all
  from assms False show ?thesis
    unfolding cache_inv_def touch_group_def by (auto simp: ce)
qed

lemma user_answer_touch_user:
  assumes "cache_inv S w"
  shows "user_answer S (touch_user S u w) u = user_answer S w u"
proof (cases "live w (users_timestamps (ucache w) u)")
  case True
  then show ?thesis by (simp add: touch_user_def)
next
  case False
  obtain n where n: "0 \<le> n" "cache_ttl (ucache w) = CInt n" using assms cache_inv_ttl by blast
  show ?thesis
  proof (cases "fresh_entry S w u")
    case None
    then have "pwnam S (now w) u = None" by (simp add: fresh_entry_def)
    with False None show ?thesis
      by (simp add: user_answer_def touch_user_def live_def fresh_entry_def)
  next
    case (Some e)
    with False n show ?thesis
      by (simp add: user_answer_def) (simp add: touch_user_def cached_put_same live_now)
  qed
qed

lemma group_answer_touch_group:
  assumes "cache_inv S w"
  shows "group_answer S (touch_group S g w) g' = group_answer S w g'"
proof -
  obtain n where n: "0 \<le> n" "cache_ttl (ucache w) = CInt n" using assms cache_inv_ttl by blast
  then have "live w (Some (now w))" by (rule live_now)
  then show ?thesis
    by (cases "grnam S (now w) g") (simp_all add: group_answer_def, simp_all add: touch_group_def)
qed

lemma group_answer_touch_user: "group_answer S (touch_user S u w) g = group_answer S w g"
  by (simp add: group_answer_def) (simp add: touch_user_def)

lemma user_answer_touch_group: "user_answer S (touch_group S g w) u = user_answer S w u"
proof -
  have "cached_entry (ucache (touch_group S g w)) = cached_entry (ucache w)"
    by (rule cached_entry_cong) (simp_all add: touch_group_def)
  moreover have "fresh_entry S (touch_group S g w) = fresh_entry S w"
    by (rule ext) (simp add: fresh_entry_def touch_group_def)
  moreover have "users_timestamps (ucache (touch_group S g w)) = users_timestamps (ucache w)"
    by (simp add: touch_group_def)
  ultimately show ?thesis by (simp add: user_answer_def)
qed

text \<open>After the update the dictionaries hold the answer.\<close>

lemma cached_after_touch:
  assumes "cache_inv S w"
  shows "uids (ucache (touch_user S u w)) u = map_option e_uid (user_answer S w u)"
    and "gids (ucache (touch_user S u w)) u = map_option e_gid (user_answer S w u)"
    and "all_groups (ucache (touch_user S u w)) u = map_option e_gids (user_answer S w u)"
    and "homes (ucache (touch_user S u w)) u = map_option e_home (user_answer S w u)"
proof -
  have live: "\<exists>e. cached_entry (ucache w) u = Some e" if l: "live w (users_timestamps (ucache w) u)"
  proof -
    obtain t where "users_timestamps (ucache w) u = Some t"
      using l by (auto simp: live_def split: option.splits)
    with assms show ?thesis unfolding cache_inv_def by blast
  qed
  show "uids (ucache (touch_user S u w)) u = map_option e_uid (user_answer S w u)"
    "gids (ucache (touch_user S u w)) u = map_option e_gid (user_answer S w u)"
    "all_groups (ucache (touch_user S u w)) u = map_option e_gids (user_answer S w u)"
    "homes (ucache (touch_user S u w)) u = map_option e_home (user_answer S w u)"
    by (cases "live w (users_timestamps (ucache w) u)";
        use live in \<open>auto simp: user_answer_def touch_user_def put_entry_def dest: cached_entry_fields\<close>)+
qed

lemma group_after_touch:
  "group_gids (ucache (touch_group S g w)) g = group_answer S w g"
  by (simp add: group_answer_def touch_group_def)

section \<open>The contract of a source of user information\<close>

text \<open>
  The methods of a \<open>UserCache\<close> object, as the client sees them, and the laws the client relies on:
  there is an abstract answer per user and per group, every method returns its part of that answer,
  and asking changes no answer, no credentials and no configuration.
\<close>

record user_ops =
  op_uid :: "string \<Rightarrow> int tsi"
  op_gid :: "string \<Rightarrow> int tsi"
  op_gids :: "string \<Rightarrow> int list tsi"
  op_home :: "string \<Rightarrow> string option tsi"
  op_group :: "string \<Rightarrow> int tsi"

definition cache_ops :: "sys \<Rightarrow> user_ops" where
  "cache_ops S = \<lparr>op_uid = get_uid_4user S, op_gid = get_gid_4user S, op_gids = get_gids_4user S,
     op_home = get_home_4user S, op_group = get_gid_4group S\<rparr>"

locale user_source =
  fixes U :: user_ops
    and inv :: "world \<Rightarrow> bool"
    and entry :: "world \<Rightarrow> string \<Rightarrow> user_entry option"
    and gentry :: "world \<Rightarrow> string \<Rightarrow> int option"
    and touch :: "string \<Rightarrow> world \<Rightarrow> world"
    and gtouch :: "string \<Rightarrow> world \<Rightarrow> world"
  assumes uid_run: "inv w \<Longrightarrow> op_uid U u w = (Ret (case entry w u of None \<Rightarrow> -1 | Some e \<Rightarrow> e_uid e), touch u w)"
    and gid_run: "inv w \<Longrightarrow> op_gid U u w = (Ret (case entry w u of None \<Rightarrow> -1 | Some e \<Rightarrow> e_gid e), touch u w)"
    and gids_run: "inv w \<Longrightarrow> op_gids U u w = (Ret (case entry w u of None \<Rightarrow> [] | Some e \<Rightarrow> e_gids e), touch u w)"
    and home_run: "inv w \<Longrightarrow> op_home U u w = (Ret (map_option e_home (entry w u)), touch u w)"
    and group_run: "inv w \<Longrightarrow> op_group U g w = (Ret (case gentry w g of None \<Rightarrow> -1 | Some i \<Rightarrow> i), gtouch g w)"
    and inv_touch: "inv w \<Longrightarrow> inv (touch u w)"
    and inv_gtouch: "inv w \<Longrightarrow> inv (gtouch g w)"
    and inv_cred: "inv w \<Longrightarrow> inv (w\<lparr>cred := c\<rparr>)"
    and entry_touch: "inv w \<Longrightarrow> entry (touch u w) u = entry w u"
    and gentry_touch: "inv w \<Longrightarrow> gentry (touch u w) g = gentry w g"
    and entry_gtouch: "inv w \<Longrightarrow> entry (gtouch g w) u = entry w u"
    and gentry_gtouch: "inv w \<Longrightarrow> gentry (gtouch g' w) g = gentry w g"
    and entry_cred: "entry (w\<lparr>cred := c\<rparr>) u = entry w u"
    and touch_frame: "cred (touch u w) = cred w" "config (touch u w) = config w"
      "environ (touch u w) = environ w"
    and gtouch_frame: "cred (gtouch g w) = cred w" "config (gtouch g w) = config w"
      "environ (gtouch g w) = environ w"
begin

lemmas source_run = uid_run gid_run gids_run home_run group_run
lemmas source_stable = inv_touch inv_gtouch inv_cred entry_touch gentry_touch entry_gtouch
  gentry_gtouch entry_cred touch_frame gtouch_frame

end

lemma cache_inv_cred: "cache_inv S (w\<lparr>cred := c\<rparr>) = cache_inv S w"
  by (simp add: cache_inv_def)

lemma user_answer_cred: "user_answer S (w\<lparr>cred := c\<rparr>) u = user_answer S w u"
proof -
  have "live (w\<lparr>cred := c\<rparr>) = live w" by (rule live_cong) simp_all
  then show ?thesis by (simp add: user_answer_def fresh_entry_def)
qed

interpretation cache: user_source "cache_ops S" "cache_inv S" "user_answer S" "group_answer S"
    "touch_user S" "touch_group S" for S
  by unfold_locales
    (auto simp: cache_ops_def get_uid_4user_def get_gid_4user_def get_gids_4user_def
      get_home_4user_def get_gid_4group_def run_simps prepare_users_run prepare_groups_run
      cached_after_touch group_after_touch cache_inv_touch_user cache_inv_touch_group cache_inv_cred
      user_answer_touch_user group_answer_touch_group group_answer_touch_user user_answer_touch_group
      user_answer_cred split: option.split)

section \<open>A sample machine\<close>

text \<open>
  A small machine and a freshly started TSI process on it, on which the properties of the
  development are tried: user alice (uid 1000, group users) is a member of hpc but not of secret.
\<close>

definition sample_sys :: sys where
  "sample_sys = \<lparr>
     pwnam = (\<lambda>t u. if u = ''alice'' then Some (1000, 100, ''/home/alice'')
                   else if u = ''root'' then Some (0, 0, ''/root'') else None),
     grnam = (\<lambda>t g. if g = ''users'' then Some 100 else if g = ''hpc'' then Some 200
                   else if g = ''secret'' then Some 300 else None),
     grall = (\<lambda>t. [(100, []), (200, [''alice'']), (300, [''bob''])]),
     pwuid = (\<lambda>i. if i = 1000 then Some ''alice'' else if i = 0 then Some ''root'' else None),
     grgid = (\<lambda>i. if i = 100 then Some ''users'' else None),
     execute = (\<lambda>h argv. Finished 0 ''42''),
     new_pid = (\<lambda>h. int (length h) + 100),
     may = (\<lambda>c p m. True),
     new_mode = 33188,
     new_dir_mode = 16877,
     dir_size = (\<lambda>p. 4096),
     read_limit = (\<lambda>k n. n),
     write_limit = (\<lambda>k n. n),
     max_depth = 900,
     random_id = (\<lambda>h. ''ABC123''),
     own_pid = 77,
     clock_ms = (\<lambda>h. 1700000000123),
     waitpid = (\<lambda>h p. Some 0),
     pam_err = (\<lambda>h c. 0),
     pam_text = (\<lambda>i. ''Success''),
     uftp_client = ''/usr/share/unicore/tsi/lib/UFTP.py'',
     connect_res = (\<lambda>h d. None),
     exc_text = (\<lambda>e. ''error'')\<rparr>"

definition root_cred :: cred where
  "root_cred = \<lparr>ruid = 0, euid = 0, suid = 0, rgid = 0, egid = 0, sgid = 0, groups = [0], setid_caps = False\<rparr>"

definition sample_config :: "bool \<Rightarrow> config" where
  "sample_config fail = [''tsi.switch_uid'' \<mapsto> CBool True, ''tsi.effective_uid'' \<mapsto> CInt 0,
     ''tsi.effective_gid'' \<mapsto> CInt 0, ''tsi.enforce_os_gids'' \<mapsto> CBool True,
     ''tsi.fail_on_invalid_gids'' \<mapsto> CBool fail]"

definition sample_world :: "bool \<Rightarrow> world" where
  "sample_world fail = \<lparr>config = sample_config fail, ucache = new_user_cache (CInt 600) False,
     cred = root_cred, environ = Map.empty, cwd = ''/'', now = 1000, trace = [], child_pids = [],
     ctl_in = [], ctl_out = [], dat_in = [], dat_out = [], files = Map.empty, pam_calls = [], dials = []\<rparr>"

lemma sample_ids: "id_prints_numbers sample_sys"
proof -
  have "\<forall>g \<in> set (split_ch (CHR '' '') ''42''). py_int g \<noteq> None" by code_simp
  then show ?thesis by (simp add: id_prints_numbers_def sample_sys_def)
qed

lemma sample_pwnam: "pwnam sample_sys t ''alice'' = Some (1000, 100, ''/home/alice'')"
  by (simp add: sample_sys_def)

lemma sample_inv: "cache_inv sample_sys (sample_world f)"
  using sample_ids by (simp add: cache_inv_def sample_world_def new_user_cache_def)

lemma sample_alice: "user_answer sample_sys (sample_world f) ''alice'' =
    Some \<lparr>e_uid = 1000, e_gid = 100, e_gids = [200, 100], e_home = ''/home/alice''\<rparr>"
  by (simp add: user_answer_def sample_world_def new_user_cache_def live_def fresh_entry_def
      fresh_gids_def sample_sys_def)

lemma sample_groups: "group_answer sample_sys (sample_world f) = grnam sample_sys 1000"
  by (rule ext) (simp add: group_answer_def sample_world_def new_user_cache_def live_def)

lemma sample_fields [simp]:
  "config (sample_world f) = sample_config f" "cred (sample_world f) = root_cred"
  "environ (sample_world f) = Map.empty" "now (sample_world f) = 1000" "trace (sample_world f) = []"
  "child_pids (sample_world f) = []" "cwd (sample_world f) = ''/''" "ctl_out (sample_world f) = []"
  by (simp_all add: sample_world_def)

section \<open>Every history of a cache\<close>

text \<open>
  The worlds a cache with time to live \<open>n\<close> can be in: freshly made, after any of its lookups, and
  after anything else that does not touch the cache, while the clock moves on.
\<close>

inductive cache_reach :: "sys \<Rightarrow> int \<Rightarrow> world \<Rightarrow> bool" for S n where
  start: "ucache w = new_user_cache (CInt n) b \<Longrightarrow> cache_reach S n w"
| uid: "cache_reach S n w \<Longrightarrow> get_uid_4user S u w = (r, w') \<Longrightarrow> cache_reach S n w'"
| gid: "cache_reach S n w \<Longrightarrow> get_gid_4user S u w = (r, w') \<Longrightarrow> cache_reach S n w'"
| gids: "cache_reach S n w \<Longrightarrow> get_gids_4user S u w = (r, w') \<Longrightarrow> cache_reach S n w'"
| home: "cache_reach S n w \<Longrightarrow> get_home_4user S u w = (r, w') \<Longrightarrow> cache_reach S n w'"
| gname: "cache_reach S n w \<Longrightarrow> get_gid_4group S g w = (r, w') \<Longrightarrow> cache_reach S n w'"
| other: "cache_reach S n w \<Longrightarrow> ucache w' = ucache w \<Longrightarrow> now w \<le> now w' \<Longrightarrow> cache_reach S n w'"

lemma cache_inv_other:
  assumes "cache_inv S w" and "ucache w' = ucache w" and "now w \<le> now w'"
  shows "cache_inv S w'"
proof -
  have "t \<le> now w \<Longrightarrow> t \<le> now w'" for t using assms(3) by simp
  with assms(1,2) show ?thesis unfolding cache_inv_def by simp
qed

lemmas cache_runs = cache.source_run [unfolded cache_ops_def user_ops.simps]

lemma cache_reach_inv:
  assumes "cache_reach S n w" and "id_prints_numbers S" and "0 \<le> n"
  shows "cache_inv S w \<and> cache_ttl (ucache w) = CInt n"
  using assms(1)
proof (induction rule: cache_reach.induct)
  case (start w b)
  with assms show ?case by (simp add: cache_inv_def new_user_cache_def)
next
  case (other w w')
  then show ?case using cache_inv_other [of S w w'] by simp
qed (auto simp: cache_runs cache_inv_touch_user cache_inv_touch_group)

lemma user_answer_recent:
  assumes "cache_inv S w" and "cache_ttl (ucache w) = CInt n" and "0 \<le> n"
  shows "\<exists>t. now w - n \<le> t \<and> t \<le> now w \<and>
    map_option (\<lambda>e. (e_uid e, e_gid e, e_home e)) (user_answer S w u) = pwnam S t u"
proof (cases "live w (users_timestamps (ucache w) u)")
  case True
  then obtain t where t: "users_timestamps (ucache w) u = Some t" "now w \<le> t + n"
    using assms by (auto simp: live_def split: option.splits)
  with assms(1) have "t \<le> now w" "\<exists>e. cached_entry (ucache w) u = Some e \<and> pwnam S t u = Some (e_uid e, e_gid e, e_home e)"
    unfolding cache_inv_def by blast+
  with t True show ?thesis by (intro exI [of _ t]) (auto simp: user_answer_def)
next
  case False
  with assms(3) show ?thesis
    by (intro exI [of _ "now w"])
      (auto simp: user_answer_def fresh_entry_def option.map_comp comp_def split_beta option.map_ident
        cong: option.map_cong)
qed



text \<open>
  A time to live given as text, as a configuration file gives it, works for the first lookup of a
  user only: the second one raises a \<open>TypeError\<close>.
\<close>

theorem text_ttl_fails_second_lookup:
  assumes "ucache w = new_user_cache (CStr ttl) False" and "pwnam S (now w) u = Some (i, g, h)"
  shows "fst (get_uid_4user S u w) = Ret i \<and>
    fst (get_uid_4user S u (snd (get_uid_4user S u w))) = Exc TypeError"
  using assms
  by (simp add: get_uid_4user_def prepare_users_def expired_def run_simps new_user_cache_def
      update_user_info_def upd_cache_def get_gids_4user_nc_def get_gids_4user_via_getgrall_def)

theorem text_ttl_fails_second_lookup_witness:
  "fst (get_uid_4user sample_sys ''alice'' (snd (get_uid_4user sample_sys ''alice''
     ((sample_world True)\<lparr>ucache := new_user_cache (CStr ''600'') False\<rparr>)))) = Exc TypeError"
  using text_ttl_fails_second_lookup [of "(sample_world True)\<lparr>ucache := new_user_cache (CStr ''600'') False\<rparr>"
      "''600''" sample_sys "''alice''" 1000 100 "''/home/alice''"]
  by (simp add: sample_pwnam)

end
