(* ===== verification/FileIO.thy ===== *)
theory FileIO
  imports Streams UserCache
begin

text \<open>
  \<open>lib/IO.py\<close>: reading and writing parts of files over the data channel, directory listings, and
  the free space of a partition. Bytes are characters. The kernel may cut a read or write short; the
  parameters \<open>read_limit\<close> and \<open>write_limit\<close> of the machine say by how much, so that the loops of the
  code are modelled with the lengths they really see. Only regular files and directories are modelled.
\<close>

section \<open>Operating system calls\<close>

definition clip :: "nat \<Rightarrow> nat \<Rightarrow> nat" where
  "clip k n = max 1 (min k n)"

definition dirname :: "string \<Rightarrow> string" where
  "dirname p = (case rindex (CHR ''/'') p of None \<Rightarrow> [] | Some i \<Rightarrow> take i p)"

definition basename :: "string \<Rightarrow> string" where
  "basename p = (case rindex (CHR ''/'') p of None \<Rightarrow> p | Some i \<Rightarrow> drop (i + 1) p)"

definition path_join :: "string \<Rightarrow> string \<Rightarrow> string" where
  "path_join p e =
     (if startswith e ''/'' then e
      else if p = [] \<or> endswith p ''/'' then p @ e
      else p @ ''/'' @ e)"

definition stat_node :: "string \<Rightarrow> fnode tsi" where
  "stat_node p = bnd (gets (\<lambda>w. files w (abs_path w p))) (\<lambda>f. of_opt (OSError p) f)"

definition path_exists :: "string \<Rightarrow> bool tsi" where
  "path_exists p = gets (\<lambda>w. files w (abs_path w p) \<noteq> None)"

definition path_isdir :: "string \<Rightarrow> bool tsi" where
  "path_isdir p = gets (\<lambda>w. case files w (abs_path w p) of Some (FDir _ _) \<Rightarrow> True | _ \<Rightarrow> False)"

definition os_access :: "sys \<Rightarrow> string \<Rightarrow> nat \<Rightarrow> bool tsi" where
  "os_access S p m = gets (\<lambda>w. files w (abs_path w p) \<noteq> None \<and> may S (cred w) (abs_path w p) m)"

text \<open>Opening a file to read it: the contents.\<close>

definition open_read :: "sys \<Rightarrow> string \<Rightarrow> string tsi" where
  "open_read S p = (\<lambda>w. case files w (abs_path w p) of
      Some (FFile c _) \<Rightarrow> (if may S (cred w) (abs_path w p) 4 then (Ret c, w) else (Exc (OSError p), w))
    | _ \<Rightarrow> (Exc (OSError p), w))"

text \<open>Opening a file to write it: it is emptied or kept, and created when it does not exist.\<close>

definition new_file :: "sys \<Rightarrow> world \<Rightarrow> fnode" where
  "new_file S w = FFile [] \<lparr>st_mode = new_mode S, st_uid = euid (cred w), st_gid = egid (cred w), st_mtime = now w\<rparr>"

definition open_write :: "sys \<Rightarrow> string \<Rightarrow> bool \<Rightarrow> unit tsi" where
  "open_write S p keep = (\<lambda>w.
     let q = abs_path w p in
     case files w q of
       Some (FDir _ _) \<Rightarrow> (Exc (OSError p), w)
     | Some (FFile c m) \<Rightarrow>
         (if \<not> may S (cred w) q 2 then (Exc (OSError p), w)
          else (Ret (), w\<lparr>files := (files w)(q \<mapsto> FFile (if keep then c else []) m)\<rparr>))
     | None \<Rightarrow>
         (case files w (dirname q) of
            Some (FDir es m) \<Rightarrow>
              (if \<not> may S (cred w) q 2 then (Exc (OSError p), w)
               else (Ret (), w\<lparr>files := (files w)(dirname q \<mapsto> FDir (es @ [basename q]) m, q \<mapsto> new_file S w)\<rparr>))
          | _ \<Rightarrow> (Exc (OSError p), w)))"

text \<open>Writing to an open file at its end; the number of bytes the kernel took.\<close>

fun append_to :: "string \<Rightarrow> fnode \<Rightarrow> fnode" where
  "append_to d (FFile c m) = FFile (c @ d) m"
| "append_to d (FDir es m) = FDir es m"

fun node_size :: "fnode \<Rightarrow> nat" where
  "node_size (FFile c m) = length c"
| "node_size (FDir es m) = 0"

definition file_write :: "sys \<Rightarrow> string \<Rightarrow> string \<Rightarrow> nat tsi" where
  "file_write S p data = (\<lambda>w.
     case files w (abs_path w p) of
       None \<Rightarrow> (Exc (OSError p), w)
     | Some f \<Rightarrow>
         (let n = (if data = [] then 0 else clip (write_limit S (node_size f) (length data)) (length data))
          in (Ret n, w\<lparr>files := (files w)(abs_path w p \<mapsto> append_to (take n data) f)\<rparr>)))"

definition slice :: "nat \<Rightarrow> nat \<Rightarrow> 'a list \<Rightarrow> 'a list" where
  "slice i j xs = drop i (take j xs)"

definition diverge :: "'a tsi" where
  "diverge = (\<lambda>w. (Loops, w))"

definition req_str :: "string option \<Rightarrow> string tsi" where
  "req_str v = of_opt AttributeError v"

definition expanded :: "string option \<Rightarrow> string tsi" where
  "expanded v = bnd (req_str v) (\<lambda>m. gets (\<lambda>w. expand_variables (environ w) m))"

definition int_param :: "string option \<Rightarrow> int tsi" where
  "int_param v = bnd (of_opt TypeError v) (\<lambda>s. of_opt ValueError (py_int s))"

section \<open>get_file_chunk\<close>

text \<open>
  The read loop. \<open>readinto\<close> always fills the buffer from its start. \<open>pos\<close> is the file position; a
  read at the end of the file returns 0.
\<close>

function read_chunks :: "sys \<Rightarrow> string \<Rightarrow> nat \<Rightarrow> string \<Rightarrow> nat \<Rightarrow> int \<Rightarrow> string \<times> nat" where
  "read_chunks S content pos buf total_bytes remaining =
     (if remaining \<le> 0 then (buf, total_bytes)
      else
        let avail = min (length buf) (length content - pos);
            rd = (if avail = 0 then 0 else clip (read_limit S pos avail) avail)
        in if rd = 0 then (buf, total_bytes)
           else read_chunks S content (pos + rd) (slice pos (pos + rd) content @ drop rd buf)
                  (total_bytes + rd) (remaining - int rd))"
  by pat_completeness auto
termination
  by (relation "measure (\<lambda>(S, c, p, b, t, r). nat r)") auto

declare read_chunks.simps [simp del]

text \<open>
  The write loop. When the slice is empty nothing is written and no variable changes, so the loop
  runs forever.
\<close>

function write_chunks :: "connector \<Rightarrow> string \<Rightarrow> nat \<Rightarrow> nat \<Rightarrow> int \<Rightarrow> unit tsi" where
  "write_chunks C buf total_bytes write_offset must_write =
     (if must_write \<le> 0 then ret ()
      else
        bnd (conn_write_data C (slice write_offset total_bytes buf)) (\<lambda>written.
        if written = 0 then diverge
        else write_chunks C buf total_bytes (write_offset + written) (must_write - int written)))"
  by pat_completeness auto
termination
  by (relation "measure (\<lambda>(C, b, t, o1, m). nat m)") auto

declare write_chunks.simps [simp del]

definition get_file_chunk :: "connector \<Rightarrow> sys \<Rightarrow> string \<Rightarrow> unit tsi" where
  "get_file_chunk C S msg =
     bnd (expanded (extract_parameter msg ''FILE'' None)) (\<lambda>path.
     bnd (int_param (extract_parameter msg ''START'' None)) (\<lambda>start.
     bnd (int_param (extract_parameter msg ''LENGTH'' None)) (\<lambda>len.
     bnd (open_read S path) (\<lambda>content.
     if start < 0 then throw (OSError path)
     else if len < 0 then throw ValueError
     else
       (let r = read_chunks S content (nat start) (replicate (nat len) (CHR 0x00)) 0 len in
        bnd (ok (Some (''TSI_LENGTH '' @ show_int (int (snd r)) @ [NL] @ ''ENDOFMESSAGE''))) (\<lambda>_.
        write_chunks C (fst r) (snd r) 0 (int (snd r))))))))"

section \<open>put_file_chunk\<close>

text \<open>The inner loop copes with partial writes; the kernel takes at least one byte each time.\<close>

function (sequential) flush_buf :: "sys \<Rightarrow> string \<Rightarrow> string \<Rightarrow> nat \<Rightarrow> unit tsi" where
  "flush_buf S path buf 0 = ret ()"
| "flush_buf S path buf (Suc n) =
     bnd (file_write S path buf) (\<lambda>written.
     if written = 0 then diverge
     else flush_buf S path (drop written buf) (Suc n - written))"
  by pat_completeness auto
termination
  by (relation "measure (\<lambda>(S, p, b, n). n)") auto

text \<open>
  The outer loop. At the end of the data channel \<open>read_data\<close> returns no bytes, nothing changes and
  the loop runs forever; an empty block on a stream is taken from it, and the loop goes on.
\<close>

function copy_data :: "connector \<Rightarrow> sys \<Rightarrow> string \<Rightarrow> int \<Rightarrow> unit tsi" where
  "copy_data C S path remaining w =
     (if remaining \<le> 0 then (Ret (), w)
      else
        (case conn_read_data C (nat remaining) w of
           (Ret buf, v) \<Rightarrow>
             (if length buf = 0 then
                (if length (ctl_in v) < length (ctl_in w) then copy_data C S path remaining v else (Loops, v))
              else
                (case flush_buf S path buf (length buf) v of
                   (Ret _, x) \<Rightarrow> copy_data C S path (remaining - int (length buf)) x
                 | (Exc e, x) \<Rightarrow> (Exc e, x) | (Exit n, x) \<Rightarrow> (Exit n, x) | (Loops, x) \<Rightarrow> (Loops, x)))
         | (Exc e, v) \<Rightarrow> (Exc e, v) | (Exit n, v) \<Rightarrow> (Exit n, v) | (Loops, v) \<Rightarrow> (Loops, v)))"
  by pat_completeness auto
termination
  by (relation "inv_image (less_than <*lex*> less_than) (\<lambda>(C, S, p, r, w). (nat r, length (ctl_in w)))") auto

declare copy_data.simps [simp del]

text \<open>Over the sockets the control channel is not read, so a read of no bytes is the end.\<close>

lemma copy_data_sockets:
  "copy_data Sockets S path remaining =
     (if remaining \<le> 0 then ret ()
      else
        bnd (read_data (nat remaining)) (\<lambda>buf.
        if length buf = 0 then diverge
        else
          bnd (flush_buf S path buf (length buf)) (\<lambda>_.
          copy_data Sockets S path (remaining - int (length buf)))))"
proof (rule ext)
  fix w :: world
  define v where "v = w\<lparr>dat_in := drop (min (nat remaining) buf_size) (dat_in w)\<rparr>"
  then obtain b where r: "read_data (nat remaining) w = (Ret b, v)" by (simp add: read_data_def Let_def)
  have "ctl_in v = ctl_in w" by (simp add: v_def)
  then show "copy_data Sockets S path remaining w =
     (if remaining \<le> 0 then ret ()
      else
        bnd (read_data (nat remaining)) (\<lambda>buf.
        if length buf = 0 then diverge
        else
          bnd (flush_buf S path buf (length buf)) (\<lambda>_.
          copy_data Sockets S path (remaining - int (length buf))))) w"
    by (subst copy_data.simps) (simp add: bnd_run ret_run r diverge_def)
qed

definition c_int_range :: "int \<Rightarrow> bool" where
  "c_int_range i \<longleftrightarrow> - (2 ^ 31) \<le> i \<and> i < 2 ^ 31"

definition only_oserror :: "exn \<Rightarrow> bool" where
  "only_oserror e = (case e of OSError _ \<Rightarrow> True | _ \<Rightarrow> False)"

definition set_requested_mode :: "string \<Rightarrow> string \<Rightarrow> unit tsi" where
  "set_requested_mode path mode =
     catch
       (bnd (of_opt ValueError (py_int8 mode)) (\<lambda>m.
        if \<not> c_int_range m then throw OverflowError else os_chmod path (nat (m mod 4096))))
       (\<lambda>e. if only_oserror e then ret () else throw e)"

definition put_file_chunk :: "connector \<Rightarrow> sys \<Rightarrow> string \<Rightarrow> unit tsi" where
  "put_file_chunk C S msg =
     bnd (req_str (extract_parameter msg ''FILE'' None)) (\<lambda>path_and_mode.
     bnd (of_opt ValueError (rindex (CHR '' '') path_and_mode)) (\<lambda>mode_index.
     bnd (expanded (Some (take mode_index path_and_mode))) (\<lambda>path.
     let mode = drop (mode_index + 1) path_and_mode;
         action = (case extract_parameter msg ''FILESACTION'' None of None \<Rightarrow> ''1'' | Some a \<Rightarrow> a)
     in
       bnd (int_param (extract_parameter msg ''LENGTH'' None)) (\<lambda>len.
       bnd (open_write S path (action = ''3'')) (\<lambda>_.
       bnd (ok (Some ''ENDOFMESSAGE'')) (\<lambda>_.
       bnd (copy_data C S path len) (\<lambda>_.
       set_requested_mode path mode)))))))"

section \<open>Listings\<close>

definition mode_table :: "(nat \<times> char) list" where
  "mode_table = zip [8, 7, 6, 5, 4, 3, 2, 1, 0] ''rwxrwxrwx''"

definition perm_string :: "nat \<Rightarrow> string" where
  "perm_string mode = ''--'' @ map (\<lambda>(i, c). if bit mode i then c else CHR ''-'') mode_table"

definition flag_char :: "bool \<Rightarrow> char \<Rightarrow> string" where
  "flag_char b c = (if b then [c] else '' '')"

definition no_newline :: "string \<Rightarrow> string" where
  "no_newline s = map (\<lambda>c. if c = CR \<or> c = NL then CHR ''?'' else c) s"

definition node_st_size :: "sys \<Rightarrow> string \<Rightarrow> fnode \<Rightarrow> nat" where
  "node_st_size S p f = (case f of FFile c _ \<Rightarrow> length c | FDir _ _ \<Rightarrow> dir_size S p)"

definition is_fdir :: "fnode \<Rightarrow> bool" where
  "is_fdir f = (case f of FDir _ _ \<Rightarrow> True | FFile _ _ \<Rightarrow> False)"

text \<open>\<open>pwd.getpwuid\<close> and \<open>grp.getgrgid\<close> raise a \<open>KeyError\<close> for an unknown id.\<close>

definition get_info :: "sys \<Rightarrow> string \<Rightarrow> string tsi" where
  "get_info S path =
     bnd (stat_node path) (\<lambda>f.
     bnd (os_access S path 4) (\<lambda>r.
     bnd (os_access S path 2) (\<lambda>wr.
     bnd (os_access S path 1) (\<lambda>x.
     bnd (gets (\<lambda>w. euid (cred w))) (\<lambda>eu.
     let m = meta_of f in
     bnd (of_opt (KeyError ''uid'') (pwuid S (st_uid m))) (\<lambda>user.
     bnd (of_opt (KeyError ''gid'') (grgid S (st_gid m))) (\<lambda>gname.
     ret ('' '' @ flag_char (is_fdir f) (CHR ''D'') @ flag_char r (CHR ''R'') @ flag_char wr (CHR ''W'')
          @ flag_char x (CHR ''X'') @ flag_char (eu = st_uid m) (CHR ''O'') @ '' ''
          @ show_int (int (node_st_size S path f)) @ '' '' @ show_int (st_mtime m) @ '' '' @ no_newline path @ [NL]
          @ perm_string (st_mode m) @ '' '' @ user @ '' '' @ gname))))))))"

definition os_listdir :: "sys \<Rightarrow> string \<Rightarrow> string list tsi" where
  "os_listdir S p = (\<lambda>w. case files w (abs_path w p) of
      Some (FDir es _) \<Rightarrow> (if may S (cred w) (abs_path w p) 4 then (Ret es, w) else (Exc (OSError p), w))
    | _ \<Rightarrow> (Exc (OSError p), w))"

text \<open>The first argument is what is left of the interpreter's recursion limit.\<close>

primrec list_directory :: "nat \<Rightarrow> sys \<Rightarrow> bool \<Rightarrow> string \<Rightarrow> unit tsi" where
  "list_directory 0 = (\<lambda>S recursive path. throw (RuntimeError ''maximum recursion depth exceeded''))"
| "list_directory (Suc n) = (\<lambda>S recursive path.
     bnd (os_listdir S path) (\<lambda>entries.
     for_each entries (\<lambda>entry.
       let full_path = path_join path entry in
       bnd (path_isdir full_path) (\<lambda>d.
       bnd (if recursive \<and> d
            then bnd (list_directory n S recursive full_path) (\<lambda>_. write_message (Some ''<''))
            else ret ()) (\<lambda>_.
       catch (bnd (get_info S full_path) (\<lambda>file_info. write_message (Some file_info))) (\<lambda>e. ret ()))))))"

definition ls_cmd :: "sys \<Rightarrow> string \<Rightarrow> unit tsi" where
  "ls_cmd S msg =
     bnd (expanded (extract_parameter msg ''FILE'' None)) (\<lambda>path.
     let mode = extract_parameter msg ''LS_MODE'' None in
     if mode \<notin> Some ` {''R'', ''A'', ''N''} then
       failed (Some (''Unknown TSI_LS mode: '' @ [CHR 0x27] @ (case mode of None \<Rightarrow> ''None'' | Some m \<Rightarrow> m)
         @ [CHR 0x27] @ '', must be one of '' @ [CHR 0x27] @ ''R'' @ [CHR 0x27] @ '', '' @ [CHR 0x27] @ ''A''
         @ [CHR 0x27] @ '' or '' @ [CHR 0x27] @ ''N'' @ [CHR 0x27] @ ''.''))
     else
       bnd (ok (Some ''START_LISTING'')) (\<lambda>_.
       bnd (path_exists path) (\<lambda>e.
       bnd (whenP e
              (catch
                 (bnd (path_isdir path) (\<lambda>d.
                  if d \<and> mode \<noteq> Some ''A'' then list_directory (max_depth S) S (mode = Some ''R'') path
                  else bnd (get_info S path) (\<lambda>info. write_message (Some info))))
                 (\<lambda>x. if only_oserror x then ret () else throw x))) (\<lambda>_.
       write_message (Some ''END_LISTING'')))))"

section \<open>Free space\<close>

text \<open>The expression \<open>(\S+)\s+(\d+)\s+(\d+)\s+(\d+).+\<close>.\<close>

definition rx_df :: "rx list" where
  "rx_df = [Open, plus nonspace, Close, plus is_space, Open, plus is_digit, Close, plus is_space,
     Open, plus is_digit, Close, plus is_space, Open, plus is_digit, Close, plus dot]"

fun df_scan :: "string \<times> string \<Rightarrow> string list \<Rightarrow> string \<times> string" where
  "df_scan tf [] = tf"
| "df_scan tf (l # ls) =
     (case re_match rx_df l of
        None \<Rightarrow> df_scan tf ls
      | Some (caps, _) \<Rightarrow> df_scan (caps ! 1, caps ! 3) ls)"

definition df_cmd :: "sys \<Rightarrow> string \<Rightarrow> unit tsi" where
  "df_cmd S msg =
     bnd (expanded (extract_parameter msg ''FILE'' None)) (\<lambda>path.
     bnd (cfg_get ''tsi.use_login_shell'' (CBool True)) (\<lambda>login_shell.
     bnd (run_command S (''df -P -B 1 '' @ path) False False (truthy login_shell)) (\<lambda>(success, result).
     if success then
       (let tf = df_scan (''-1'', ''-1'') (splitlines result) in
        bnd (ok (Some ''START_DF'')) (\<lambda>_.
        bnd (write_message (Some (''TOTAL '' @ fst tf))) (\<lambda>_.
        bnd (write_message (Some (''FREE '' @ snd tf))) (\<lambda>_.
        bnd (write_message (Some ''USER -1'')) (\<lambda>_.
        write_message (Some ''END_DF''))))))
     else failed (Some result))))"

section \<open>Copying is exact\<close>

lemma clip_bounds: "0 < n \<Longrightarrow> 0 < clip k n \<and> clip k n \<le> n"
  by (simp add: clip_def)

lemma clip_full: "n \<le> k \<Longrightarrow> 0 < n \<Longrightarrow> clip k n = n"
  by (simp add: clip_def)

lemma slice_0 [simp]: "slice 0 n xs = take n xs"
  by (simp add: slice_def)

lemma read_chunks_eof:
  "length content \<le> pos \<Longrightarrow> read_chunks S content pos buf t r = (buf, t)"
  by (subst read_chunks.simps) (simp add: Let_def)

text \<open>When reads are not cut short one read suffices, and the buffer starts with the data.\<close>

lemma read_chunks_full:
  assumes full: "\<And>k n. n \<le> read_limit S k n" and len: "length buf = n"
  shows "read_chunks S content pos buf 0 (int n) =
    (take n (drop pos content) @ drop (length (take n (drop pos content))) buf, length (take n (drop pos content)))"
proof -
  define k where "k = min n (length content - pos)"
  have kl: "length (take n (drop pos content)) = k" by (simp add: k_def)
  show ?thesis
  proof (cases "k = 0")
    case True
    then have "take n (drop pos content) = []" using kl by (metis length_0_conv)
    moreover from True have "n = 0 \<or> length content \<le> pos" by (auto simp: k_def)
    ultimately show ?thesis using len
      by (elim disjE) (simp_all add: read_chunks_eof, subst read_chunks.simps, simp)
  next
    case False
    then have c: "clip (read_limit S pos k) k = k" using full clip_full by simp
    have sl: "slice pos (pos + k) content = take n (drop pos content)"
      by (simp add: slice_def drop_take k_def min_def)
    have "read_chunks S content pos buf 0 (int n) =
        read_chunks S content (pos + k) (take n (drop pos content) @ drop k buf) k (int n - int k)"
      by (subst read_chunks.simps) (use False len c sl in \<open>simp add: Let_def k_def [symmetric]\<close>,
          use False in \<open>simp add: k_def\<close>)
    moreover have "n \<le> k \<or> length content \<le> pos + k" by (auto simp: k_def)
    then have "read_chunks S content (pos + k) b k (int n - int k) = (b, k)" for b
      by (elim disjE) (simp_all add: read_chunks.simps [of S content "pos + k" b] read_chunks_eof)
    ultimately show ?thesis using kl by simp
  qed
qed

lemma write_chunks_all:
  assumes "n \<le> length buf"
  shows "write_chunks Sockets buf n 0 (int n) w = (Ret (), w\<lparr>dat_out := dat_out w @ take n buf\<rparr>)"
proof (cases "n = 0")
  case True
  then show ?thesis by (subst write_chunks.simps) (simp add: run_simps)
next
  case False
  have "write_chunks Sockets buf n n 0 v = (Ret (), v)" for v
    by (subst write_chunks.simps) (simp add: run_simps)
  with False assms show ?thesis
    by (subst write_chunks.simps) (simp add: run_simps write_data_def Let_def min_def)
qed

lemma write_chunks_overrun:
  assumes "length buf < t" and "0 < t"
  shows "fst (write_chunks Sockets buf t 0 (int t) w) = Loops"
proof (cases "buf = []")
  case True
  with assms show ?thesis by (subst write_chunks.simps) (simp add: run_simps write_data_def diverge_def Let_def)
next
  case False
  have "slice (length buf) t buf = []" by (simp add: slice_def)
  then have "fst (write_chunks Sockets buf t (length buf) (int t - int (length buf)) v) = Loops" for v
    using assms by (subst write_chunks.simps) (simp add: run_simps write_data_def diverge_def)
  with False assms show ?thesis
    by (subst write_chunks.simps) (simp add: run_simps write_data_def Let_def min_def)
qed

definition file_at :: "world \<Rightarrow> string \<Rightarrow> fnode option" where
  "file_at w p = files w (abs_path w p)"

lemma flush_buf_run:
  "file_at w p = Some (FFile c m) \<Longrightarrow> length buf = n \<Longrightarrow>
    flush_buf S p buf n w = (Ret (), w\<lparr>files := (files w)(abs_path w p \<mapsto> FFile (c @ buf) m)\<rparr>)"
proof (induction n arbitrary: buf c w rule: less_induct)
  case (less n)
  show ?case
  proof (cases n)
    case 0
    with less.prems show ?thesis by (simp add: run_simps file_at_def fun_upd_idem)
  next
    case (Suc j)
    define k where "k = clip (write_limit S (length c) n) n"
    have k: "0 < k" "k \<le> n" using Suc by (simp_all add: k_def clip_bounds)
    let ?w = "w\<lparr>files := (files w)(abs_path w p \<mapsto> FFile (c @ take k buf) m)\<rparr>"
    have ab: "abs_path ?w p = abs_path w p" by (simp add: abs_path_def)
    have ne: "buf \<noteq> []" using Suc less.prems by auto
    have "file_write S p buf w = (Ret k, ?w)"
      using less.prems ne by (simp add: file_write_def file_at_def k_def Let_def)
    moreover have "flush_buf S p (drop k buf) (n - k) ?w =
        (Ret (), ?w\<lparr>files := (files ?w)(abs_path ?w p \<mapsto> FFile ((c @ take k buf) @ drop k buf) m)\<rparr>)"
      by (rule less.IH) (use k less.prems in \<open>simp_all add: file_at_def ab\<close>)
    ultimately show ?thesis using Suc k by (simp add: run_simps ab) (simp add: fun_upd_def)
  qed
qed

lemma read_data_run: "read_data n w = (Ret (take (min n buf_size) (dat_in w)), w\<lparr>dat_in := drop (min n buf_size) (dat_in w)\<rparr>)"
  by (simp add: read_data_def Let_def)

lemma copy_data_run:
  "file_at w p = Some (FFile c m) \<Longrightarrow> n \<le> length (dat_in w) \<Longrightarrow>
    copy_data Sockets S p (int n) w = (Ret (), w\<lparr>dat_in := drop n (dat_in w),
      files := (files w)(abs_path w p \<mapsto> FFile (c @ take n (dat_in w)) m)\<rparr>)"
proof (induction n arbitrary: c w rule: less_induct)
  case (less n)
  show ?case
  proof (cases "n = 0")
    case True
    with less.prems show ?thesis
      by (subst copy_data_sockets) (simp add: run_simps file_at_def fun_upd_idem)
  next
    case False
    define k where "k = min n buf_size"
    have k: "0 < k" "k \<le> n" using False by (simp_all add: k_def buf_size_def)
    let ?b = "take k (dat_in w)"
    let ?v = "w\<lparr>dat_in := drop k (dat_in w)\<rparr>"
    let ?w = "?v\<lparr>files := (files w)(abs_path w p \<mapsto> FFile (c @ ?b) m)\<rparr>"
    have ab: "abs_path ?w p = abs_path w p" "abs_path ?v p = abs_path w p" by (simp_all add: abs_path_def)
    have lb: "length ?b = k" using k less.prems by simp
    have fl: "flush_buf S p ?b (length ?b) ?v = (Ret (), ?w)"
      using flush_buf_run [of ?v p c m ?b "length ?b" S] less.prems by (simp add: file_at_def ab)
    have rest: "copy_data Sockets S p (int (n - k)) ?w = (Ret (), ?w\<lparr>dat_in := drop (n - k) (dat_in ?w),
        files := (files ?w)(abs_path ?w p \<mapsto> FFile ((c @ ?b) @ take (n - k) (dat_in ?w)) m)\<rparr>)"
      by (rule less.IH) (use k less.prems in \<open>simp_all add: file_at_def ab\<close>)
    have split: "take k d @ take (n - k) (drop k d) = take n d" for d :: string
      using k by (metis le_add_diff_inverse take_add)
    have ne: "dat_in w \<noteq> []" using False less.prems by auto
    from False lb k fl rest ne show ?thesis
      by (subst copy_data_sockets)
        (simp add: run_simps read_data_run k_def [symmetric] ab of_nat_diff split)
  qed
qed

section \<open>Properties of the file transfer\<close>

text \<open>A request about a file: what its parameters are after parsing and expansion.\<close>

definition reads_file :: "sys \<Rightarrow> world \<Rightarrow> string \<Rightarrow> string \<Rightarrow> bool" where
  "reads_file S w path c \<longleftrightarrow> may S (cred w) (abs_path w path) 4 \<and> (\<exists>m. file_at w path = Some (FFile c m))"

definition chunk_request :: "string \<Rightarrow> world \<Rightarrow> string \<Rightarrow> nat \<Rightarrow> nat \<Rightarrow> bool" where
  "chunk_request msg w path start len \<longleftrightarrow>
     map_option (expand_variables (environ w)) (extract_parameter msg ''FILE'' None) = Some path \<and>
     Option.bind (extract_parameter msg ''START'' None) py_int = Some (int start) \<and>
     Option.bind (extract_parameter msg ''LENGTH'' None) py_int = Some (int len)"

lemma get_file_chunk_run:
  assumes "chunk_request msg w path start len" and "reads_file S w path c"
  shows "get_file_chunk C S msg w =
    (let r = read_chunks S c start (replicate len (CHR 0x00)) 0 (int len) in
     write_chunks C (fst r) (snd r) 0 (int (snd r))
       (w\<lparr>ctl_out := ctl_out w @ ''TSI_OK'' @ [NL] @ (''TSI_LENGTH '' @ show_int (int (snd r)) @ [NL] @ ''ENDOFMESSAGE'') @ [NL]\<rparr>))"
proof -
  obtain f a b where "extract_parameter msg ''FILE'' None = Some f" "expand_variables (environ w) f = path"
      "extract_parameter msg ''START'' None = Some a" "py_int a = Some (int start)"
      "extract_parameter msg ''LENGTH'' None = Some b" "py_int b = Some (int len)"
    using assms(1) by (auto simp: chunk_request_def bind_eq_Some_conv)
  moreover obtain m where "files w (abs_path w path) = Some (FFile c m)" "may S (cred w) (abs_path w path) 4"
    using assms(2) by (auto simp: reads_file_def file_at_def)
  ultimately show ?thesis
    by (simp add: get_file_chunk_def expanded_def req_str_def int_param_def run_simps open_read_def Let_def)
qed

text \<open>
  C19: Reading a chunk. When the kernel does not cut reads short, \<open>get_file_chunk\<close> terminates, sends
  exactly the requested slice of the file (shorter only at the end of the file) over the data channel,
  and announces its exact length on the control channel.
\<close>

theorem get_file_chunk_exact:
  assumes "chunk_request msg w path start len" and "reads_file S w path c"
    and "\<forall>k n. n \<le> read_limit S k n"
  shows "get_file_chunk Sockets S msg w = (Ret (), w\<lparr>
    ctl_out := ctl_out w @ ''TSI_OK'' @ [NL] @ ''TSI_LENGTH '' @ show_int (int (length (take len (drop start c)))) @ [NL]
      @ ''ENDOFMESSAGE'' @ [NL],
    dat_out := dat_out w @ take len (drop start c)\<rparr>)"
proof -
  define d where "d = take len (drop start c)"
  have r: "read_chunks S c start (replicate len (CHR 0x00)) 0 (int len) =
      (d @ drop (length d) (replicate len (CHR 0x00)), length d)"
    unfolding d_def using assms(3) by (intro read_chunks_full) simp_all
  show ?thesis
    unfolding get_file_chunk_run [OF assms(1,2)] r Let_def fst_conv snd_conv d_def [symmetric]
    by (subst write_chunks_all) simp_all
qed

definition sample_meta :: meta where
  "sample_meta = \<lparr>st_mode = 33188, st_uid = 1000, st_gid = 100, st_mtime = 500\<rparr>"

definition sample_files :: "string \<Rightarrow> fnode option" where
  "sample_files = [''/tmp'' \<mapsto> FDir [''a''] (sample_meta\<lparr>st_mode := 16877\<rparr>), ''/tmp/a'' \<mapsto> FFile ''hello world'' sample_meta]"

definition sample_file_world :: world where
  "sample_file_world = (sample_world True)\<lparr>files := sample_files, dat_in := ''new data''\<rparr>"

lemma sample_file_fields [simp]:
  "environ sample_file_world = Map.empty" "files sample_file_world = sample_files"
  "cred sample_file_world = root_cred" "cwd sample_file_world = ''/''" "dat_in sample_file_world = ''new data''"
  "dat_out sample_file_world = []" "ctl_out sample_file_world = []"
  by (simp_all add: sample_file_world_def) (simp add: sample_world_def)

lemma sample_abs [simp]: "abs_path sample_file_world ''/tmp/a'' = ''/tmp/a''"
  by (simp add: abs_path_def)

lemma sample_reads: "reads_file sample_sys sample_file_world ''/tmp/a'' ''hello world''"
  by (simp add: reads_file_def file_at_def sample_files_def) (simp add: sample_sys_def)

definition sample_get :: string where
  "sample_get = request [(''FILE'', ''/tmp/a''), (''START'', ''6''), (''LENGTH'', ''4'')]"

lemma sample_chunk: "chunk_request sample_get sample_file_world ''/tmp/a'' 6 4"
proof -
  have ps: "list_all param_ok [(''FILE'', ''/tmp/a''), (''START'', ''6''), (''LENGTH'', ''4'')]" by (simp add: param_ok_def)
  have "py_int ''6'' = Some 6" "py_int ''4'' = Some 4" "expand_variables Map.empty ''/tmp/a'' = ''/tmp/a''" by code_simp+
  then show ?thesis by (simp add: chunk_request_def sample_get_def extract_parameter_request [OF ps])
qed

theorem get_file_chunk_exact_witness:
  "fst (get_file_chunk Sockets sample_sys sample_get sample_file_world) = Ret () \<and>
   dat_out (snd (get_file_chunk Sockets sample_sys sample_get sample_file_world)) = ''worl''"
proof -
  have "\<forall>k n. n \<le> read_limit sample_sys k n" by (simp add: sample_sys_def)
  from get_file_chunk_exact [OF sample_chunk sample_reads this] show ?thesis by simp
qed

text \<open>
  When the kernel cuts the first read of a chunk short although more data is there, the next read
  overwrites the buffer from its start, more bytes are counted than the buffer has, and the write loop
  never ends: the request is never completed.
\<close>

theorem get_file_chunk_short_read_diverges:
  assumes "chunk_request msg w path start len" and "reads_file S w path c"
    and "start + k + len \<le> length c" and "0 < k" and "k < len"
    and "read_limit S start len = k" and "len \<le> read_limit S (start + k) len"
  shows "fst (get_file_chunk Sockets S msg w) = Loops"
proof -
  let ?b = "replicate len (CHR 0x00)"
  have c1: "clip (read_limit S start len) len = k" using assms by (simp add: clip_def)
  have c2: "clip (read_limit S (start + k) len) len = len" using assms by (intro clip_full) simp_all
  have l: "length (slice i (i + j) c @ drop j b) = len" if "i + j \<le> length c" "j \<le> len" "length b = len" for i j b
    using that by (simp add: slice_def)
  have "read_chunks S c start ?b 0 (int len) =
      read_chunks S c (start + k) (slice start (start + k) c @ drop k ?b) k (int len - int k)"
    by (subst read_chunks.simps) (use assms c1 in \<open>simp add: Let_def min_absorb1\<close>)
  also have "\<dots> = read_chunks S c (start + k + len)
      (slice (start + k) (start + k + len) c @ drop len (slice start (start + k) c @ drop k ?b)) (k + len) (int len - int k - int len)"
    by (subst read_chunks.simps) (use assms c2 l [of start k ?b] in \<open>simp add: Let_def min_absorb1\<close>)
  also have "\<dots> = (slice (start + k) (start + k + len) c @ drop len (slice start (start + k) c @ drop k ?b), k + len)"
    using assms by (subst read_chunks.simps) simp
  finally have r: "read_chunks S c start ?b 0 (int len) = \<dots>" .
  show ?thesis
    unfolding get_file_chunk_run [OF assms(1,2)] r Let_def fst_conv snd_conv
    by (rule write_chunks_overrun) (use assms l [of "start + k" len "slice start (start + k) c @ drop k ?b"] l [of start k ?b] in simp_all)
qed

theorem get_file_chunk_short_read_diverges_witness:
  "fst (get_file_chunk Sockets (sample_sys\<lparr>read_limit := (\<lambda>k n. if k = 6 then 1 else n)\<rparr>) sample_get sample_file_world) = Loops"
proof -
  have "reads_file (sample_sys\<lparr>read_limit := (\<lambda>k n. if k = 6 then 1 else n)\<rparr>) sample_file_world ''/tmp/a'' ''hello world''"
    using sample_reads by (simp add: reads_file_def)
  from get_file_chunk_short_read_diverges [OF sample_chunk this, of 1] show ?thesis by (simp del: One_nat_def)
qed

section \<open>Properties of writing\<close>

definition put_request :: "string \<Rightarrow> world \<Rightarrow> string \<Rightarrow> string \<Rightarrow> bool \<Rightarrow> nat \<Rightarrow> bool" where
  "put_request msg w path mode keep len \<longleftrightarrow>
     (\<exists>pm i. extract_parameter msg ''FILE'' None = Some pm \<and> rindex (CHR '' '') pm = Some i \<and>
        expand_variables (environ w) (take i pm) = path \<and> drop (i + 1) pm = mode) \<and>
     (extract_parameter msg ''FILESACTION'' None = Some ''3'' \<longleftrightarrow> keep) \<and>
     Option.bind (extract_parameter msg ''LENGTH'' None) py_int = Some (int len)"

definition put_reply :: string where
  "put_reply = ''TSI_OK'' @ [NL] @ ''ENDOFMESSAGE'' @ [NL]"

lemma put_file_chunk_run:
  assumes "put_request msg w path mode keep len"
  shows "put_file_chunk C S msg w =
    bnd (open_write S path keep) (\<lambda>_. bnd (ok (Some ''ENDOFMESSAGE'')) (\<lambda>_.
      bnd (copy_data C S path (int len)) (\<lambda>_. set_requested_mode path mode))) w"
proof -
  obtain pm i b where "extract_parameter msg ''FILE'' None = Some pm" "rindex (CHR '' '') pm = Some i"
      "expand_variables (environ w) (take i pm) = path" "drop (i + 1) pm = mode"
      "extract_parameter msg ''LENGTH'' None = Some b" "py_int b = Some (int len)"
      "(extract_parameter msg ''FILESACTION'' None = Some ''3'') = keep"
    using assms by (auto simp: put_request_def bind_eq_Some_conv)
  then show ?thesis
    by (simp add: put_file_chunk_def req_str_def expanded_def int_param_def bnd_run [of "gets f" for f]
        bnd_run [of "of_opt e v" for e v] gets_run of_opt_run Let_def del: One_nat_def)
      (auto simp: run_simps split: option.split)
qed

lemma abs_path_cong: "cwd w' = cwd w \<Longrightarrow> abs_path w' p = abs_path w p"
  by (simp add: abs_path_def)

lemma set_requested_mode_run:
  assumes "file_at w p = Some (FFile c m)" and "py_int8 mode = Some i" and "c_int_range i"
  shows "\<exists>m'. set_requested_mode p mode w = (Ret (), w\<lparr>files := (files w)(abs_path w p \<mapsto> FFile c m')\<rparr>)"
proof (cases "euid (cred w) = 0 \<or> euid (cred w) = st_uid m")
  case True
  with assms show ?thesis
    by (auto simp: set_requested_mode_def run_simps os_chmod_def file_at_def)
next
  case False
  with assms have "set_requested_mode p mode w = (Ret (), w\<lparr>files := (files w)(abs_path w p \<mapsto> FFile c m)\<rparr>)"
    by (simp add: set_requested_mode_def run_simps os_chmod_def file_at_def only_oserror_def fun_upd_idem)
  then show ?thesis by blast
qed

text \<open>The file can be opened for writing; \<open>old\<close> is what it holds.\<close>

definition writes_file :: "sys \<Rightarrow> world \<Rightarrow> string \<Rightarrow> string \<Rightarrow> bool" where
  "writes_file S w path old \<longleftrightarrow> may S (cred w) (abs_path w path) 2 \<and>
     (case file_at w path of
        Some (FFile c _) \<Rightarrow> old = c
      | Some (FDir _ _) \<Rightarrow> False
      | None \<Rightarrow> old = [] \<and> (\<exists>es m. files w (dirname (abs_path w path)) = Some (FDir es m)))"

lemma open_write_run:
  assumes "writes_file S w path old"
  obtains fs m where "open_write S path keep w = (Ret (), w\<lparr>files := fs\<rparr>)"
    and "fs (abs_path w path) = Some (FFile (if keep then old else []) m)"
    and "\<And>q. q \<noteq> abs_path w path \<Longrightarrow> q \<noteq> dirname (abs_path w path) \<Longrightarrow> fs q = files w q"
proof (cases "file_at w path")
  case None
  then obtain es m where d: "files w (dirname (abs_path w path)) = Some (FDir es m)" "old = []"
      "files w (abs_path w path) = None"
    using assms by (auto simp: writes_file_def file_at_def)
  show ?thesis
    by (rule that [of "(files w)(dirname (abs_path w path) \<mapsto> FDir (es @ [basename (abs_path w path)]) m,
          abs_path w path \<mapsto> new_file S w)"])
      (use assms d in \<open>auto simp: open_write_def Let_def writes_file_def new_file_def\<close>)
next
  case (Some f)
  then obtain m where f: "files w (abs_path w path) = Some (FFile old m)"
    using assms by (cases f) (auto simp: writes_file_def file_at_def)
  show ?thesis
    by (rule that [of "(files w)(abs_path w path \<mapsto> FFile (if keep then old else []) m)" m])
      (use assms f in \<open>auto simp: open_write_def Let_def writes_file_def\<close>)
qed


lemma copy_data_short:
  "file_at w p = Some (FFile c m) \<Longrightarrow> length (dat_in w) < n \<Longrightarrow> fst (copy_data Sockets S p (int n) w) = Loops"
proof (induction n arbitrary: c w rule: less_induct)
  case (less n)
  define k where "k = min n buf_size"
  have k: "0 < k" "k \<le> n" using less.prems by (simp_all add: k_def buf_size_def)
  let ?b = "take k (dat_in w)" and ?v = "w\<lparr>dat_in := drop k (dat_in w)\<rparr>"
  let ?w = "?v\<lparr>files := (files w)(abs_path w p \<mapsto> FFile (c @ ?b) m)\<rparr>"
  have ab: "abs_path ?w p = abs_path w p" "abs_path ?v p = abs_path w p" by (simp_all add: abs_path_def)
  show ?case
  proof (cases "dat_in w = []")
    case True
    with less.prems show ?thesis
      by (subst copy_data_sockets) (simp add: run_simps read_data_run diverge_def)
  next
    case False
    have fl: "flush_buf S p ?b (length ?b) ?v = (Ret (), ?w)"
      using flush_buf_run [of ?v p c m ?b "length ?b" S] less.prems by (simp add: file_at_def ab)
    have "fst (copy_data Sockets S p (int (n - length ?b)) ?w) = Loops"
      by (rule less.IH) (use k False less.prems in \<open>auto simp: file_at_def ab\<close>)
    moreover have "int (n - length ?b) = int n - int (length ?b)" using k by simp
    ultimately show ?thesis using False k fl less.prems
      by (subst copy_data_sockets) (simp add: run_simps read_data_run k_def [symmetric])
  qed
qed

text \<open>
  When the client closes the data channel before it has sent the announced number of bytes,
  \<open>put_file_chunk\<close> never returns: it keeps reading nothing.
\<close>

theorem put_file_chunk_truncated_diverges:
  assumes "put_request msg w path mode keep len" and "writes_file S w path old" and "length (dat_in w) < len"
  shows "fst (put_file_chunk Sockets S msg w) = Loops"
proof -
  obtain fs m where o: "open_write S path keep w = (Ret (), w\<lparr>files := fs\<rparr>)"
      "fs (abs_path w path) = Some (FFile (if keep then old else []) m)"
    using open_write_run [OF assms(2), of keep] by metis
  define v where "v = w\<lparr>files := fs, ctl_out := ctl_out w @ put_reply\<rparr>"
  have "file_at v path = Some (FFile (if keep then old else []) m)"
    using o by (simp add: file_at_def v_def)
  moreover have "length (dat_in v) < len" using assms(3) by (simp add: v_def)
  ultimately have "fst (copy_data Sockets S path (int len) v) = Loops" by (rule copy_data_short)
  moreover have "ok (Some ''ENDOFMESSAGE'') (w\<lparr>files := fs\<rparr>) = (Ret (), v)"
    by (simp add: run_simps v_def put_reply_def)
  ultimately show ?thesis
    unfolding put_file_chunk_run [OF assms(1)]
    by (cases "copy_data Sockets S path (int len) v") (simp add: bnd_run o(1))
qed

definition sample_put :: "string \<Rightarrow> string" where
  "sample_put len = request [(''FILE'', ''/tmp/a 600''), (''FILESACTION'', ''3''), (''LENGTH'', len)]"

lemma sample_put_request:
  assumes "NL \<notin> set len" and "py_int len = Some (int n)" and "len \<noteq> []"
  shows "put_request (sample_put len) sample_file_world ''/tmp/a'' ''600'' True n"
proof -
  have ps: "list_all param_ok [(''FILE'', ''/tmp/a 600''), (''FILESACTION'', ''3''), (''LENGTH'', len)]"
    using assms by (simp add: param_ok_def)
  have i: "rindex (CHR '' '') ''/tmp/a 600'' = Some 6" by code_simp
  have "take 6 ''/tmp/a 600'' = ''/tmp/a''" "drop (6 + 1) ''/tmp/a 600'' = ''600''" by code_simp+
  moreover have "expand_variables Map.empty ''/tmp/a'' = ''/tmp/a''" by code_simp
  ultimately have "\<exists>pm i. extract_parameter (sample_put len) ''FILE'' None = Some pm \<and> rindex (CHR '' '') pm = Some i \<and>
        expand_variables (environ sample_file_world) (take i pm) = ''/tmp/a'' \<and> drop (i + 1) pm = ''600''"
    by (intro exI [of _ "''/tmp/a 600''"] exI [of _ 6] conjI)
      (use i in \<open>simp_all add: sample_put_def extract_parameter_request [OF ps]\<close>)
  then show ?thesis using assms
    unfolding put_request_def by (simp add: sample_put_def extract_parameter_request [OF ps])
qed

lemma sample_writes: "writes_file sample_sys sample_file_world ''/tmp/a'' ''hello world''"
  by (simp add: writes_file_def file_at_def sample_files_def) (simp add: sample_sys_def)


theorem put_file_chunk_truncated_diverges_witness:
  "fst (put_file_chunk Sockets sample_sys (sample_put ''9'') sample_file_world) = Loops"
proof -
  have "py_int ''9'' = Some (int 9)" by code_simp
  from sample_put_request [OF _ this] have r: "put_request (sample_put ''9'') sample_file_world ''/tmp/a'' ''600'' True 9"
    by simp
  from put_file_chunk_truncated_diverges [OF r sample_writes] show ?thesis by simp
qed

section \<open>Properties of listings\<close>

text \<open>What \<open>get_info\<close> computes, as a function of the world.\<close>

definition info_text :: "sys \<Rightarrow> world \<Rightarrow> string \<Rightarrow> exn + string" where
  "info_text S w p = (case fst (get_info S p w) of Ret s \<Rightarrow> Inr s | Exc e \<Rightarrow> Inl e | _ \<Rightarrow> Inl TypeError)"

lemma get_info_run: "get_info S p w = (case info_text S w p of Inl e \<Rightarrow> (Exc e, w) | Inr s \<Rightarrow> (Ret s, w))"
  by (auto simp: info_text_def get_info_def run_simps stat_node_def os_access_def Let_def split: option.split)

lemma info_text_out: "info_text S (w\<lparr>ctl_out := x\<rparr>) p = info_text S w p"
  by (simp add: info_text_def get_info_def run_simps stat_node_def os_access_def Let_def split: option.split)

lemma count_no_newline [simp]: "count_list (no_newline s) NL = 0"
  by (auto simp: count_list_0_iff no_newline_def)

lemma digits_no_newline [simp]: "count_list (show_int i) NL = 0"
  using no_space_NL [OF show_int_no_space] by (simp add: count_list_0_iff)

lemma perm_no_newline [simp]: "count_list (perm_string m) NL = 0"
  by (simp add: perm_string_def mode_table_def)

text \<open>
  The record of a file in a listing is always two lines: the one newline separates them, whatever
  characters the path contains (names of users and groups contain no newline). A file name cannot
  forge an entry.
\<close>

theorem get_info_two_lines:
  assumes "get_info S p w = (Ret s, w')" and "\<forall>i n. pwuid S i = Some n \<longrightarrow> NL \<notin> set n"
    and "\<forall>i n. grgid S i = Some n \<longrightarrow> NL \<notin> set n"
  shows "count_list s NL = 1 \<and> w' = w"
  using assms
  by (auto simp: get_info_def returns stat_node_def os_access_def Let_def flag_char_def count_list_0_iff)

lemma sample_owner: "pwuid sample_sys 1000 = Some ''alice''" "grgid sample_sys 100 = Some ''users''"
  by (simp_all add: sample_sys_def)

theorem get_info_two_lines_witness:
  "\<exists>s w'. get_info sample_sys ''/tmp/a'' sample_file_world = (Ret s, w') \<and> count_list s NL = 1"
proof -
  have "\<exists>s. get_info sample_sys ''/tmp/a'' sample_file_world = (Ret s, sample_file_world)"
    by (simp add: get_info_def run_simps stat_node_def os_access_def Let_def sample_files_def sample_meta_def
        sample_owner)
  moreover have "\<forall>i n. pwuid sample_sys i = Some n \<longrightarrow> NL \<notin> set n" "\<forall>i n. grgid sample_sys i = Some n \<longrightarrow> NL \<notin> set n"
    by (auto simp: sample_sys_def split: if_splits)
  ultimately show ?thesis using get_info_two_lines by metis
qed

text \<open>
  The directory tree below a path, and the text of its recursive listing: for a sub-directory first
  its entries, then a line \<open><\<close>, then its own record. An entry that cannot be examined is left out.
\<close>

datatype dtree = FileE string | DirE string "dtree list"

fun ename :: "dtree \<Rightarrow> string" where
  "ename (FileE e) = e"
| "ename (DirE e ts) = e"

fun depth :: "dtree \<Rightarrow> nat" where
  "depth (FileE e) = 0"
| "depth (DirE e ts) = Suc (fold max (map depth ts) 0)"

definition dir_holds :: "sys \<Rightarrow> world \<Rightarrow> string \<Rightarrow> dtree list \<Rightarrow> bool" where
  "dir_holds S w p ts \<longleftrightarrow> may S (cred w) (abs_path w p) 4 \<and> (\<exists>m. file_at w p = Some (FDir (map ename ts) m))"

fun tree_at :: "sys \<Rightarrow> world \<Rightarrow> string \<Rightarrow> dtree \<Rightarrow> bool" where
  "tree_at S w p (FileE e) = (\<forall>es m. file_at w (path_join p e) \<noteq> Some (FDir es m))"
| "tree_at S w p (DirE e ts) = (dir_holds S w (path_join p e) ts \<and> list_all (tree_at S w (path_join p e)) ts)"

definition info_line :: "sys \<Rightarrow> world \<Rightarrow> string \<Rightarrow> string" where
  "info_line S w p = (case info_text S w p of Inl e \<Rightarrow> [] | Inr i \<Rightarrow> i @ [NL])"

fun render :: "sys \<Rightarrow> world \<Rightarrow> string \<Rightarrow> dtree \<Rightarrow> string" where
  "render S w p (FileE e) = info_line S w (path_join p e)"
| "render S w p (DirE e ts) =
     concat (map (render S w (path_join p e)) ts) @ ''<'' @ [NL] @ info_line S w (path_join p e)"

lemma fold_max_le: "fold max xs (a :: nat) \<le> n \<longleftrightarrow> a \<le> n \<and> (\<forall>x \<in> set xs. x \<le> n)"
  by (induction xs arbitrary: a) auto

lemma out_simps [simp]:
  "file_at (w\<lparr>ctl_out := x\<rparr>) p = file_at w p"
  "dir_holds S (w\<lparr>ctl_out := x\<rparr>) p ts = dir_holds S w p ts"
  "info_line S (w\<lparr>ctl_out := x\<rparr>) p = info_line S w p"
  by (simp_all add: file_at_def dir_holds_def info_line_def info_text_out)

lemma tree_at_out [simp]: "tree_at S (w\<lparr>ctl_out := x\<rparr>) p t = tree_at S w p t"
  by (induction t arbitrary: p) (auto simp: list_all_iff)

lemma render_out [simp]: "render S (w\<lparr>ctl_out := x\<rparr>) p t = render S w p t"
  by (induction t arbitrary: p) (auto cong: map_cong)

lemma info_line_write:
  "catch (bnd (get_info S p) (\<lambda>i. write_message (Some i))) (\<lambda>e. ret ()) w =
    (Ret (), w\<lparr>ctl_out := ctl_out w @ info_line S w p\<rparr>)"
  by (simp add: run_simps get_info_run info_line_def split: sum.split)

lemma for_each_writes:
  assumes "\<And>x t. x \<in> set xs \<Longrightarrow> f x (w\<lparr>ctl_out := t\<rparr>) = (Ret (), w\<lparr>ctl_out := t @ g x\<rparr>)"
  shows "for_each xs f (w\<lparr>ctl_out := t\<rparr>) = (Ret (), w\<lparr>ctl_out := t @ concat (map g xs)\<rparr>)"
  using assms by (induction xs arbitrary: t) (simp_all add: run_simps)

lemma list_directory_run:
  "dir_holds S w p ts \<Longrightarrow> list_all (tree_at S w p) ts \<Longrightarrow> fold max (map depth ts) 0 < n \<Longrightarrow>
    list_directory n S True p (w\<lparr>ctl_out := t\<rparr>) = (Ret (), w\<lparr>ctl_out := t @ concat (map (render S w p) ts)\<rparr>)"
proof (induction n arbitrary: p ts t)
  case (Suc n)
  let ?f = "\<lambda>e. let full_path = path_join p e in
       bnd (path_isdir full_path) (\<lambda>d.
       bnd (if True \<and> d then bnd (list_directory n S True full_path) (\<lambda>_. write_message (Some ''<'')) else ret ()) (\<lambda>_.
       catch (bnd (get_info S full_path) (\<lambda>file_info. write_message (Some file_info))) (\<lambda>e. ret ())))"
  have step: "?f (ename x) (w\<lparr>ctl_out := o1\<rparr>) = (Ret (), w\<lparr>ctl_out := o1 @ render S w p x\<rparr>)"
    if x: "x \<in> set ts" for x o1
  proof (cases x)
    case (FileE e)
    with x Suc.prems have nd: "\<And>es m. file_at w (path_join p e) \<noteq> Some (FDir es m)" by (auto simp: list_all_iff)
    then have "path_isdir (path_join p e) (w\<lparr>ctl_out := o1\<rparr>) = (Ret False, w\<lparr>ctl_out := o1\<rparr>)"
      by (auto simp: path_isdir_def run_simps file_at_def split: option.split fnode.split)
    with FileE show ?thesis
      by (simp add: Let_def bnd_run ret_run info_line_write del: catch_run)
  next
    case (DirE e us)
    with x Suc.prems have d: "dir_holds S w (path_join p e) us" "list_all (tree_at S w (path_join p e)) us"
      by (auto simp: list_all_iff)
    then have pd: "path_isdir (path_join p e) (w\<lparr>ctl_out := o1\<rparr>) = (Ret True, w\<lparr>ctl_out := o1\<rparr>)"
      by (auto simp: path_isdir_def run_simps dir_holds_def file_at_def)
    have "fold max (map depth us) 0 < n"
      using Suc.prems(3) x DirE by (auto simp: less_Suc_eq_le fold_max_le) 
    from Suc.IH [OF d this, of o1] pd DirE show ?thesis
      by (simp add: Let_def bnd_run write_message_run info_line_write)
  qed
  have "os_listdir S p (w\<lparr>ctl_out := t\<rparr>) = (Ret (map ename ts), w\<lparr>ctl_out := t\<rparr>)"
    using Suc.prems(1) by (auto simp: os_listdir_def dir_holds_def file_at_def)
  moreover have "for_each (map ename ts) ?f (w\<lparr>ctl_out := t\<rparr>) =
      for_each ts (\<lambda>x. ?f (ename x)) (w\<lparr>ctl_out := t\<rparr>)"
    by (simp only: for_each_map)
  ultimately show ?case
    using for_each_writes [of ts "\<lambda>x. ?f (ename x)" w "render S w p" t, OF step] by (simp add: bnd_run)
qed simp

definition ls_request :: "string \<Rightarrow> world \<Rightarrow> string \<Rightarrow> string \<Rightarrow> bool" where
  "ls_request msg w path mode \<longleftrightarrow>
     map_option (expand_variables (environ w)) (extract_parameter msg ''FILE'' None) = Some path \<and>
     extract_parameter msg ''LS_MODE'' None = Some mode"



section \<open>Free space\<close>

definition blanks :: "nat \<Rightarrow> string" where
  "blanks k = replicate (Suc k) (CHR '' '')"

lemma plus_run:
  assumes "a \<noteq> []" and "list_all P a" and "\<not> P c"
    and "mt r (rev a @ pre) (c # s) (map_option (\<lambda>x. x @ a) cur) caps = Some m"
  shows "mt (plus P # r) pre (a @ c # s) cur caps = Some m"
proof -
  have t: "takeWhile P (a @ c # s) = a" "dropWhile P (a @ c # s) = c # s"
    using assms(2,3) by (simp_all add: list_all_iff)
  show ?thesis by (rule mt_plus_longest) (simp_all only: t assms(1,4) not_False_eq_True)
qed

text \<open>A line of \<open>df -P\<close>: file system, size, used, available, and the rest after a blank.\<close>

definition df_line :: "string \<Rightarrow> nat \<Rightarrow> nat \<Rightarrow> nat \<Rightarrow> nat \<Rightarrow> nat \<Rightarrow> nat \<Rightarrow> string \<Rightarrow> string" where
  "df_line fs i tot j used k avail rest =
     fs @ blanks i @ show_nat tot @ blanks j @ show_nat used @ blanks k @ show_nat avail @ '' '' @ rest"

lemma digit_first: "\<exists>c r. show_nat n = c # r \<and> is_digit c \<and> \<not> is_space c"
proof -
  obtain c r where cr: "show_nat n = c # r" by (meson neq_Nil_conv show_nat_nonempty)
  moreover have "is_digit c" using show_nat_digits [of n] cr by simp
  ultimately show ?thesis using digit_not_space by blast
qed

lemma blank_then_digit:
  assumes "mt r (rev (blanks k) @ pre) (show_nat n @ s) cur caps = Some m" and "cur = None"
  shows "mt (plus is_space # r) pre (blanks k @ show_nat n @ s) cur caps = Some m"
proof -
  obtain c d where c: "show_nat n = c # d" "\<not> is_space c" using digit_first by blast
  show ?thesis
    unfolding c(1) append.simps
    by (rule plus_run) (use assms c in \<open>simp_all add: blanks_def list_all_iff is_space_def code_def\<close>)
qed

lemma number_then_blank:
  assumes "mt r (rev (show_nat n) @ pre) (blanks k @ s) None (caps @ [show_nat n]) = Some m"
  shows "mt (Open # plus is_digit # Close # r) pre (show_nat n @ blanks k @ s) None caps = Some m"
proof -
  have b: "blanks k = CHR '' '' # replicate k (CHR '' '')" by (simp add: blanks_def)
  have "mt (plus is_digit # Close # r) pre (show_nat n @ blanks k @ s) (Some []) caps = Some m"
    unfolding b append.simps
    by (rule plus_run) (use assms b in \<open>simp_all add: show_nat_digits is_digit_def code_def\<close>)
  then show ?thesis by simp
qed

lemma df_line_match:
  assumes "fs \<noteq> []" and "no_space fs" and "NL \<notin> set rest"
  shows "\<exists>r. re_match rx_df (df_line fs i tot j used k avail rest) =
    Some ([fs, show_nat tot, show_nat used, show_nat avail], r)"
proof -
  have sp: "'' '' = blanks 0" by (simp add: blanks_def)
  have tail: "\<exists>r. mt [plus dot] pre (blanks 0 @ rest) None caps = Some (caps, r)" for pre caps
  proof -
    have "takeWhile dot (blanks 0 @ rest) \<noteq> []" by (simp add: blanks_def dot_def)
    then show ?thesis by (intro exI, rule mt_plus_longest) simp_all
  qed
  obtain r where r: "mt [plus dot] (rev (show_nat avail) @ rev (blanks k) @ rev (show_nat used) @ rev (blanks j) @
        rev (show_nat tot) @ rev (blanks i) @ rev fs) (blanks 0 @ rest) None
      ([[fs] ! 0] @ [show_nat tot] @ [show_nat used] @ [show_nat avail]) =
      Some ([[fs] ! 0] @ [show_nat tot] @ [show_nat used] @ [show_nat avail], r)"
    using tail by blast
  have fsm: "mt rx_df [] (fs @ blanks i @ s) None [] = Some m"
    if "mt (drop 3 rx_df) (rev fs) (blanks i @ s) None [fs] = Some m" for s m
  proof -
    have b: "blanks i = CHR '' '' # replicate i (CHR '' '')" by (simp add: blanks_def)
    have "mt (plus nonspace # Close # drop 3 rx_df) [] (fs @ blanks i @ s) (Some []) [] = Some m"
      unfolding b append.simps
      by (rule plus_run) (use that assms b in \<open>simp_all add: no_space_def nonspace_def list_all_iff is_space_def code_def\<close>)
    then show ?thesis by (simp add: rx_df_def numeral_3_eq_3)
  qed
  have "mt (drop 3 rx_df) (rev fs) (blanks i @ show_nat tot @ blanks j @ show_nat used @ blanks k @ show_nat avail @ blanks 0 @ rest)
      None [fs] = Some ([fs, show_nat tot, show_nat used, show_nat avail], r)"
    unfolding rx_df_def numeral_3_eq_3 drop_Suc_Cons drop_0
    by (rule blank_then_digit [OF number_then_blank [OF blank_then_digit [OF number_then_blank [OF blank_then_digit [OF number_then_blank]]]]])
      (use r in simp_all)
  from fsm [OF this] show ?thesis by (simp add: re_match_def df_line_def sp)
qed

text \<open>
  The free space report. When \<open>df -P -B 1\<close> prints a header and one line for the file system, the
  reply gives exactly the total and available bytes of that line.
\<close>

theorem df_reports_space:
  assumes "map_option (expand_variables (environ w)) (extract_parameter msg ''FILE'' None) = Some path"
    and "execute S (trace w) (bash_argv (''df -P -B 1 '' @ path) (truthy (case config w ''tsi.use_login_shell'' of None \<Rightarrow> CBool True | Some v \<Rightarrow> v)))
      = Finished 0 out"
    and "splitlines out = [header, df_line fs i tot j used k avail rest]" and "re_match rx_df header = None"
    and "fs \<noteq> []" and "no_space fs" and "NL \<notin> set rest"
  shows "fst (df_cmd S msg w) = Ret () \<and>
    ctl_out (snd (df_cmd S msg w)) = ctl_out w @ ''TSI_OK'' @ [NL] @ ''START_DF'' @ [NL] @ ''TOTAL '' @ show_nat tot @ [NL]
      @ ''FREE '' @ show_nat avail @ [NL] @ ''USER -1'' @ [NL] @ ''END_DF'' @ [NL]"
proof -
  obtain f where f: "extract_parameter msg ''FILE'' None = Some f" "expand_variables (environ w) f = path"
    using assms(1) by auto
  obtain r where r: "re_match rx_df (df_line fs i tot j used k avail rest) =
      Some ([fs, show_nat tot, show_nat used, show_nat avail], r)"
    using df_line_match [OF assms(5-7)] by blast
  have "df_scan (''-1'', ''-1'') (splitlines out) = (show_nat tot, show_nat avail)"
    by (simp add: assms(3,4) r)
  with f assms(2) show ?thesis
    by (simp add: df_cmd_def expanded_def req_str_def run_simps run_command_def Let_def log_event_def)
qed

definition df_header :: string where
  "df_header = ''Filesystem 1-blocks Used Available Capacity Mounted on''"

definition df_output :: string where
  "df_output = df_header @ [NL] @ ''/dev/sda 1000 400 600 40% /tmp'' @ [NL]"

theorem df_reports_space_witness:
  "startswith (ctl_out (snd (df_cmd (sample_sys\<lparr>execute := (\<lambda>h a. Finished 0 df_output)\<rparr>)
      (request [(''FILE'', ''/tmp'')]) sample_file_world)))
     (''TSI_OK'' @ [NL] @ ''START_DF'' @ [NL] @ ''TOTAL 1000'' @ [NL] @ ''FREE 600'' @ [NL])"
proof -
  let ?S = "sample_sys\<lparr>execute := (\<lambda>h a. Finished 0 df_output)\<rparr>" and ?w = sample_file_world
  have ps: "list_all param_ok [(''FILE'', ''/tmp'')]" by (simp add: param_ok_def)
  have "expand_variables Map.empty ''/tmp'' = ''/tmp''" by code_simp
  then have p: "map_option (expand_variables (environ ?w)) (extract_parameter (request [(''FILE'', ''/tmp'')]) ''FILE'' None) = Some ''/tmp''"
    by (simp add: extract_parameter_request [OF ps])
  have e: "execute ?S h a = Finished 0 df_output" for h a by simp
  have n: "show_nat 1000 = ''1000''" "show_nat 400 = ''400''" "show_nat 600 = ''600''" by code_simp+
  have "df_line ''/dev/sda'' 0 1000 0 400 0 600 ''40% /tmp'' = ''/dev/sda 1000 400 600 40% /tmp''"
    by (simp add: df_line_def n blanks_def)
  moreover have "splitlines df_output = [df_header, ''/dev/sda 1000 400 600 40% /tmp'']" by code_simp
  ultimately have l: "splitlines df_output = [df_header, df_line ''/dev/sda'' 0 1000 0 400 0 600 ''40% /tmp'']" by simp
  have h: "re_match rx_df df_header = None" by code_simp
  have fs: "no_space ''/dev/sda''" by code_simp
  from df_reports_space [OF p e l h _ fs] show ?thesis by (simp add: n)
qed

end
