(* ===== verification/BSSCommon.thy ===== *)
theory BSSCommon
  imports FileIO
begin

text \<open>
  \<open>lib/BSSCommon.py\<close>: the operations every batch system shares. The methods a batch system
  overrides are the fields of the record \<open>bss\<close>; the methods of \<open>BSSBase\<close> are definitions that take
  such a record. \<open>init\<close> copies \<open>tsi.use_login_shell\<close> into the object; since nothing changes that
  setting afterwards, the model reads it from the configuration. The locale \<open>batch_system\<close> states
  what a batch system must provide so that the status listing is right.
\<close>

section \<open>What a batch system provides\<close>

text \<open>The parsed partitions of a cluster: number of nodes and whether it is the default.\<close>

type_synonym partitions = "(string, int \<times> bool) dict"

record bss =
  variant :: string
  defaults :: "(string, string) dict"
  submit_script :: "string \<Rightarrow> config \<Rightarrow> exn + string list"
  alloc_script :: "string \<Rightarrow> config \<Rightarrow> exn + string list"
  extract_id_expr :: "rx list"
  extract_info :: "string \<Rightarrow> (string \<times> string \<times> string) option"
  convert_status :: "string \<Rightarrow> string"
  parse_details :: "string \<Rightarrow> (string, string) dict"
  parse_partitions :: "string \<Rightarrow> exn + partitions"

section \<open>Child processes\<close>

text \<open>
  The loop of \<open>cleanup\<close> removes elements from the list it iterates over: the iterator keeps an index
  into the list, so after a removal the element that moves into the freed place is not visited.
\<close>

function cleanup_loop :: "(int \<Rightarrow> int option) \<Rightarrow> nat \<Rightarrow> int list \<Rightarrow> int list" where
  "cleanup_loop wait i children =
     (if length children \<le> i then children
      else
        (let child_pid = children ! i in
         case wait child_pid of
           None \<Rightarrow> cleanup_loop wait (i + 1) (remove1 child_pid children)
         | Some pid \<Rightarrow>
             (if pid \<noteq> 0 then cleanup_loop wait (i + 1) (remove1 child_pid children)
              else cleanup_loop wait (i + 1) children)))"
  by pat_completeness auto
termination
  by (relation "measure (\<lambda>(w, i, c). length c - i)") (auto simp: length_remove1)

declare cleanup_loop.simps [simp del]

definition cleanup :: "sys \<Rightarrow> unit tsi" where
  "cleanup S = modify (\<lambda>w. w\<lparr>child_pids := cleanup_loop (waitpid S (trace w)) 0 (child_pids w)\<rparr>)"

section \<open>Initialisation\<close>

definition base_defaults :: "(string, string) dict" where
  "base_defaults =
     [(''tsi.qstat_cmd'', ''ps -e -os,args''),
      (''tsi.abort_cmd'', ''SID=$(ps -e -osid,args | grep '' @ [CHR 0x22] @ ''nice .* ./UNICORE_Job_%s'' @ [CHR 0x22]
         @ '' | grep -v '' @ [CHR 0x22] @ ''grep '' @ [CHR 0x22] @ '' | egrep -o '' @ [CHR 0x22] @ ''^'' @ [CHR 0x5C]
         @ ''s*([0-9]+)'' @ [CHR 0x22] @ '' ); pkill -SIGTERM -s $SID''),
      (''tsi.get_processes_cmd'', ''ps -e''),
      (''tsi.get_partitions_cmd'', ''echo'')]"

fun set_defaults :: "(string, string) dict \<Rightarrow> config \<Rightarrow> config" where
  "set_defaults [] cfg = cfg"
| "set_defaults ((k, v) # d) cfg =
     set_defaults d (if cfg k = None \<or> cfg k = Some CNone then cfg(k \<mapsto> CStr v) else cfg)"

definition use_login_shell :: "bool tsi" where
  "use_login_shell = bnd (cfg_sub ''tsi.use_login_shell'') (\<lambda>v. ret (truthy v))"

definition init_base :: "sys \<Rightarrow> bss \<Rightarrow> unit tsi" where
  "init_base S B =
     bnd (modify (\<lambda>w. w\<lparr>config := set_defaults (dict_update base_defaults (defaults B)) (config w)\<rparr>)) (\<lambda>_.
     bnd use_login_shell (\<lambda>login_shell.
     bnd (cfg_sub ''tsi.testing'') (\<lambda>testing.
     whenP (\<not> truthy testing)
       (bnd (cfg_str ''tsi.qstat_cmd'') (\<lambda>cmd.
        bnd (run_command S cmd False False login_shell) (\<lambda>_. ret ()))))))"

section \<open>Submitting jobs\<close>

definition py_str :: "string option \<Rightarrow> string" where
  "py_str v = (case v of None \<Rightarrow> ''None'' | Some s \<Rightarrow> s)"

definition req_arg :: "string option \<Rightarrow> string tsi" where
  "req_arg v = of_opt TypeError v"

definition write_file :: "sys \<Rightarrow> string \<Rightarrow> string \<Rightarrow> unit tsi" where
  "write_file S p text =
     bnd (open_write S p False) (\<lambda>_.
     modify (\<lambda>w. w\<lparr>files := (files w)(abs_path w p := map_option (append_to text) (files w (abs_path w p)))\<rparr>))"

definition expand_message :: "string \<Rightarrow> string tsi" where
  "expand_message m = gets (\<lambda>w. expand_variables (environ w) m)"

definition extract_job_id :: "bss \<Rightarrow> string \<Rightarrow> string option" where
  "extract_job_id B submit_result = map_option (\<lambda>caps. caps ! 0) (re_search (extract_id_expr B) submit_result)"

text \<open>The command of an allocation, run in the background.\<close>

definition alloc_command :: "string \<Rightarrow> string list \<Rightarrow> string" where
  "alloc_command msg submit_cmds =
     msg @ [NL] @ ''{ '' @ concat (map (\<lambda>line. line @ '' ; '') submit_cmds)
     @ ''} & echo $! > '' @ py_str (extract_parameter msg ''PID_FILE'' (Some ''UNICORE_SCRIPT_PID'')) @ '' '' @ [NL]"

definition run_alloc :: "sys \<Rightarrow> string \<Rightarrow> string list \<Rightarrow> string \<Rightarrow> unit tsi" where
  "run_alloc S msg submit_cmds userjob =
     bnd (write_file S userjob (alloc_command msg submit_cmds)) (\<lambda>_.
     bnd use_login_shell (\<lambda>login_shell.
     bnd (run_command S (alloc_command msg submit_cmds) True True login_shell) (\<lambda>(success, reply).
     if \<not> success then failed (Some reply) else ok None)))"

definition run_submit :: "sys \<Rightarrow> bss \<Rightarrow> string \<Rightarrow> string \<Rightarrow> string list \<Rightarrow> string \<Rightarrow> unit tsi" where
  "run_submit S B msg uspace_dir submit_cmds submit_id =
     (let userjob = ''UNICORE_Job_'' @ submit_id; submit_file = ''bss_submit_'' @ submit_id;
          cmds = submit_cmds @ [uspace_dir @ ''/'' @ userjob] in
      bnd (write_file S userjob msg) (\<lambda>_.
      bnd (addperms userjob 504) (\<lambda>_.
      bnd (write_file S submit_file (concat (map (\<lambda>line. line @ [NL]) cmds))) (\<lambda>_.
      bnd (addperms submit_file 504) (\<lambda>_.
      bnd (cfg_str ''tsi.submit_cmd'') (\<lambda>submit_cmd.
      bnd use_login_shell (\<lambda>login_shell.
      bnd (run_command S (submit_cmd @ '' ./'' @ submit_file) False False login_shell) (\<lambda>(success, reply).
      if \<not> success then failed (Some reply)
      else (case extract_job_id B reply of
              Some job_id \<Rightarrow> ok (Some job_id)
            | None \<Rightarrow> failed (Some (''Submit failed? Submission result:'' @ reply)))))))))))"

definition submit :: "sys \<Rightarrow> bss \<Rightarrow> string \<Rightarrow> unit tsi" where
  "submit S B message =
     bnd (expand_message message) (\<lambda>msg.
     bnd (req_arg (extract_parameter msg ''USPACE_DIR'' None)) (\<lambda>uspace_dir.
     bnd (os_chdir uspace_dir) (\<lambda>_.
     let job_mode = py_str (extract_parameter msg ''JOB_MODE'' (Some ''normal''));
         finish = (\<lambda>submit_cmds.
           bnd (gets (\<lambda>w. random_id S (trace w))) (\<lambda>submit_id.
           if startswith job_mode ''alloc'' then run_alloc S msg submit_cmds (''UNICORE_Job_'' @ submit_id)
           else run_submit S B msg uspace_dir submit_cmds submit_id))
     in
       if job_mode = ''normal'' then
         bnd (gets config) (\<lambda>cfg. bnd (of_sum (submit_script B msg cfg)) finish)
       else if job_mode = ''raw'' then
         (case extract_parameter msg ''JOB_FILE'' None of
            None \<Rightarrow> failed (Some (''Job mode '' @ [CHR 0x27] @ ''raw'' @ [CHR 0x27] @ '' requires TSI_JOB_FILE''))
          | Some raw_cmds_file_name \<Rightarrow>
              bnd (open_read S raw_cmds_file_name) (\<lambda>text. finish [text]))
       else if startswith job_mode ''alloc'' then
         bnd (gets config) (\<lambda>cfg.
         case alloc_script B msg cfg of
           Inl e \<Rightarrow> failed (Some ''Allocation mode not (yet) supported!'')
         | Inr cmds \<Rightarrow> finish cmds)
       else failed (Some (''Illegal job mode: '' @ job_mode @ '' '')))))"

text \<open>\<open>os.mkdir\<close>; the new directory belongs to the process.\<close>

definition os_mkdir :: "sys \<Rightarrow> string \<Rightarrow> unit tsi" where
  "os_mkdir S p = (\<lambda>w.
     let q = abs_path w p in
     case (files w q, files w (dirname q)) of
       (None, Some (FDir es m)) \<Rightarrow>
         (if \<not> may S (cred w) q 2 then (Exc (OSError p), w)
          else (Ret (), w\<lparr>files := (files w)(dirname q \<mapsto> FDir (es @ [basename q]) m,
                  q \<mapsto> FDir [] \<lparr>st_mode = new_dir_mode S, st_uid = euid (cred w), st_gid = egid (cred w), st_mtime = now w\<rparr>)\<rparr>))
     | _ \<Rightarrow> (Exc (OSError p), w))"

definition run_on_login_node :: "sys \<Rightarrow> string \<Rightarrow> unit tsi" where
  "run_on_login_node S msg =
     bnd (expand_message msg) (\<lambda>message.
     let outcome = extract_parameter message ''OUTCOME_DIR'' None;
         stdout = extract_parameter message ''STDOUT'' None;
         stderr = extract_parameter message ''STDERR'' None in
     bnd (req_arg (extract_parameter message ''USPACE_DIR'' None)) (\<lambda>uspace_dir.
     bnd (os_chdir uspace_dir) (\<lambda>_.
     bnd (req_arg outcome) (\<lambda>outcome_dir.
     bnd (path_exists outcome_dir) (\<lambda>e.
     bnd (whenP (\<not> e) (bnd (os_mkdir S outcome_dir) (\<lambda>_. addperms outcome_dir 448))) (\<lambda>_.
     bnd (gets (\<lambda>w. random_id S (trace w))) (\<lambda>submit_id.
     let cmds_file_name = ''UNICORE_Job_'' @ submit_id in
     bnd (write_file S cmds_file_name message) (\<lambda>_.
     bnd (addperms cmds_file_name 448) (\<lambda>_.
     let cmd = ''./'' @ cmds_file_name @ '' > '' @ outcome_dir @ ''/'' @ py_str stdout @ '' 2> ''
                 @ outcome_dir @ ''/'' @ py_str stderr in
     bnd use_login_shell (\<lambda>login_shell.
     bnd (run_command S cmd True True login_shell) (\<lambda>(success, reply).
     if success then
       bnd (gets child_pids) (\<lambda>c. ok (Some (show_int (last c))))
     else failed (Some (''Submit failed? Submission result:'' @ reply)))))))))))))"

section \<open>Status of the jobs\<close>

definition ustates :: "string list" where
  "ustates = [''COMPLETED'', ''QUEUED'', ''SUSPENDED'', ''RUNNING'', ''UNKNOWN'']"

fun index_of :: "'a list \<Rightarrow> 'a \<Rightarrow> nat option" where
  "index_of [] x = None"
| "index_of (y # ys) x = (if y = x then Some 0 else map_option Suc (index_of ys x))"

text \<open>\<open>list.index\<close> raises a \<open>ValueError\<close> for a state that is not in the list.\<close>

definition rank :: "string \<Rightarrow> exn + nat" where
  "rank s = (case index_of ustates s of None \<Rightarrow> Inl ValueError | Some i \<Rightarrow> Inr i)"

type_synonym job_states = "(string, string \<times> string \<times> string) dict"

definition add_state :: "bss \<Rightarrow> string \<Rightarrow> job_states \<Rightarrow> exn + job_states" where
  "add_state B line states =
     (case extract_info B line of
        None \<Rightarrow> Inr states
      | Some (bssid, state, queue_name) \<Rightarrow>
          (let ustate = convert_status B state in
           case map_of states bssid of
             None \<Rightarrow> Inr (dict_set bssid (ustate, queue_name, state) states)
           | Some (have_state, _, _) \<Rightarrow>
               sbind (rank ustate) (\<lambda>new.
               sbind (rank have_state) (\<lambda>old.
               Inr (if old < new then dict_set bssid (ustate, queue_name, state) states else states)))))"

fun job_states_of :: "bss \<Rightarrow> string list \<Rightarrow> job_states \<Rightarrow> exn + job_states" where
  "job_states_of B [] states = Inr states"
| "job_states_of B (line # rest) states = sbind (add_state B line states) (job_states_of B rest)"

definition status_line :: "string \<times> string \<times> string \<times> string \<Rightarrow> string" where
  "status_line = (\<lambda>(bssid, ustate, queue_name, original_state).
     '' '' @ bssid @ '' '' @ ustate @ '' '' @ queue_name @ '' '' @ original_state @ [NL])"

definition parse_status_listing :: "bss \<Rightarrow> string \<Rightarrow> exn + string" where
  "parse_status_listing B qstat_result =
     sbind (job_states_of B (splitlines qstat_result) []) (\<lambda>states.
     Inr (''QSTAT'' @ [NL] @ concat (map status_line states)))"

definition get_status_listing :: "sys \<Rightarrow> bss \<Rightarrow> string \<Rightarrow> unit tsi" where
  "get_status_listing S B msg =
     bnd (cfg_str ''tsi.qstat_cmd'') (\<lambda>qstat_cmd.
     bnd (run_command S qstat_cmd False False True) (\<lambda>(success, qstat_output).
     if \<not> success then failed (Some qstat_output)
     else bnd (of_sum (parse_status_listing B qstat_output)) (\<lambda>result. ok (Some result))))"

definition get_process_listing :: "sys \<Rightarrow> string \<Rightarrow> unit tsi" where
  "get_process_listing S msg =
     bnd (cfg_str ''tsi.get_processes_cmd'') (\<lambda>dflt.
     run_and_report S (py_str (extract_parameter msg ''PS'' (Some dflt))) True)"

section \<open>Details, partitions, job control\<close>

text \<open>\<open>json.dumps\<close> of a dictionary of strings, and of the partitions.\<close>

definition hex_digit :: "nat \<Rightarrow> char" where
  "hex_digit d = (if d < 10 then char_of (48 + d) else char_of (87 + d))"

definition json_char :: "char \<Rightarrow> string" where
  "json_char c =
     (if c = CHR 0x22 then [CHR 0x5C, CHR 0x22]
      else if c = CHR 0x5C then [CHR 0x5C, CHR 0x5C]
      else if c = NL then [CHR 0x5C, CHR ''n'']
      else if c = CR then [CHR 0x5C, CHR ''r'']
      else if c = TAB then [CHR 0x5C, CHR ''t'']
      else if c = CHR 0x08 then [CHR 0x5C, CHR ''b'']
      else if c = CHR 0x0C then [CHR 0x5C, CHR ''f'']
      else if code c < 32 \<or> 126 < code c then
        [CHR 0x5C] @ ''u00'' @ [hex_digit (code c div 16), hex_digit (code c mod 16)]
      else [c])"

definition json_str :: "string \<Rightarrow> string" where
  "json_str s = [CHR 0x22] @ concat (map json_char s) @ [CHR 0x22]"

definition json_obj :: "(string \<times> string) list \<Rightarrow> string" where
  "json_obj kvs = ''{'' @ join '', '' (map (\<lambda>(k, v). json_str k @ '': '' @ v) kvs) @ ''}''"

definition json_details :: "(string, string) dict \<Rightarrow> string" where
  "json_details d = json_obj (map (\<lambda>(k, v). (k, json_str v)) d)"

definition json_partitions :: "partitions \<Rightarrow> string" where
  "json_partitions d = json_obj (map (\<lambda>(k, n, b). (k, json_obj [(''Nodes'', show_int n),
     (''isDefault'', if b then ''true'' else ''false'')])) d)"

text \<open>The tokens that have no \<open>=\<close> are skipped.\<close>

definition base_parse_job_details :: "string \<Rightarrow> (string, string) dict" where
  "base_parse_job_details raw_info =
     fold (\<lambda>t d. case split_once (CHR ''='') t of
            (k, Some v) \<Rightarrow> dict_set k v d
          | (k, None) \<Rightarrow> d)
       (if strip raw_info = [] then [[]] else split_ws (strip raw_info)) []"

definition get_job_details :: "sys \<Rightarrow> bss \<Rightarrow> string \<Rightarrow> unit tsi" where
  "get_job_details S B msg =
     bnd (cfg_str ''tsi.details_cmd'') (\<lambda>cmd.
     bnd (req_arg (extract_parameter msg ''BSSID'' None)) (\<lambda>bssid.
     bnd (run_command S (cmd @ '' '' @ bssid) False False True) (\<lambda>(success, output).
     if \<not> success then failed (Some output)
     else ok (Some (json_details (parse_details B output) @ [NL])))))"

text \<open>
  \<open>fmt % arg\<close> for one string argument: \<open>%s\<close> and \<open>%%\<close>. Other conversions are not used by any
  default command; they are an error here.
\<close>

fun format_str :: "string \<Rightarrow> string option \<Rightarrow> exn + string" where
  "format_str [] a = (if a = None then Inr [] else Inl TypeError)"
| "format_str [c] a = (if c = CHR ''%'' then Inl ValueError else sbind (format_str [] a) (\<lambda>r. Inr (c # r)))"
| "format_str (c # d # s) a =
     (if c = CHR ''%'' then
        (if d = CHR ''%'' then sbind (format_str s a) (\<lambda>r. Inr (CHR ''%'' # r))
         else if d = CHR ''s'' then
           (case a of None \<Rightarrow> Inl TypeError | Some x \<Rightarrow> sbind (format_str s None) (\<lambda>r. Inr (x @ r)))
         else Inl ValueError)
      else sbind (format_str (d # s) a) (\<lambda>r. Inr (c # r)))"

definition abort_job :: "sys \<Rightarrow> string \<Rightarrow> unit tsi" where
  "abort_job S msg =
     bnd (cfg_str ''tsi.abort_cmd'') (\<lambda>fmt.
     bnd (of_sum (format_str fmt (Some (py_str (extract_parameter msg ''BSSID'' None))))) (\<lambda>cmd.
     bnd use_login_shell (\<lambda>login_shell.
     run_and_report S cmd login_shell)))"

definition control_job :: "sys \<Rightarrow> string \<Rightarrow> string \<Rightarrow> unit tsi" where
  "control_job S setting msg =
     bnd (cfg_str setting) (\<lambda>cmd.
     bnd (req_arg (extract_parameter msg ''BSSID'' None)) (\<lambda>bssid.
     bnd use_login_shell (\<lambda>login_shell.
     run_and_report S (cmd @ '' '' @ bssid) login_shell)))"

definition hold_job :: "sys \<Rightarrow> string \<Rightarrow> unit tsi" where
  "hold_job S msg = control_job S ''tsi.hold_cmd'' msg"

definition resume_job :: "sys \<Rightarrow> string \<Rightarrow> unit tsi" where
  "resume_job S msg = control_job S ''tsi.resume_cmd'' msg"

text \<open>\<open>lib/Quota.py\<close>.\<close>

definition get_quota :: string where
  "get_quota = ''USER -1''"

definition get_budget :: "string \<Rightarrow> unit tsi" where
  "get_budget msg = ok (Some (get_quota @ [NL]))"

definition base_parse_partitions :: "string \<Rightarrow> exn + partitions" where
  "base_parse_partitions raw_info = Inr []"

definition get_partitions :: "sys \<Rightarrow> bss \<Rightarrow> string \<Rightarrow> unit tsi" where
  "get_partitions S B msg =
     bnd (cfg_str ''tsi.get_partitions_cmd'') (\<lambda>cmd.
     bnd (run_command S cmd False False True) (\<lambda>(success, output).
     if \<not> success then failed (Some output)
     else bnd (of_sum (parse_partitions B output)) (\<lambda>result. ok (Some (json_partitions result @ [NL])))))"

section \<open>Properties of cleanup\<close>

abbreviation finished :: "(int \<Rightarrow> int option) \<Rightarrow> int \<Rightarrow> bool" where
  "finished wait p \<equiv> wait p \<noteq> Some 0"

lemma cleanup_loop_step:
  "i < length c \<Longrightarrow> cleanup_loop wait i c =
    cleanup_loop wait (i + 1) (if finished wait (c ! i) then remove1 (c ! i) c else c)"
  by (subst cleanup_loop.simps) (auto simp: Let_def split: option.split)

lemma cleanup_loop_end: "length c \<le> i \<Longrightarrow> cleanup_loop wait i c = c"
  by (subst cleanup_loop.simps) simp

lemma filter_remove1_other: "\<not> P x \<Longrightarrow> filter P (remove1 x xs) = filter P xs"
  by (induction xs) auto

lemma cleanup_induct [case_names stop step]:
  assumes "\<And>i c. length c \<le> i \<Longrightarrow> P i c"
    and "\<And>i c. i < length c \<Longrightarrow> P (i + 1) (if finished wait (c ! i) then remove1 (c ! i) c else c) \<Longrightarrow> P i c"
  shows "P i c"
proof (induction "length c - i" arbitrary: i c rule: less_induct)
  case less
  show ?case
  proof (cases "i < length c")
    case True
    then have "P (i + 1) (if finished wait (c ! i) then remove1 (c ! i) c else c)"
      by (intro less.hyps) (auto simp: length_remove1)
    with True show ?thesis by (rule assms(2))
  qed (simp add: assms(1))
qed

lemma cleanup_running:
  "filter (\<lambda>p. \<not> finished wait p) (cleanup_loop wait i c) = filter (\<lambda>p. \<not> finished wait p) c"
  by (induction i c rule: cleanup_induct [where wait = wait])
    (auto simp: cleanup_loop_end cleanup_loop_step filter_remove1_other)

lemma cleanup_subset: "set (cleanup_loop wait i c) \<subseteq> set c"
  by (induction i c rule: cleanup_induct [where wait = wait])
    (auto simp: cleanup_loop_end cleanup_loop_step split: if_splits dest: subsetD [OF set_remove1_subset])

lemma cleanup_loop_prefix:
  "list_all (\<lambda>p. \<not> finished wait p) a \<Longrightarrow> i \<le> length a \<Longrightarrow>
    cleanup_loop wait i (a @ c) = cleanup_loop wait (length a) (a @ c)"
proof (induction "length a - i" arbitrary: i)
  case (Suc d)
  then have "i < length (a @ c)" "\<not> finished wait ((a @ c) ! i)" by (auto simp: nth_append list_all_iff)
  then have "cleanup_loop wait i (a @ c) = cleanup_loop wait (i + 1) (a @ c)" by (simp add: cleanup_loop_step)
  with Suc show ?case by simp
qed simp

text \<open>
  \<open>cleanup\<close> never forgets a child that still runs, adds no process id, and keeps the order of the
  running children.
\<close>

theorem cleanup_keeps_running_children:
  "filter (\<lambda>p. waitpid S (trace w) p = Some 0) (child_pids (snd (cleanup S w))) =
     filter (\<lambda>p. waitpid S (trace w) p = Some 0) (child_pids w) \<and>
   set (child_pids (snd (cleanup S w))) \<subseteq> set (child_pids w)"
  using cleanup_running [of "waitpid S (trace w)" 0 "child_pids w"] cleanup_subset [of "waitpid S (trace w)" 0 "child_pids w"]
  by (simp add: cleanup_def run_simps)

text \<open>
  \<open>cleanup\<close> removes from the list it iterates over, so it skips a child: when two children next to
  each other have ended, the second one stays on the list.
\<close>

theorem cleanup_skips_neighbour:
  assumes "child_pids w = a @ p # q # b" and "distinct (child_pids w)"
    and "list_all (\<lambda>x. waitpid S (trace w) x = Some 0) a"
    and "waitpid S (trace w) p \<noteq> Some 0" and "waitpid S (trace w) q \<noteq> Some 0"
  shows "p \<notin> set (child_pids (snd (cleanup S w))) \<and> q \<in> set (child_pids (snd (cleanup S w)))"
proof -
  let ?wait = "waitpid S (trace w)"
  have r1: "remove1 p (a @ p # q # b) = a @ q # b" using assms(1,2) by (simp add: remove1_append)
  have "cleanup_loop ?wait 0 (a @ p # q # b) = cleanup_loop ?wait (length a) (a @ p # q # b)"
    using cleanup_loop_prefix [of ?wait a 0 "p # q # b"] assms(3) by simp
  also have "\<dots> = cleanup_loop ?wait (length a + 1) (a @ q # b)"
    using assms(4) r1 by (subst cleanup_loop_step) simp_all
  finally have eq: "cleanup_loop ?wait 0 (child_pids w) = cleanup_loop ?wait (length a + 1) (a @ q # b)"
    using assms(1) by simp
  have stays: "q \<in> set (cleanup_loop ?wait i (a @ q # c))" if "length a < i" "distinct (a @ q # c)" for i c
    using that
  proof (induction "length c + length a + 1 - i" arbitrary: i c rule: less_induct)
    case less
    show ?case
    proof (cases "i < length (a @ q # c)")
      case False
      then show ?thesis by (simp add: cleanup_loop_end)
    next
      case True
      define x where "x = (a @ q # c) ! i"
      have x: "x \<in> set c" using True less.prems by (auto simp: x_def nth_append nth_Cons split: nat.split)
      then have "x \<noteq> q" "x \<notin> set a" using less.prems by auto
      then have rm: "remove1 x (a @ q # c) = a @ q # remove1 x c" by (simp add: remove1_append)
      have ih: "q \<in> set (cleanup_loop ?wait (i + 1) (a @ q # d))" if "length d \<le> length c" "distinct (a @ q # d)" for d
        using that less.prems True by (intro less.hyps) auto
      have "distinct (a @ q # remove1 x c)" using less.prems by (auto simp: distinct_remove1 dest: notin_set_remove1)
      then show ?thesis using True ih [of c] ih [of "remove1 x c"] less.prems rm
        by (simp add: cleanup_loop_step x_def [symmetric] length_remove1)
    qed
  qed
  have "p \<notin> set (cleanup_loop ?wait (length a + 1) (a @ q # b))"
    using cleanup_subset [of ?wait "length a + 1" "a @ q # b"] assms(1,2) by auto
  moreover have "q \<in> set (cleanup_loop ?wait (length a + 1) (a @ q # b))"
    using assms(1,2) by (intro stays) auto
  ultimately show ?thesis using eq by (simp add: cleanup_def run_simps)
qed

theorem cleanup_skips_neighbour_witness:
  "12 \<in> set (child_pids (snd (cleanup (sample_sys\<lparr>waitpid := (\<lambda>h p. Some p)\<rparr>) ((sample_world True)\<lparr>child_pids := [11, 12]\<rparr>))))"
  using cleanup_skips_neighbour [of "(sample_world True)\<lparr>child_pids := [11, 12]\<rparr>" "[]" 11 12 "[]"
      "sample_sys\<lparr>waitpid := (\<lambda>h p. Some p)\<rparr>"]
  by simp

section \<open>The contract of a batch system and the status listing\<close>

text \<open>
  What the status listing relies on: every state of the batch system is translated to one of the five
  UNICORE states, and neither the fields of a status line nor the lines of a submit script contain
  a line break.
\<close>

definition state_no :: "string \<Rightarrow> nat" where
  "state_no s = (case index_of ustates s of None \<Rightarrow> 0 | Some i \<Rightarrow> i)"

lemma rank_known: "s \<in> set ustates \<Longrightarrow> rank s = Inr (state_no s)"
  by (auto simp: ustates_def rank_def state_no_def)

text \<open>
  The specification: the entry for a job is the first of its lines with the highest state, in the
  order COMPLETED, QUEUED, SUSPENDED, RUNNING, UNKNOWN.
\<close>

fun best :: "(string \<times> string \<times> string) option \<Rightarrow> (string \<times> string \<times> string) list \<Rightarrow> (string \<times> string \<times> string) option" where
  "best b [] = b"
| "best None (e # es) = best (Some e) es"
| "best (Some b) (e # es) = best (Some (if state_no (fst b) < state_no (fst e) then e else b)) es"

text \<open>What \<open>best\<close> returns is one of the entries, none is higher, and none before it is as high.\<close>

lemma best_Some:
  "\<exists>k < length (b # es). best (Some b) es = Some ((b # es) ! k) \<and>
    (\<forall>e \<in> set (b # es). state_no (fst e) \<le> state_no (fst ((b # es) ! k))) \<and>
    (\<forall>j < k. state_no (fst ((b # es) ! j)) < state_no (fst ((b # es) ! k)))"
proof (induction es arbitrary: b)
  case Nil
  then show ?case by simp
next
  case (Cons e es)
  show ?case
  proof (cases "state_no (fst b) < state_no (fst e)")
    case True
    obtain k where k: "k < length (e # es)" "best (Some e) es = Some ((e # es) ! k)"
        "\<forall>x \<in> set (e # es). state_no (fst x) \<le> state_no (fst ((e # es) ! k))"
        "\<forall>j < k. state_no (fst ((e # es) ! j)) < state_no (fst ((e # es) ! k))"
      using Cons.IH [of e] by blast
    show ?thesis
      by (rule exI [of _ "Suc k"])
        (use True k in \<open>auto simp: less_Suc_eq_0_disj intro: less_le_trans\<close>)
  next
    case False
    obtain k where k: "k < length (b # es)" "best (Some b) es = Some ((b # es) ! k)"
        "\<forall>x \<in> set (b # es). state_no (fst x) \<le> state_no (fst ((b # es) ! k))"
        "\<forall>j < k. state_no (fst ((b # es) ! j)) < state_no (fst ((b # es) ! k))"
      using Cons.IH [of b] by blast
    show ?thesis
    proof (cases k)
      case 0
      with False k show ?thesis by (intro exI [of _ 0]) auto
    next
      case (Suc k')
      have "state_no (fst b) < state_no (fst (es ! k'))" using k(4) Suc by auto
      with False k Suc show ?thesis
        by (intro exI [of _ "Suc k"]) (auto simp: less_Suc_eq_0_disj)
    qed
  qed
qed

text \<open>The entries of the jobs in a status listing: job id, UNICORE state, queue, original state.\<close>

definition status_entry :: "bss \<Rightarrow> string \<Rightarrow> (string \<times> string \<times> string \<times> string) option" where
  "status_entry B line = map_option (\<lambda>(i, s, q). (i, convert_status B s, q, s)) (extract_info B line)"

definition status_entries :: "bss \<Rightarrow> string list \<Rightarrow> (string \<times> string \<times> string \<times> string) list" where
  "status_entries B lines = List.map_filter (status_entry B) lines"

lemma status_entries_simps [simp]:
  "status_entries B [] = []"
  "status_entries B (l # lines) =
    (case status_entry B l of None \<Rightarrow> status_entries B lines | Some e \<Rightarrow> e # status_entries B lines)"
  by (simp_all add: status_entries_def List.map_filter_def split: option.split)

text \<open>The listing a client should get: one line per job, each with the job's best entry.\<close>

definition listing_of :: "bss \<Rightarrow> string list \<Rightarrow> job_states \<Rightarrow> bool" where
  "listing_of B lines d \<longleftrightarrow> distinct (map fst d) \<and> fst ` set d = fst ` set (status_entries B lines) \<and>
     (\<forall>(i, e) \<in> set d. best None (map snd (filter (\<lambda>x. fst x = i) (status_entries B lines))) = Some e)"

definition clean_config :: "config \<Rightarrow> bool" where
  "clean_config cfg \<longleftrightarrow> (\<forall>k s. cfg k = Some (CStr s) \<longrightarrow> NL \<notin> set s)"

locale batch_system =
  fixes B :: bss
  assumes status_known: "convert_status B s \<in> set ustates"
    and info_no_break: "extract_info B l = Some (i, s, q) \<Longrightarrow> NL \<notin> set l \<Longrightarrow> NL \<notin> set i \<and> NL \<notin> set s \<and> NL \<notin> set q"
    and script_no_break: "submit_script B m cfg = Inr cmds \<Longrightarrow> clean_config cfg \<Longrightarrow> c \<in> set cmds \<Longrightarrow> NL \<notin> set c"
begin

definition good_states :: "job_states \<Rightarrow> bool" where
  "good_states d \<longleftrightarrow> dict_ok d \<and> (\<forall>e \<in> set d. fst (snd e) \<in> set ustates)"

lemma good_states_set: "good_states d \<Longrightarrow> fst e \<in> set ustates \<Longrightarrow> good_states (dict_set i e d)"
proof -
  assume g: "good_states d" and e: "fst e \<in> set ustates"
  from set_dict_set [of i e d] g e show ?thesis by (auto simp: good_states_def)
qed

lemma add_state_run:
  assumes "good_states d"
  shows "\<exists>d'. add_state B line d = Inr d' \<and> good_states d' \<and>
    (case status_entry B line of None \<Rightarrow> d' = d
     | Some (i, e) \<Rightarrow> map_of d' = (map_of d)(i := best (map_of d i) [e]) \<and>
         map fst d' = (if i \<in> fst ` set d then map fst d else map fst d @ [i]))"
proof (cases "extract_info B line")
  case None
  with assms show ?thesis by (simp add: add_state_def status_entry_def)
next
  case (Some x)
  obtain i s q where x: "x = (i, s, q)" by (cases x)
  let ?e = "(convert_status B s, q, s)"
  show ?thesis
  proof (cases "map_of d i")
    case None
    then have "i \<notin> fst ` set d" by (simp add: map_of_eq_None_iff)
    with None Some x assms status_known show ?thesis
      by (simp add: add_state_def status_entry_def Let_def good_states_set dict_set_keys)
  next
    case (Some e)
    then obtain h r t where e: "e = (h, r, t)" by (cases e)
    have m: "(i, e) \<in> set d" using Some by (rule map_of_SomeD)
    then have h: "rank h = Inr (state_no h)" using assms e by (intro rank_known) (auto simp: good_states_def)
    have i: "i \<in> fst ` set d" using m by force
    show ?thesis using Some e h i \<open>extract_info B line = Some x\<close> x assms status_known
      by (simp add: add_state_def status_entry_def Let_def good_states_set dict_set_keys rank_known fun_upd_idem)
  qed
qed

text \<open>The order of first appearance.\<close>

lemma job_states_run:
  assumes "good_states d"
  shows "\<exists>d'. job_states_of B lines d = Inr d' \<and> good_states d' \<and>
    (\<forall>i. map_of d' i = best (map_of d i) (map snd (filter (\<lambda>e. fst e = i) (status_entries B lines)))) \<and>
    fst ` set d' = fst ` set d \<union> fst ` set (status_entries B lines)"
  using assms
proof (induction lines arbitrary: d)
  case Nil
  then show ?case by simp
next
  case (Cons l lines)
  obtain d1 where d1: "add_state B l d = Inr d1" "good_states d1"
      "case status_entry B l of None \<Rightarrow> d1 = d
       | Some (i, e) \<Rightarrow> map_of d1 = (map_of d)(i := best (map_of d i) [e]) \<and>
           map fst d1 = (if i \<in> fst ` set d then map fst d else map fst d @ [i])"
    using add_state_run [OF Cons.prems] by blast
  obtain d' where d': "job_states_of B lines d1 = Inr d'" "good_states d'"
      "\<forall>i. map_of d' i = best (map_of d1 i) (map snd (filter (\<lambda>e. fst e = i) (status_entries B lines)))"
      "fst ` set d' = fst ` set d1 \<union> fst ` set (status_entries B lines)"
    using Cons.IH [OF d1(2)] by blast
  have b: "best (best x [e]) es = best x (e # es)" for x e es by (cases x) auto
  show ?case
  proof (cases "status_entry B l")
    case None
    with d1 d' show ?thesis by simp
  next
    case (Some ie)
    obtain i e where ie: "ie = (i, e)" by (cases ie)
    have "fst ` set d1 = insert i (fst ` set d)"
    proof -
      have "set (map fst d1) = insert i (set (map fst d))"
        using d1(3) Some ie by (cases "i \<in> fst ` set d") (simp_all add: insert_absorb)
      then show ?thesis by simp
    qed
    with Some ie d1 d' b show ?thesis by (simp add: insert_commute)
  qed
qed

lemma status_listing:
  "\<exists>d. parse_status_listing B out = Inr (''QSTAT'' @ [NL] @ concat (map status_line d)) \<and>
    listing_of B (splitlines out) d"
proof -
  have "good_states []" by (simp add: good_states_def)
  then obtain d where d: "job_states_of B (splitlines out) [] = Inr d" "good_states d"
      "\<forall>i. map_of d i = best None (map snd (filter (\<lambda>e. fst e = i) (status_entries B (splitlines out))))"
      "fst ` set d = fst ` set (status_entries B (splitlines out))"
    using job_states_run by fastforce
  have "listing_of B (splitlines out) d"
    unfolding listing_of_def
    using d(2-4) by (auto simp: good_states_def dest: map_of_is_SomeI)
  with d(1) show ?thesis by (auto simp: parse_status_listing_def)
qed

end

end
