(* ===== verification/BatchSystems.thy ===== *)
theory BatchSystems
  imports BSSCommon
begin

text \<open>
  The batch systems: Slurm (\<open>slurm/BSS.py\<close>), Torque (\<open>torque/BSS.py\<close>), LSF (\<open>lsf/BSS.py\<close>) and the
  version without a batch system (\<open>lib/BSS.py\<close>), each as a value of the record \<open>bss\<close>, and the proof
  that they satisfy the contract \<open>batch_system\<close>.
\<close>

section \<open>Helpers\<close>

definition opt :: "bool \<Rightarrow> string \<Rightarrow> string list" where
  "opt b s = (if b then [s] else [])"

definition quoted :: "string \<Rightarrow> string" where
  "quoted s = [CHR 0x22] @ s @ [CHR 0x22]"

definition cfg_text :: "config \<Rightarrow> string \<Rightarrow> exn + string" where
  "cfg_text cfg k = (case cfg k of None \<Rightarrow> Inl (KeyError k) | Some v \<Rightarrow> as_str v)"

definition cfg_text_get :: "config \<Rightarrow> string \<Rightarrow> string \<Rightarrow> exn + string" where
  "cfg_text_get cfg k d = (case cfg k of None \<Rightarrow> Inr d | Some v \<Rightarrow> as_str v)"

text \<open>\<open>extract_parameter\<close> with a default.\<close>

definition param :: "string \<Rightarrow> string \<Rightarrow> string \<Rightarrow> string" where
  "param msg name d = (case extract_parameter msg name None of None \<Rightarrow> d | Some v \<Rightarrow> v)"

text \<open>\<open>int(t / 60)\<close>.\<close>

definition minutes :: "int \<Rightarrow> exn + int" where
  "minutes t = (case py_int_div_int t 60 of None \<Rightarrow> Inl OverflowError | Some m \<Rightarrow> Inr m)"

definition base_script :: "string \<Rightarrow> config \<Rightarrow> exn + string list" where
  "base_script msg cfg = Inr []"

text \<open>The expression \<open>\D*(\d+)\D*\<close> for the id of a submitted job.\<close>

definition rx_job_id :: "rx list" where
  "rx_job_id = [star nondigit, Open, plus is_digit, Close, star nondigit]"

section \<open>Slurm\<close>

definition slurm_defaults :: "(string, string) dict" where
  "slurm_defaults =
     [(''tsi.submit_cmd'', ''sbatch''),
      (''tsi.alloc_cmd'', ''salloc --no-shell''),
      (''tsi.qstat_cmd'', ''squeue -h -o '' @ quoted ''%i %T %P''),
      (''tsi.details_cmd'', ''scontrol show jobid''),
      (''tsi.abort_cmd'', ''scancel %s''),
      (''tsi.hold_cmd'', ''scontrol hold''),
      (''tsi.resume_cmd'', ''scontrol release''),
      (''tsi.get_partitions_cmd'', ''sinfo --all --noheader --format '' @ quoted ''%P %D'')]"

definition slurm_name_char :: "char \<Rightarrow> bool" where
  "slurm_name_char c \<longleftrightarrow> is_digit c \<or> is_alpha c \<or> c \<in> set ''.:=~/''"

definition slurm_nodes_filter :: "string \<Rightarrow> string \<Rightarrow> string" where
  "slurm_nodes_filter msg nodes_filter =
     (let user_nodes_filter = param msg ''BSS_NODES_FILTER'' ''NONE'' in
      if user_nodes_filter \<noteq> ''NONE'' then
        (if nodes_filter \<noteq> [] then nodes_filter @ ''&'' @ user_nodes_filter else user_nodes_filter)
      else nodes_filter)"

definition parse_common_options :: "string \<Rightarrow> config \<Rightarrow> exn + string list" where
  "parse_common_options msg cfg =
     sbind (cfg_text cfg ''tsi.default_job_name'') (\<lambda>default_job_name.
     sbind (cfg_text_get cfg ''tsi.nodes_filter'' []) (\<lambda>global_filter.
     let email = param msg ''EMAIL'' ''NONE'';
         jobname0 = param msg ''JOBNAME'' default_job_name;
         project = param msg ''PROJECT'' ''NONE'';
         memory = extract_number msg ''MEMORY'';
         nodes = extract_number msg ''NODES'';
         processors_per_node = extract_number msg ''PROCESSORS_PER_NODE'';
         total_processors = extract_number msg ''TOTAL_PROCESSORS'';
         queue = param msg ''QUEUE'' ''NONE'';
         reservation_id = param msg ''RESERVATION_REFERENCE'' ''NONE'';
         req_time = extract_number msg ''TIME'';
         nodes_filter = slurm_nodes_filter msg global_filter;
         gpus_per_node = extract_number msg ''GPUS_PER_NODE'';
         qos = param msg ''QOS'' ''NONE'';
         exclusive = param msg ''SSR_EXCLUSIVE'' (param msg ''EXCLUSIVE'' ''NONE'');
         comment = param msg ''SSR_COMMENT'' ''NONE'';
         jobname = (if list_all slurm_name_char jobname0 then jobname0 else ''UNICORE_job'')
     in
     sbind (if req_time > 0 then minutes req_time else Inr 0) (\<lambda>time.
     Inr ([''--job-name='' @ jobname]
       @ opt (queue \<noteq> ''NONE'') (''--partition='' @ queue)
       @ opt (lower exclusive = ''true'') ''--exclusive''
       @ opt (comment \<noteq> ''NONE'') (''--comment='' @ quoted comment)
       @ opt (project \<noteq> ''NONE'') (''--account='' @ project)
       @ (if nodes > 0 then
            [''--nodes='' @ show_int nodes]
            @ opt (processors_per_node > 0) (''--ntasks-per-node='' @ show_int processors_per_node)
          else opt (total_processors > 0) (''--ntasks='' @ show_int total_processors))
       @ opt (gpus_per_node > 0) (''--gpus-per-node='' @ show_int gpus_per_node)
       @ opt (nodes_filter \<noteq> []) (''--constraint='' @ nodes_filter)
       @ opt (qos \<noteq> ''NONE'') (''--qos='' @ qos)
       @ opt (memory \<ge> 0) (''--mem='' @ show_int memory)
       @ opt (req_time > 0) (''--time='' @ show_int (max time 1))
       @ (if email \<noteq> ''NONE'' then [''--mail-user='' @ email, ''--mail-type=ALL''] else [])
       @ opt (reservation_id \<noteq> ''NONE'') (''--reservation='' @ reservation_id)))))"

definition array_suffix :: "int \<Rightarrow> int \<Rightarrow> string" where
  "array_suffix array_spec array_limit =
     show_int array_spec @ (if array_limit > 0 then ''%'' @ show_int array_limit else [])"

definition slurm_create_submit_script :: "string \<Rightarrow> config \<Rightarrow> exn + string list" where
  "slurm_create_submit_script msg cfg =
     (let outcome_dir = py_str (extract_parameter msg ''OUTCOME_DIR'' None);
          umask = extract_parameter msg ''UMASK'' None;
          uspace_dir = py_str (extract_parameter msg ''USPACE_DIR'' None);
          array_spec = extract_number msg ''ARRAY'';
          array_limit = extract_number msg ''ARRAY_LIMIT'';
          suffix = (if array_spec > 0 then ''%a'' else []);
          stderr = param msg ''STDERR'' ''stderr'' @ suffix;
          stdout = param msg ''STDOUT'' ''stdout'' @ suffix
      in
      sbind (parse_common_options msg cfg) (\<lambda>options.
      Inr ([''#!/bin/bash'']
        @ map (\<lambda>option. ''#SBATCH '' @ option) options
        @ (if array_spec > 0 then
             [''#SBATCH --array='' @ array_suffix array_spec array_limit,
              ''UC_ARRAY_TASK_ID = '' @ quoted ''$SLURM_ARRAY_TASK_ID'' @ ''; export UC_ARRAY_TASK_ID'']
           else [])
        @ [''#SBATCH --output='' @ outcome_dir @ ''/'' @ stdout,
           ''#SBATCH --error='' @ outcome_dir @ ''/'' @ stderr,
           ''#SBATCH --chdir='' @ uspace_dir]
        @ (case umask of None \<Rightarrow> [] | Some u \<Rightarrow> [''umask '' @ u]))))"

definition slurm_create_alloc_script :: "string \<Rightarrow> config \<Rightarrow> exn + string list" where
  "slurm_create_alloc_script msg cfg =
     (let uspace_dir = py_str (extract_parameter msg ''USPACE_DIR'' None);
          stdout = param msg ''STDOUT'' ''stdout'';
          alloc_id_file = param msg ''ALLOCATION_ID'' ''UNICORE_ALLOCATION_ID'';
          exit_code_file = param msg ''EXIT_CODE_FILE'' ''UNICORE_SCRIPT_EXIT_CODE''
      in
      sbind (parse_common_options msg cfg) (\<lambda>alloc_options.
      sbind (cfg_text cfg ''tsi.alloc_cmd'') (\<lambda>alloc_cmd.
      Inr [alloc_cmd @ concat (map (\<lambda>o1. '' '' @ o1) alloc_options)
             @ '' > '' @ stdout @ '' 2>&1 ; echo $? > '' @ exit_code_file,
           ''grep -o '' @ [CHR 0x27] @ ''[[:digit:]]*'' @ [CHR 0x27] @ '' '' @ uspace_dir @ ''/'' @ stdout
             @ '' | head -1 > '' @ alloc_id_file])))"

text \<open>The expressions \<open>Submitted\D*(\d+)\D*\<close> and \<open>(\d+)_?\S*\s+(\w+)\s+(\w+)\<close>.\<close>

definition rx_slurm_id :: "rx list" where
  "rx_slurm_id = lit ''Submitted'' @ rx_job_id"

definition rx_slurm_info :: "rx list" where
  "rx_slurm_info = [Open, plus is_digit, Close, Rep (\<lambda>c. c = CHR ''_'') 0 (Some 1), star nonspace,
     plus is_space, Open, plus is_word, Close, plus is_space, Open, plus is_word, Close]"

definition slurm_extract_info :: "string \<Rightarrow> (string \<times> string \<times> string) option" where
  "slurm_extract_info line = map_option (\<lambda>(caps, _). (caps ! 0, caps ! 1, caps ! 2)) (re_match rx_slurm_info line)"

definition slurm_decoders :: "(string \<times> string list) list" where
  "slurm_decoders =
     [(''QUEUED'', [''CONFIGURING'', ''PENDING'', ''RESV_DEL_HOLD'', ''REQUEUE_FED'', ''REQUEUE_HOLD'']),
      (''RUNNING'', [''COMPLETING'', ''RUNNING'', ''SIGNALING'', ''STAGE_OUT'']),
      (''SUSPENDED'', [''PREEMPTED'', ''STOPPED'', ''SUSPENDED'']),
      (''COMPLETED'', [''BOOT_FAIL'', ''CANCELLED'', ''COMPLETED'', ''DEADLINE'', ''FAILED'', ''NODE_FAIL'',
         ''OUT_OF_MEMORY'', ''REVOKED'', ''TIMEOUT''])]"

definition slurm_convert_status :: "string \<Rightarrow> string" where
  "slurm_convert_status bss_state =
     (case find (\<lambda>d. bss_state \<in> set (snd d)) slurm_decoders of None \<Rightarrow> ''UNKNOWN'' | Some d \<Rightarrow> fst d)"

text \<open>
  The dictionary holds a dictionary per partition, so \<open>result.get(p_name, 0) += int(nodes)\<close> adds a
  number to a dictionary when the partition is already there: a \<open>TypeError\<close>.
\<close>

fun slurm_partitions_loop :: "string list \<Rightarrow> partitions \<Rightarrow> exn + partitions" where
  "slurm_partitions_loop [] result = Inr result"
| "slurm_partitions_loop (line # lines) result =
     (case split_ws line of
        [name, nodes] \<Rightarrow>
          (let is_default = endswith name ''*'';
               p_name = (if is_default then butlast name else name)
           in case py_int nodes of
                None \<Rightarrow> Inl ValueError
              | Some n \<Rightarrow>
                  (if map_of result p_name \<noteq> None then Inl TypeError
                   else slurm_partitions_loop lines (dict_set p_name (n, is_default) result)))
      | _ \<Rightarrow> slurm_partitions_loop lines result)"

definition slurm_parse_partitions :: "string \<Rightarrow> exn + partitions" where
  "slurm_parse_partitions raw_info = slurm_partitions_loop (split_ch NL raw_info) []"

definition slurm :: bss where
  "slurm = \<lparr>variant = ''Slurm'', defaults = slurm_defaults, submit_script = slurm_create_submit_script,
     alloc_script = slurm_create_alloc_script, extract_id_expr = rx_slurm_id,
     extract_info = slurm_extract_info, convert_status = slurm_convert_status,
     parse_details = base_parse_job_details, parse_partitions = slurm_parse_partitions\<rparr>"

section \<open>Torque\<close>

definition torque_defaults :: "(string, string) dict" where
  "torque_defaults =
     [(''tsi.submit_cmd'', ''qsub''), (''tsi.qstat_cmd'', ''qstat -a''), (''tsi.details_cmd'', ''qstat -f''),
      (''tsi.abort_cmd'', ''qdel %s''), (''tsi.hold_cmd'', ''qhold''), (''tsi.resume_cmd'', ''qrls'')]"

text \<open>The expression \<open>([a-zA-Z]\S{0,14})\<close>, searched in the job name.\<close>

definition rx_jobname :: "rx list" where
  "rx_jobname = [Open, One is_alpha, Rep nonspace 0 (Some 14), Close]"

definition short_jobname :: "string \<Rightarrow> string" where
  "short_jobname name = (case re_search rx_jobname name of None \<Rightarrow> ''UNICORE_job'' | Some caps \<Rightarrow> caps ! 0)"

definition torque_nodes_filter :: "string \<Rightarrow> string \<Rightarrow> string" where
  "torque_nodes_filter msg nodes_filter =
     (if nodes_filter \<noteq> [] then
        (let user_nodes_filter = param msg ''BSS_NODES_FILTER'' ''NONE'' in
         '':'' @ nodes_filter @ (if user_nodes_filter \<noteq> ''NONE'' then '':'' @ user_nodes_filter else []))
      else nodes_filter)"

definition torque_create_submit_script :: "string \<Rightarrow> config \<Rightarrow> exn + string list" where
  "torque_create_submit_script msg cfg =
     sbind (cfg_text cfg ''tsi.default_job_name'') (\<lambda>default_job_name.
     sbind (cfg_text_get cfg ''tsi.nodes_filter'' []) (\<lambda>global_filter.
     let email = param msg ''EMAIL'' ''NONE'';
         jobname = param msg ''JOBNAME'' default_job_name;
         outcome_dir = py_str (extract_parameter msg ''OUTCOME_DIR'' None);
         project = param msg ''PROJECT'' ''NONE'';
         umask = extract_parameter msg ''UMASK'' None;
         nodes = extract_number msg ''NODES'';
         nodes_filter = torque_nodes_filter msg global_filter;
         processors_per_node = extract_number msg ''PROCESSORS_PER_NODE'';
         array_spec = extract_number msg ''ARRAY'';
         array_limit = extract_number msg ''ARRAY_LIMIT'';
         queue = param msg ''QUEUE'' ''NONE'';
         reservation_id = param msg ''RESERVATION_REFERENCE'' ''NONE'';
         req_time = extract_number msg ''TIME'';
         suffix = (if array_spec > 0 then ''$PBS_ARRAYID'' else []);
         stderr = param msg ''STDERR'' ''stderr'' @ suffix;
         stdout = param msg ''STDOUT'' ''stdout'' @ suffix
     in
     Inr ([''#PBS -N '' @ short_jobname jobname]
       @ opt (queue \<noteq> ''NONE'') (''#PBS -q '' @ queue)
       @ opt (project \<noteq> ''NONE'') (''#PBS -A '' @ project)
       @ opt (nodes > 0) (''#PBS -l nodes='' @ show_int nodes
            @ (if processors_per_node > 0 then '':ppn='' @ show_int processors_per_node else []) @ nodes_filter)
       @ opt (req_time > 0) (''#PBS -l walltime='' @ show_int req_time)
       @ [''#PBS -m '' @ (if email = ''NONE'' then ''n'' else ''abe -M '' @ email)]
       @ opt (reservation_id \<noteq> ''NONE'') (''#PBS -W x=FLAGS:ADVRES:'' @ reservation_id)
       @ (if array_spec > 0 then
            [''#PBS -t '' @ array_suffix array_spec array_limit,
             ''UC_ARRAY_TASK_ID = '' @ quoted ''$PBS_ARRAYID'' @ ''; export UC_ARRAY_TASK_ID'']
          else [])
       @ [''#PBS -o '' @ outcome_dir @ ''/'' @ stdout, ''#PBS -e '' @ outcome_dir @ ''/'' @ stderr]
       @ (case umask of None \<Rightarrow> [] | Some u \<Rightarrow> [''#PBS -W umask='' @ u]))))"

text \<open>
  The expression \<open>\s*(\d+)\.\S+\s+\S+\s+(\S+)\s+\S+\s+\S+\s+\S+\s+\S+\s+\S+\s+\S+\s+([CEHQRTWS]+)\s+\S+\<close>.
\<close>

definition word_gap :: "rx list" where
  "word_gap = [plus nonspace, plus is_space]"

definition rx_torque_info :: "rx list" where
  "rx_torque_info = [star is_space, Open, plus is_digit, Close, One (\<lambda>c. c = CHR ''.'')] @ word_gap @ word_gap
     @ [Open, plus nonspace, Close, plus is_space] @ word_gap @ word_gap @ word_gap @ word_gap @ word_gap @ word_gap
     @ [Open, plus (\<lambda>c. c \<in> set ''CEHQRTWS''), Close, plus is_space, plus nonspace]"

definition torque_extract_info :: "string \<Rightarrow> (string \<times> string \<times> string) option" where
  "torque_extract_info line = map_option (\<lambda>caps. (caps ! 0, caps ! 2, caps ! 1)) (re_search rx_torque_info line)"

text \<open>
  Lines that start with a tab continue the line before them. The state of the loop is \<open>multi\<close>,
  \<open>_last\<close> and the merged lines.
\<close>

fun torque_merge :: "string list \<Rightarrow> bool \<Rightarrow> string \<Rightarrow> string list \<Rightarrow> string list" where
  "torque_merge [] multi last_line merged = merged"
| "torque_merge (line # lines) multi last_line merged =
     (if startswith line [TAB] then torque_merge lines True (last_line @ strip line) merged
      else if multi then torque_merge lines False [] (merged @ [last_line, line])
      else torque_merge lines False line (merged @ [line]))"

definition torque_parse_job_details :: "string \<Rightarrow> (string, string) dict" where
  "torque_parse_job_details raw_info =
     fold (\<lambda>line d. case split_once (CHR ''='') line of
            (k, Some v) \<Rightarrow> dict_set (strip k) (strip v) d
          | (k, None) \<Rightarrow> d)
       (torque_merge (splitlines raw_info @ [''_end_'' @ [NL]]) False [] []) []"

definition torque_convert_status :: "string \<Rightarrow> string" where
  "torque_convert_status bss_state =
     (if bss_state \<in> {''Q'', ''T'', ''W''} then ''QUEUED''
      else if bss_state \<in> {''E'', ''R''} then ''RUNNING''
      else if bss_state \<in> {''S'', ''H''} then ''SUSPENDED''
      else if bss_state \<in> {''C'', ''F''} then ''COMPLETED''
      else ''UNKNOWN'')"

definition torque :: bss where
  "torque = \<lparr>variant = ''Torque'', defaults = torque_defaults, submit_script = torque_create_submit_script,
     alloc_script = base_script, extract_id_expr = rx_job_id, extract_info = torque_extract_info,
     convert_status = torque_convert_status, parse_details = torque_parse_job_details,
     parse_partitions = base_parse_partitions\<rparr>"

section \<open>LSF\<close>

definition lsf_defaults :: "(string, string) dict" where
  "lsf_defaults =
     [(''tsi.submit_cmd'', ''bsub <''), (''tsi.qstat_cmd'', ''bjobs -w -u all''), (''tsi.details_cmd'', ''bjobs -l''),
      (''tsi.abort_cmd'', ''bkill %s''), (''tsi.hold_cmd'', ''bstop''), (''tsi.resume_cmd'', ''bresume''),
      (''tsi.lsf.memory_conversion_factor'', ''1'')]"

text \<open>
  The memory limit is computed but not used; the computation can still raise: by a number of
  processors per node of 0, or a conversion factor that is not a number. The comparisons with the text
  NONE are always true, since the values are numbers.
\<close>

definition lsf_memory_check :: "string \<Rightarrow> config \<Rightarrow> exn + unit" where
  "lsf_memory_check msg cfg =
     (if extract_number msg ''PROCESSORS_PER_NODE'' = 0 then Inl ZeroDivisionError
      else case cfg ''tsi.lsf.memory_conversion_factor'' of
             None \<Rightarrow> Inl TypeError
           | Some (CStr f) \<Rightarrow> (case py_int f of None \<Rightarrow> Inl ValueError | Some _ \<Rightarrow> Inr ())
           | Some _ \<Rightarrow> Inl TypeError)"

definition lsf_create_submit_script :: "string \<Rightarrow> config \<Rightarrow> exn + string list" where
  "lsf_create_submit_script msg cfg =
     sbind (cfg_text cfg ''tsi.default_job_name'') (\<lambda>default_job_name.
     let email = param msg ''EMAIL'' ''NONE'';
         jobname = short_jobname (param msg ''JOBNAME'' default_job_name);
         outcome_dir = py_str (extract_parameter msg ''OUTCOME_DIR'' None);
         project = param msg ''PROJECT'' ''NONE'';
         umask = param msg ''UMASK'' ''NONE'';
         nodes = extract_number msg ''NODES'';
         processors_per_node = extract_number msg ''PROCESSORS_PER_NODE'';
         total_processors = extract_number msg ''TOTAL_PROCESSORS'';
         gpus = param msg ''GPUS_PER_NODE'' ''NONE'';
         array_spec = extract_number msg ''ARRAY'';
         array_limit = extract_number msg ''ARRAY_LIMIT'';
         queue = param msg ''QUEUE'' ''NONE'';
         reservation_id = param msg ''RESERVATION_REFERENCE'' ''NONE'';
         req_time = extract_number msg ''TIME'';
         spread = (total_processors \<le> 0 \<and> nodes > 0 \<and> processors_per_node > 0);
         slots = (if total_processors > 0 then total_processors
                  else if spread then nodes * processors_per_node else 0);
         gpu_count = (case py_int gpus of None \<Rightarrow> 0 | Some g \<Rightarrow> g);
         array_text = ''['' @ show_int array_spec @ '']'' @ (if array_limit > 0 then ''%'' @ show_int array_limit else []);
         suffix = (if array_spec > 0 then ''%I'' else []);
         stderr = param msg ''STDERR'' ''stderr'' @ suffix;
         stdout = param msg ''STDOUT'' ''stdout'' @ suffix
     in
     sbind (minutes req_time) (\<lambda>time.
     sbind (lsf_memory_check msg cfg) (\<lambda>_.
     Inr (opt (email \<noteq> ''NONE'') (''#BSUB -B -N -u '' @ email)
       @ opt (queue \<noteq> ''NONE'') (''#BSUB -q '' @ queue)
       @ opt (project \<noteq> ''NONE'') (''#BSUB -P '' @ project)
       @ opt spread (''#BSUB -R '' @ quoted (''span[ptile='' @ show_int processors_per_node @ '']''))
       @ opt (slots > 0) (''#BSUB -n '' @ show_int slots)
       @ opt (gpu_count > 0) (''#BSUB -gpu '' @ quoted (''num='' @ show_int gpu_count @ '':j_exclusive=yes''))
       @ [''#BSUB -W '' @ show_int time]
       @ opt (reservation_id \<noteq> ''NONE'') (''#BSUB -U '' @ reservation_id)
       @ (if array_spec > 0 then
            [''#BSUB -J '' @ quoted (jobname @ array_text),
             ''UC_ARRAY_TASK_ID = '' @ quoted ''$LSB_JOB_INDEX'' @ ''; export UC_ARRAY_TASK_ID'']
          else [''#BSUB -J '' @ jobname])
       @ [''#BSUB -o '' @ outcome_dir @ ''/'' @ stdout, ''#BSUB -e '' @ outcome_dir @ ''/'' @ stderr,
          ''umask '' @ umask]))))"

definition lsf_init :: "sys \<Rightarrow> bss \<Rightarrow> unit tsi" where
  "lsf_init S B =
     bnd (init_base S B) (\<lambda>_.
     bnd (cfg_str ''tsi.submit_cmd'') (\<lambda>submit_cmd.
     whenP (\<not> endswith (strip submit_cmd) ''<'') (cfg_set ''tsi.submit_cmd'' (CStr (submit_cmd @ '' <'')))))"

text \<open>The expression \<open>^\s*(\d+)\s+\S+\s+(\w+)\s+(\w+)\.*\<close>.\<close>

definition rx_lsf_info :: "rx list" where
  "rx_lsf_info = [Bol, star is_space, Open, plus is_digit, Close, plus is_space] @ word_gap
     @ [Open, plus is_word, Close, plus is_space, Open, plus is_word, Close, star (\<lambda>c. c = CHR ''.'')]"

definition lsf_extract_info :: "string \<Rightarrow> (string \<times> string \<times> string) option" where
  "lsf_extract_info line = map_option (\<lambda>caps. (caps ! 0, caps ! 1, caps ! 2)) (re_search rx_lsf_info line)"

definition lsf_convert_status :: "string \<Rightarrow> string" where
  "lsf_convert_status bss_state =
     (if bss_state \<in> {''PEND'', ''WAIT'', ''ZOMBI''} then ''QUEUED''
      else if bss_state \<in> {''RUN'', ''POST_DONE'', ''POST_ERR''} then ''RUNNING''
      else if bss_state \<in> {''PSUSP'', ''USUSP'', ''SSUSP''} then ''SUSPENDED''
      else if bss_state \<in> {''DONE'', ''EXIT''} then ''COMPLETED''
      else ''UNKNOWN'')"

definition lsf :: bss where
  "lsf = \<lparr>variant = ''LSF'', defaults = lsf_defaults, submit_script = lsf_create_submit_script,
     alloc_script = base_script, extract_id_expr = rx_job_id, extract_info = lsf_extract_info,
     convert_status = lsf_convert_status, parse_details = base_parse_job_details,
     parse_partitions = base_parse_partitions\<rparr>"

section \<open>No batch system\<close>

text \<open>
  \<open>"%d" % (0.01 * t)\<close>: the constant 0.01 is the double 5764607523034235 / 2^59, and the number read
  from the request is a double already, so the product is the double nearest to the exact product.
\<close>

definition grace_seconds :: "int \<Rightarrow> nat" where
  "grace_seconds t = float_trunc (nat t * 5764607523034235) (2 ^ 59)"

definition limit_commands :: "int \<Rightarrow> int \<Rightarrow> string \<times> string" where
  "limit_commands req_time memory =
     (if memory > 0 then ''ulimit -v '' @ show_int (1024 * memory) @ '';'' else [],
      if req_time > 0 then ''timeout -k '' @ show_int (int (grace_seconds req_time)) @ '' '' @ show_int req_time else [])"

definition nobatch_command :: "string \<Rightarrow> string \<Rightarrow> string \<Rightarrow> string" where
  "nobatch_command message cmds_file_name outcome_dir =
     (let (ulimits, timeoutcmd) = limit_commands (extract_number message ''TIME'') (extract_number message ''MEMORY'') in
      ulimits @ '' ionice -c 3 nice -n 100 '' @ timeoutcmd @ '' ./'' @ cmds_file_name @ '' > '' @ outcome_dir @ ''/''
      @ py_str (extract_parameter message ''STDOUT'' None) @ '' 2> '' @ outcome_dir @ ''/''
      @ py_str (extract_parameter message ''STDERR'' None))"

definition nobatch_submit :: "sys \<Rightarrow> string \<Rightarrow> unit tsi" where
  "nobatch_submit S msg =
     bnd (expand_message msg) (\<lambda>message.
     bnd (req_arg (extract_parameter message ''USPACE_DIR'' None)) (\<lambda>uspace_dir.
     bnd (os_chdir uspace_dir) (\<lambda>_.
     bnd (req_arg (extract_parameter message ''OUTCOME_DIR'' None)) (\<lambda>outcome_dir.
     bnd (path_exists outcome_dir) (\<lambda>e.
     bnd (whenP (\<not> e) (os_mkdir S outcome_dir)) (\<lambda>_.
     bnd (addperms outcome_dir 448) (\<lambda>_.
     bnd (gets (\<lambda>w. show_int (own_pid S) @ drop 5 (show_int (clock_ms S (trace w))))) (\<lambda>job_id.
     let cmds_file_name = ''UNICORE_Job_'' @ job_id in
     bnd (write_file S cmds_file_name message) (\<lambda>_.
     bnd (addperms cmds_file_name 493) (\<lambda>_.
     bnd (gets trace) (\<lambda>h.
     bnd (log_event [''/bin/sh'', ''-c'', nobatch_command message cmds_file_name outcome_dir] True) (\<lambda>_.
     bnd (modify (\<lambda>w. w\<lparr>child_pids := child_pids w @ [new_pid S h]\<rparr>)) (\<lambda>_.
     ok (Some job_id))))))))))))))"

text \<open>The expression \<open>(\w) .*UNICORE_Job_(\d+).*\<close>.\<close>

definition rx_nobatch_info :: "rx list" where
  "rx_nobatch_info = [Open, One is_word, Close, One (\<lambda>c. c = CHR '' ''), star dot] @ lit ''UNICORE_Job_''
     @ [Open, plus is_digit, Close, star dot]"

definition nobatch_extract_info :: "string \<Rightarrow> (string \<times> string \<times> string) option" where
  "nobatch_extract_info line =
     map_option (\<lambda>caps. (caps ! 1, caps ! 0, ''NOBATCH'')) (re_search rx_nobatch_info line)"

definition nobatch_convert_status :: "string \<Rightarrow> string" where
  "nobatch_convert_status bss_state = (if bss_state = ''T'' then ''SUSPENDED'' else ''RUNNING'')"

definition nobatch_get_job_details :: "string \<Rightarrow> unit tsi" where
  "nobatch_get_job_details msg =
     ok (Some (''No info available for job '' @ py_str (extract_parameter msg ''BSSID'' None) @ '' '' @ [NL]))"

definition nobatch_hold_job :: "string \<Rightarrow> unit tsi" where
  "nobatch_hold_job msg = ok (Some [NL])"

definition nobatch_resume_job :: "string \<Rightarrow> unit tsi" where
  "nobatch_resume_job msg = ok (Some [NL])"

definition nobatch :: bss where
  "nobatch = \<lparr>variant = ''NOBATCH'', defaults = [], submit_script = base_script, alloc_script = base_script,
     extract_id_expr = rx_job_id, extract_info = nobatch_extract_info,
     convert_status = nobatch_convert_status, parse_details = base_parse_job_details,
     parse_partitions = base_parse_partitions\<rparr>"

section \<open>Captured groups come from the text\<close>

lemma mt_caps_chars:
  assumes "mt r pre s cur caps = Some (gs, t)"
  shows "\<forall>g \<in> set gs. set g \<subseteq> (\<Union>c \<in> set caps. set c) \<union> (case cur of None \<Rightarrow> {} | Some x \<Rightarrow> set x) \<union> set s"
  using assms
proof (induction r pre s cur caps arbitrary: gs t rule: mt.induct)
  case (5 P lo hi r pre c s cur caps)
  let ?next = "mt (Rep P (lo - 1) (pred_opt hi) # r) (c # pre) s (map_option (\<lambda>x. x @ [c]) cur) caps"
  show ?case
  proof (cases "P c \<and> hi \<noteq> Some 0 \<and> ?next \<noteq> None")
    case True
    then have "?next = Some (gs, t)" using "5.prems" by (auto split: option.splits)
    with "5.IH"(1) True show ?thesis by (fastforce split: option.splits)
  next
    case False
    then have h: "(if P c \<and> hi \<noteq> Some 0 then ?next else None) = None" by (cases ?next) auto
    with "5.prems" have "lo = 0" "mt r pre (c # s) cur caps = Some (gs, t)"
      by (auto split: if_splits)
    from "5.IH"(2) [OF h this] show ?thesis .
  qed
qed (fastforce split: option.splits if_splits)+

lemma search_caps_chars:
  "search_from r pre s = Some gs \<Longrightarrow> g \<in> set gs \<Longrightarrow> set g \<subseteq> set s"
proof (induction s arbitrary: pre)
  case Nil
  then show ?case using mt_caps_chars by (fastforce split: option.splits)
next
  case (Cons c s)
  show ?case
  proof (cases "mt r pre (c # s) None []")
    case None
    with Cons show ?thesis by auto
  next
    case (Some m)
    obtain gs' t where m: "m = (gs', t)" by (cases m)
    with Some have "mt r pre (c # s) None [] = Some (gs', t)" by simp
    from mt_caps_chars [OF this] Some m Cons.prems show ?thesis by auto
  qed
qed

lemma search_caps_NL: "re_search r s = Some gs \<Longrightarrow> NL \<notin> set s \<Longrightarrow> g \<in> set gs \<Longrightarrow> NL \<notin> set g"
  unfolding re_search_def using search_caps_chars by blast

lemma match_caps_NL: "re_match r s = Some (gs, t) \<Longrightarrow> NL \<notin> set s \<Longrightarrow> g \<in> set gs \<Longrightarrow> NL \<notin> set g"
  unfolding re_match_def using mt_caps_chars by fastforce

text \<open>Every match of an expression has as many groups as the expression has closing brackets.\<close>

fun groups_no :: "rx list \<Rightarrow> nat" where
  "groups_no [] = 0"
| "groups_no (Close # r) = Suc (groups_no r)"
| "groups_no (_ # r) = groups_no r"

lemma mt_caps_length: "mt r pre s cur caps = Some (gs, t) \<Longrightarrow> length gs = length caps + groups_no r"
  by (induction r pre s cur caps arbitrary: gs t rule: mt.induct)
    (auto split: option.splits if_splits)

lemma search_caps_length: "re_search r s = Some gs \<Longrightarrow> length gs = groups_no r"
proof -
  have "search_from r pre s = Some gs \<Longrightarrow> length gs = groups_no r" for pre
    by (induction s arbitrary: pre) (auto split: option.splits dest: mt_caps_length)
  then show "re_search r s = Some gs \<Longrightarrow> length gs = groups_no r" by (simp add: re_search_def)
qed

lemma match_caps_length: "re_match r s = Some (gs, t) \<Longrightarrow> length gs = groups_no r"
  unfolding re_match_def by (drule mt_caps_length) simp

section \<open>The batch systems satisfy the contract\<close>

lemma info_groups:
  "groups_no rx_slurm_info = 3" "groups_no rx_torque_info = 3" "groups_no rx_lsf_info = 3"
  "groups_no rx_nobatch_info = 2"
  by (simp_all add: rx_slurm_info_def rx_torque_info_def rx_lsf_info_def rx_nobatch_info_def word_gap_def)

lemma slurm_info_NL:
  assumes "slurm_extract_info l = Some (i, s, q)" and "NL \<notin> set l"
  shows "NL \<notin> set i \<and> NL \<notin> set s \<and> NL \<notin> set q"
proof -
  obtain gs t where m: "re_match rx_slurm_info l = Some (gs, t)" and g: "i = gs ! 0" "s = gs ! 1" "q = gs ! 2"
    using assms by (auto simp: slurm_extract_info_def)
  have "length gs = 3" using match_caps_length [OF m] by (simp add: info_groups)
  then have "{gs ! 0, gs ! 1, gs ! 2} \<subseteq> set gs" by simp
  with match_caps_NL [OF m assms(2)] g show ?thesis by auto
qed

lemma search_info_NL:
  assumes "re_search r l = Some gs" and "NL \<notin> set l" and "k < groups_no r"
  shows "NL \<notin> set (gs ! k)"
  using assms search_caps_length [OF assms(1)] search_caps_NL [OF assms(1,2)] by simp

lemma param_NL: "NL \<notin> set d \<Longrightarrow> NL \<notin> set name \<Longrightarrow> NL \<notin> set (param msg name d)"
  by (auto simp: param_def split: option.split dest: extract_parameter_no_NL)

lemma py_str_NL: "NL \<notin> set name \<Longrightarrow> NL \<notin> set (py_str (extract_parameter msg name None))"
  by (auto simp: py_str_def split: option.split dest: extract_parameter_no_NL)

lemma show_int_NL: "NL \<notin> set (show_int i)"
  by (rule no_space_NL [OF show_int_no_space])

lemma opt_NL: "NL \<notin> set s \<Longrightarrow> c \<in> set (opt b s) \<Longrightarrow> NL \<notin> set c"
  by (simp add: opt_def split: if_splits)

lemma cfg_text_NL: "clean_config cfg \<Longrightarrow> cfg_text cfg k = Inr s \<Longrightarrow> NL \<notin> set s"
  by (auto simp: cfg_text_def clean_config_def split: option.splits elim!: as_str.elims)

lemma cfg_text_get_NL: "clean_config cfg \<Longrightarrow> NL \<notin> set d \<Longrightarrow> cfg_text_get cfg k d = Inr s \<Longrightarrow> NL \<notin> set s"
  by (auto simp: cfg_text_get_def clean_config_def split: option.splits elim!: as_str.elims)

lemma short_jobname_NL: "NL \<notin> set s \<Longrightarrow> NL \<notin> set (short_jobname s)"
  using search_info_NL [of rx_jobname s] by (auto simp: short_jobname_def rx_jobname_def split: option.split)

lemma array_suffix_NL: "NL \<notin> set (array_suffix a b)"
  using show_int_NL by (auto simp: array_suffix_def)

lemma slurm_filter_NL: "NL \<notin> set f \<Longrightarrow> NL \<notin> set (slurm_nodes_filter msg f)"
  using param_NL [of "''NONE''" "''BSS_NODES_FILTER''" msg] by (auto simp: slurm_nodes_filter_def Let_def)

lemma torque_filter_NL: "NL \<notin> set f \<Longrightarrow> NL \<notin> set (torque_nodes_filter msg f)"
  using param_NL [of "''NONE''" "''BSS_NODES_FILTER''" msg] by (auto simp: torque_nodes_filter_def Let_def)

lemmas no_break = param_NL py_str_NL show_int_NL short_jobname_NL array_suffix_NL slurm_filter_NL
  torque_filter_NL

definition lines_ok :: "exn + string list \<Rightarrow> bool" where
  "lines_ok r \<longleftrightarrow> (\<forall>cmds. r = Inr cmds \<longrightarrow> (\<forall>c \<in> set cmds. NL \<notin> set c))"

lemma lines_ok_Inr: "lines_ok (Inr cmds) \<longleftrightarrow> list_all (\<lambda>c. NL \<notin> set c) cmds"
  by (simp add: lines_ok_def list_all_iff)

lemma lines_ok_bind: "(\<And>x. r = Inr x \<Longrightarrow> lines_ok (f x)) \<Longrightarrow> lines_ok (sbind r f)"
  by (cases r) (simp_all add: lines_ok_def)

lemma list_all_cases:
  "list_all P (opt b s) \<longleftrightarrow> (b \<longrightarrow> P s)"
  "list_all P (if b then x else y) \<longleftrightarrow> (if b then list_all P x else list_all P y)"
  "list_all P (case v of None \<Rightarrow> [] | Some u \<Rightarrow> [f u]) \<longleftrightarrow> (\<forall>u. v = Some u \<longrightarrow> P (f u))"
  by (simp_all add: opt_def split: option.split)

lemma quoted_NL: "NL \<in> set (quoted s) \<longleftrightarrow> NL \<in> set s"
  by (simp add: quoted_def)

lemma options_ok:
  assumes "clean_config cfg"
  shows "lines_ok (parse_common_options msg cfg)"
  unfolding parse_common_options_def Let_def
proof (intro lines_ok_bind)
  fix d f t
  assume 1: "cfg_text cfg ''tsi.default_job_name'' = Inr d" "cfg_text_get cfg ''tsi.nodes_filter'' [] = Inr f"
  have "NL \<notin> set d" "NL \<notin> set f" using cfg_text_NL [OF assms 1(1)] cfg_text_get_NL [OF assms _ 1(2)] by simp_all
  note this [simp] and no_break [simp]
  show "lines_ok (Inr ([''--job-name='' @ (if list_all slurm_name_char (param msg ''JOBNAME'' d) then param msg ''JOBNAME'' d else ''UNICORE_job'')]
       @ opt (param msg ''QUEUE'' ''NONE'' \<noteq> ''NONE'') (''--partition='' @ param msg ''QUEUE'' ''NONE'')
       @ opt (lower (param msg ''SSR_EXCLUSIVE'' (param msg ''EXCLUSIVE'' ''NONE'')) = ''true'') ''--exclusive''
       @ opt (param msg ''SSR_COMMENT'' ''NONE'' \<noteq> ''NONE'') (''--comment='' @ quoted (param msg ''SSR_COMMENT'' ''NONE''))
       @ opt (param msg ''PROJECT'' ''NONE'' \<noteq> ''NONE'') (''--account='' @ param msg ''PROJECT'' ''NONE'')
       @ (if extract_number msg ''NODES'' > 0 then
            [''--nodes='' @ show_int (extract_number msg ''NODES'')]
            @ opt (extract_number msg ''PROCESSORS_PER_NODE'' > 0) (''--ntasks-per-node='' @ show_int (extract_number msg ''PROCESSORS_PER_NODE''))
          else opt (extract_number msg ''TOTAL_PROCESSORS'' > 0) (''--ntasks='' @ show_int (extract_number msg ''TOTAL_PROCESSORS'')))
       @ opt (extract_number msg ''GPUS_PER_NODE'' > 0) (''--gpus-per-node='' @ show_int (extract_number msg ''GPUS_PER_NODE''))
       @ opt (slurm_nodes_filter msg f \<noteq> []) (''--constraint='' @ slurm_nodes_filter msg f)
       @ opt (param msg ''QOS'' ''NONE'' \<noteq> ''NONE'') (''--qos='' @ param msg ''QOS'' ''NONE'')
       @ opt (extract_number msg ''MEMORY'' \<ge> 0) (''--mem='' @ show_int (extract_number msg ''MEMORY''))
       @ opt (extract_number msg ''TIME'' > 0) (''--time='' @ show_int (max t 1))
       @ (if param msg ''EMAIL'' ''NONE'' \<noteq> ''NONE'' then [''--mail-user='' @ param msg ''EMAIL'' ''NONE'', ''--mail-type=ALL''] else [])
       @ opt (param msg ''RESERVATION_REFERENCE'' ''NONE'' \<noteq> ''NONE'') (''--reservation='' @ param msg ''RESERVATION_REFERENCE'' ''NONE'')))"
    by (simp add: lines_ok_Inr list_all_cases quoted_NL)
qed

lemma slurm_script_ok:
  assumes "clean_config cfg"
  shows "lines_ok (slurm_create_submit_script msg cfg)"
proof -
  note no_break [simp]
  have p: "list_all (\<lambda>c. NL \<notin> set c) os" if "parse_common_options msg cfg = Inr os" for os
    using options_ok [OF assms] that by (metis lines_ok_Inr)
  have u: "NL \<notin> set u" if "extract_parameter msg ''UMASK'' None = Some u" for u
    using extract_parameter_no_NL [OF that] by simp
  show ?thesis
    unfolding slurm_create_submit_script_def Let_def
    by (rule lines_ok_bind) (use p u in \<open>simp add: lines_ok_Inr list_all_cases quoted_NL list.pred_map comp_def\<close>)
qed

lemma torque_script_ok:
  assumes "clean_config cfg"
  shows "lines_ok (torque_create_submit_script msg cfg)"
  unfolding torque_create_submit_script_def Let_def
proof (intro lines_ok_bind, goal_cases)
  case (1 d f)
  have "NL \<notin> set d" "NL \<notin> set f" using cfg_text_NL [OF assms 1(1)] cfg_text_get_NL [OF assms _ 1(2)] by simp_all
  note this [simp] and no_break [simp]
  have "NL \<notin> set u" if "extract_parameter msg ''UMASK'' None = Some u" for u
    using extract_parameter_no_NL [OF that] by simp
  then show ?case
    by (simp add: lines_ok_Inr list_all_cases quoted_NL)
qed

lemma lsf_script_ok:
  assumes "clean_config cfg"
  shows "lines_ok (lsf_create_submit_script msg cfg)"
  unfolding lsf_create_submit_script_def Let_def
proof (intro lines_ok_bind, goal_cases)
  case (1 d t x)
  have "NL \<notin> set d" using cfg_text_NL [OF assms 1(1)] .
  note this [simp] and no_break [simp]
  show ?case
    by (simp add: lines_ok_Inr list_all_cases quoted_NL)
qed

interpretation slurm: batch_system slurm
proof unfold_locales
  show "convert_status slurm s \<in> set ustates" for s
    by (simp add: slurm_def slurm_convert_status_def slurm_decoders_def ustates_def)
  show "extract_info slurm l = Some (i, s, q) \<Longrightarrow> NL \<notin> set l \<Longrightarrow> NL \<notin> set i \<and> NL \<notin> set s \<and> NL \<notin> set q" for l i s q
    using slurm_info_NL by (simp add: slurm_def)
  show "submit_script slurm m cfg = Inr cmds \<Longrightarrow> clean_config cfg \<Longrightarrow> c \<in> set cmds \<Longrightarrow> NL \<notin> set c" for m cfg cmds c
    using slurm_script_ok [of cfg m] by (simp add: slurm_def lines_ok_def)
qed

interpretation torque: batch_system torque
proof unfold_locales
  show "convert_status torque s \<in> set ustates" for s
    by (simp add: torque_def torque_convert_status_def ustates_def)
  show "extract_info torque l = Some (i, s, q) \<Longrightarrow> NL \<notin> set l \<Longrightarrow> NL \<notin> set i \<and> NL \<notin> set s \<and> NL \<notin> set q" for l i s q
    using search_info_NL [of rx_torque_info l] by (auto simp: torque_def torque_extract_info_def info_groups)
  show "submit_script torque m cfg = Inr cmds \<Longrightarrow> clean_config cfg \<Longrightarrow> c \<in> set cmds \<Longrightarrow> NL \<notin> set c" for m cfg cmds c
    using torque_script_ok [of cfg m] by (simp add: torque_def lines_ok_def)
qed

interpretation lsf: batch_system lsf
proof unfold_locales
  show "convert_status lsf s \<in> set ustates" for s
    by (simp add: lsf_def lsf_convert_status_def ustates_def)
  show "extract_info lsf l = Some (i, s, q) \<Longrightarrow> NL \<notin> set l \<Longrightarrow> NL \<notin> set i \<and> NL \<notin> set s \<and> NL \<notin> set q" for l i s q
    using search_info_NL [of rx_lsf_info l] by (auto simp: lsf_def lsf_extract_info_def info_groups)
  show "submit_script lsf m cfg = Inr cmds \<Longrightarrow> clean_config cfg \<Longrightarrow> c \<in> set cmds \<Longrightarrow> NL \<notin> set c" for m cfg cmds c
    using lsf_script_ok [of cfg m] by (simp add: lsf_def lines_ok_def)
qed

interpretation nobatch: batch_system nobatch
proof unfold_locales
  show "convert_status nobatch s \<in> set ustates" for s
    by (simp add: nobatch_def nobatch_convert_status_def ustates_def)
  show "extract_info nobatch l = Some (i, s, q) \<Longrightarrow> NL \<notin> set l \<Longrightarrow> NL \<notin> set i \<and> NL \<notin> set s \<and> NL \<notin> set q" for l i s q
    using search_info_NL [of rx_nobatch_info l] by (auto simp: nobatch_def nobatch_extract_info_def info_groups)
  show "submit_script nobatch m cfg = Inr cmds \<Longrightarrow> clean_config cfg \<Longrightarrow> c \<in> set cmds \<Longrightarrow> NL \<notin> set c" for m cfg cmds c
    by (simp add: nobatch_def base_script_def)
qed

section \<open>Properties of the status listing\<close>

text \<open>
  C15: The status listing. For every batch system the listing is computed without an error from any
  output of the status command; every job that occurs in the output is reported exactly once, with
  the first of its lines whose state ranks highest (COMPLETED, QUEUED, SUSPENDED, RUNNING, UNKNOWN).
\<close>

theorem status_listing_correct:
  assumes "B \<in> {nobatch, slurm, torque, lsf}"
  shows "\<exists>d. parse_status_listing B out = Inr (''QSTAT'' @ [NL] @ concat (map status_line d)) \<and>
    listing_of B (splitlines out) d"
  using assms nobatch.status_listing slurm.status_listing torque.status_listing lsf.status_listing by blast

definition sample_squeue :: string where
  "sample_squeue = ''12_1 PENDING large'' @ [NL] @ ''12_2 RUNNING large'' @ [NL] @ ''7 FAILED small'' @ [NL]"

theorem status_listing_correct_witness:
  "\<exists>d. parse_status_listing slurm sample_squeue = Inr (''QSTAT'' @ [NL] @ concat (map status_line d)) \<and>
     listing_of slurm (splitlines sample_squeue) d"
  by (rule status_listing_correct) simp

section \<open>Properties of parsing\<close>

lemma plus_end:
  assumes "a \<noteq> []" and "list_all P a" and "mt r (rev a @ pre) [] (map_option (\<lambda>x. x @ a) cur) caps = Some m"
  shows "mt (plus P # r) pre a cur caps = Some m"
proof -
  have t: "takeWhile P a = a" "dropWhile P a = []" using assms(2) by (simp_all add: list_all_iff)
  show ?thesis by (rule mt_plus_longest) (simp_all only: t assms(1,3) not_False_eq_True)
qed

lemma star_run:
  assumes "list_all P a" and "\<not> P c"
    and "mt r (rev a @ pre) (c # s) (map_option (\<lambda>x. x @ a) cur) caps = Some m"
  shows "mt (star P # r) pre (a @ c # s) cur caps = Some m"
proof -
  have t: "takeWhile P (a @ c # s) = a" "dropWhile P (a @ c # s) = c # s"
    using assms(1,2) by (simp_all add: list_all_iff)
  show ?thesis by (rule mt_star_longest) (simp only: t assms(3))
qed

definition word :: "string \<Rightarrow> bool" where
  "word s \<longleftrightarrow> s \<noteq> [] \<and> list_all is_word s"

lemma word_char: "is_word c \<Longrightarrow> \<not> is_space c"
  by (auto simp: char_classes code_def)

lemma blank_not [simp]: "\<not> is_word (CHR '' '')" "is_space (CHR '' '')" "\<not> nonspace (CHR '' '')" "\<not> is_digit (CHR '' '')"
  by (simp_all add: char_classes code_def nonspace_def)

lemma blank_then_word:
  assumes "word a" and "mt r (CHR '' '' # pre) (a @ s) None caps = Some m"
  shows "mt (plus is_space # r) pre (CHR '' '' # a @ s) None caps = Some m"
proof -
  obtain c d where cd: "a = c # d" "\<not> is_space c" using assms(1) by (cases a) (auto simp: word_def word_char)
  show ?thesis
    using plus_run [of "'' ''" is_space c r pre "d @ s" None caps m] assms cd by simp
qed

lemma optional_underscore:
  assumes "no_space a" and "mt r (rev a @ pre) (CHR '' '' # s) None caps = Some m"
  shows "mt (Rep (\<lambda>c. c = CHR ''_'') 0 (Some 1) # star nonspace # r) pre (a @ CHR '' '' # s) None caps = Some m"
proof -
  have st: "mt (star nonspace # r) q (b @ CHR '' '' # s) None caps = Some m"
    if "list_all nonspace b" "rev b @ q = rev a @ pre" for b q
    by (rule star_run) (use that assms(2) in simp_all)
  have ns: "list_all nonspace a" using assms(1) by (simp add: no_space_def nonspace_def list_all_iff)
  show ?thesis
  proof (cases "\<exists>b. a = CHR ''_'' # b")
    case True
    then obtain b where b: "a = CHR ''_'' # b" by blast
    have "mt (star nonspace # r) (CHR ''_'' # pre) (b @ CHR '' '' # s) None caps = Some m"
      using ns b by (intro st) simp_all
    then have "mt (Rep (\<lambda>c. c = CHR ''_'') 0 (Some 0) # star nonspace # r) (CHR ''_'' # pre) (b @ CHR '' '' # s) None caps = Some m"
      by (cases b) simp_all
    then show ?thesis by (simp add: b pred_opt_def)
  next
    case False
    have "mt (star nonspace # r) pre (a @ CHR '' '' # s) None caps = Some m" using ns by (intro st) simp_all
    with False show ?thesis by (cases a) (auto simp: pred_opt_def)
  qed
qed

text \<open>
  A line of \<open>squeue -h -o "%i %T %P"\<close> is read back exactly: the job number without the suffix of
  an array task, the state and the partition.
\<close>

theorem slurm_extract_info_line:
  assumes "no_space suffix" and "suffix = [] \<or> \<not> is_digit (hd suffix)" and "word state" and "word part"
  shows "slurm_extract_info (show_nat n @ suffix @ '' '' @ state @ '' '' @ part) = Some (show_nat n, state, part)"
proof -
  let ?tail = "'' '' @ state @ '' '' @ part"
  obtain c s where c: "suffix @ ?tail = c # s" "\<not> is_digit c"
    using assms(2) by (cases suffix) auto
  have last: "mt [Open, plus is_word, Close] pre part None caps = Some (caps @ [part], [])" for pre caps
    using assms(4) plus_end [of part is_word "[Close]" pre "Some []" caps] by (simp add: word_def)
  have mid: "mt [Open, plus is_word, Close, plus is_space, Open, plus is_word, Close] pre (state @ '' '' @ part) None caps
      = Some (caps @ [state, part], [])" for pre caps
  proof -
    have "mt [plus is_space, Open, plus is_word, Close] q (CHR '' '' # part) None (caps @ [state]) =
        Some (caps @ [state, part], [])" for q
      using blank_then_word [OF assms(4), of "[Open, plus is_word, Close]" q "[]" "caps @ [state]"] last [of "CHR '' '' # q" "caps @ [state]"] by simp
    then show ?thesis
      using assms(3) plus_run [of state is_word "CHR '' ''" "[Close, plus is_space, Open, plus is_word, Close]" pre part "Some []" caps]
      by (simp add: word_def)
  qed
  have rest: "mt (drop 3 rx_slurm_info) pre (suffix @ ?tail) None caps = Some (caps @ [state, part], [])" for pre caps
    unfolding rx_slurm_info_def numeral_3_eq_3 drop_Suc_Cons drop_0 append.simps
    by (rule optional_underscore [OF assms(1)], rule blank_then_word [OF assms(3)]) (use mid in simp)
  have "mt (plus is_digit # Close # drop 3 rx_slurm_info) [] (show_nat n @ suffix @ ?tail) (Some []) [] =
      Some ([show_nat n, state, part], [])"
    unfolding c(1)
    by (rule plus_run) (use c rest in \<open>simp_all add: show_nat_digits\<close>)
  then show ?thesis by (simp add: slurm_extract_info_def re_match_def rx_slurm_info_def numeral_3_eq_3)
qed

theorem slurm_extract_info_line_witness:
  "slurm_extract_info ''177070_1 RUNNING large'' = Some (''177070'', ''RUNNING'', ''large'')"
proof -
  have n: "show_nat 177070 = ''177070''" by (simp add: show_nat.simps digit_char_def char_of_def bit_Suc_0_iff)
  have "no_space ''_1''" "word ''RUNNING''" "word ''large''" "\<not> is_digit (hd ''_1'')" by code_simp+
  with slurm_extract_info_line [of "''_1''" "''RUNNING''" "''large''" 177070] n show ?thesis by simp
qed

lemma job_id_match:
  assumes "list_all nondigit a" and "b = [] \<or> \<not> is_digit (hd b)"
  shows "\<exists>r. mt rx_job_id pre (a @ show_nat n @ b) None [] = Some ([show_nat n], r)"
proof -
  have tail: "\<exists>r. mt [star nondigit] p s None caps = Some (caps, r)" for p s caps
    by (intro exI, rule mt_star_longest) simp
  have num: "\<exists>r. mt [plus is_digit, Close, star nondigit] p (show_nat n @ b) (Some []) [] = Some ([show_nat n], r)" for p
  proof (cases b)
    case Nil
    obtain r where "mt [star nondigit] (rev (show_nat n) @ p) [] None [show_nat n] = Some ([show_nat n], r)" using tail by blast
    then have "mt [plus is_digit, Close, star nondigit] p (show_nat n) (Some []) [] = Some ([show_nat n], r)"
      by (intro plus_end) (simp_all add: show_nat_digits)
    with Nil show ?thesis by auto
  next
    case (Cons c s)
    obtain r where "mt [star nondigit] (rev (show_nat n) @ p) (c # s) None [show_nat n] = Some ([show_nat n], r)" using tail by blast
    then have "mt [plus is_digit, Close, star nondigit] p (show_nat n @ c # s) (Some []) [] = Some ([show_nat n], r)"
      using Cons assms(2) by (intro plus_run) (simp_all add: show_nat_digits)
    with Cons show ?thesis by auto
  qed
  obtain d ds where d: "show_nat n = d # ds" "is_digit d" using digit_first by blast
  obtain r where "mt [plus is_digit, Close, star nondigit] (rev a @ pre) (show_nat n @ b) (Some []) [] = Some ([show_nat n], r)"
    using num by blast
  then have "mt rx_job_id pre (a @ d # ds @ b) None [] = Some ([show_nat n], r)"
    unfolding rx_job_id_def using d assms(1) by (intro star_run) (simp_all add: nondigit_def)
  then show ?thesis using d by auto
qed

lemma search_first: "mt r [] s None [] = Some (gs, t) \<Longrightarrow> re_search r s = Some gs"
  by (cases s) (simp_all add: re_search_def)

text \<open>
  The id of a submitted job is the first number in the reply of the submit command; for Slurm the
  reply must begin with the word Submitted.
\<close>

theorem extract_job_id_number:
  assumes "list_all nondigit a" and "b = [] \<or> \<not> is_digit (hd b)"
  shows "extract_job_id torque (a @ show_nat n @ b) = Some (show_nat n) \<and>
    extract_job_id lsf (a @ show_nat n @ b) = Some (show_nat n) \<and>
    extract_job_id slurm (''Submitted'' @ a @ show_nat n @ b) = Some (show_nat n)"
proof -
  obtain r where r: "mt rx_job_id [] (a @ show_nat n @ b) None [] = Some ([show_nat n], r)"
    using job_id_match [OF assms] by blast
  obtain q where "mt rx_job_id (rev ''Submitted'') (a @ show_nat n @ b) None [] = Some ([show_nat n], q)"
    using job_id_match [OF assms] by blast
  then have "mt rx_slurm_id [] (''Submitted'' @ a @ show_nat n @ b) None [] = Some ([show_nat n], q)"
    by (simp add: rx_slurm_id_def)
  from search_first [OF this] search_first [OF r] show ?thesis
    by (simp add: extract_job_id_def torque_def lsf_def slurm_def)
qed

theorem extract_job_id_number_witness:
  "extract_job_id slurm ''Submitted batch job 42 on cluster 3'' = Some ''42''"
proof -
  have n: "show_nat 42 = ''42''" by code_simp
  have "list_all nondigit '' batch job ''" "\<not> is_digit (hd '' on cluster 3'')" by code_simp+
  with extract_job_id_number [of "'' batch job ''" "'' on cluster 3''" 42] n show ?thesis by simp
qed

section \<open>Partitions\<close>

lemma words_acc_word: "list_all (\<lambda>c. \<not> is_space c) a \<Longrightarrow> words_acc w (a @ s) = words_acc (w @ a) s"
  by (induction a arbitrary: w) auto

lemma split_ws_two:
  assumes "a \<noteq> []" and "no_space a" and "b \<noteq> []" and "no_space b"
  shows "split_ws (a @ '' '' @ b) = [a, b]"
proof -
  have "words_acc [] b = [b]" using assms words_acc_word [of b "[]" "[]"] by (simp add: no_space_def)
  with assms show ?thesis by (simp add: split_ws_def words_acc_word no_space_def)
qed

definition partition_line :: "string \<times> nat \<times> bool \<Rightarrow> string" where
  "partition_line = (\<lambda>(name, nodes, dflt). name @ (if dflt then ''*'' else []) @ '' '' @ show_nat nodes)"

definition partition_ok :: "string \<times> nat \<times> bool \<Rightarrow> bool" where
  "partition_ok = (\<lambda>(name, nodes, dflt). name \<noteq> [] \<and> no_space name \<and> \<not> endswith name ''*'')"

lemma no_space_star: "no_space (a @ (if b then ''*'' else [])) = no_space a"
  by (simp add: no_space_def char_classes code_def)

lemma endswith_star: "endswith (a @ ''*'') ''*''"
  by (simp add: endswith_def)

lemma py_int_show_nat: "py_int (show_nat n) = Some (int n)"
  using py_int_show_int [of "int n"] by (simp add: show_int_def)

lemma partition_step:
  assumes "partition_ok (name, nodes, dflt)"
  shows "slurm_partitions_loop (partition_line (name, nodes, dflt) # lines) result =
    (if map_of result name \<noteq> None then Inl TypeError
     else slurm_partitions_loop lines (dict_set name (int nodes, dflt) result))"
proof -
  let ?name = "name @ (if dflt then ''*'' else [])"
  have "split_ws (?name @ '' '' @ show_nat nodes) = [?name, show_nat nodes]"
    using assms by (intro split_ws_two) (simp_all add: partition_ok_def no_space_star show_nat_no_space)
  moreover have "endswith ?name ''*'' = dflt" using assms by (auto simp: partition_ok_def endswith_star)
  ultimately show ?thesis by (auto simp: partition_line_def py_int_show_nat Let_def)
qed

text \<open>
  The partitions of a Slurm cluster are read back exactly from the output of sinfo (names, numbers
  of nodes, the default partition), as long as no partition is listed twice.
\<close>

theorem slurm_partitions_read:
  assumes "list_all partition_ok ps" and "distinct (map fst ps)"
  shows "slurm_parse_partitions (join [NL] (map partition_line ps)) = Inr (map (\<lambda>(name, n, d). (name, int n, d)) ps)"
proof -
  have nl: "list_all (\<lambda>l. NL \<notin> set l) (map partition_line ps)"
    using assms(1) no_space_NL [OF show_nat_no_space] by (auto simp: list_all_iff partition_ok_def partition_line_def dest!: no_space_NL)
  have lines: "split_ch NL (join [NL] (map partition_line ps)) = (if ps = [] then [[]] else map partition_line ps)"
    using nl
  proof (induction ps rule: induct_list012)
    case (3 p q ps)
    then show ?case by (simp add: split_ch_append)
  qed (simp_all add: split_ch_none)
  have loop: "slurm_partitions_loop (map partition_line qs) r = Inr (r @ map (\<lambda>(name, n, d). (name, int n, d)) qs)"
    if "list_all partition_ok qs" "distinct (map fst qs)" "fst ` set qs \<inter> fst ` set r = {}" for qs r
    using that
  proof (induction qs arbitrary: r)
    case (Cons q qs)
    obtain name n d where q: "q = (name, n, d)" by (cases q)
    have new: "map_of r name = None" using Cons.prems q by (auto simp: map_of_eq_None_iff)
    then have set: "dict_set name e r = r @ [(name, e)]" for e by (induction r) auto
    have "slurm_partitions_loop (map partition_line qs) (r @ [(name, int n, d)]) =
        Inr ((r @ [(name, int n, d)]) @ map (\<lambda>(name, n, d). (name, int n, d)) qs)"
      using Cons.prems q by (intro Cons.IH) (auto simp: image_iff)
    with Cons.prems q new set show ?case by (simp add: partition_step del: slurm_partitions_loop.simps(2))
  qed simp
  show ?thesis using loop [of ps "[]"] assms lines
    by (cases "ps = []") (simp_all add: slurm_parse_partitions_def split_ws_def)
qed

theorem slurm_partitions_read_witness:
  "slurm_parse_partitions (''batch* 10'' @ [NL] @ ''large 5'') = Inr [(''batch'', 10, True), (''large'', 5, False)]"
proof -
  have n: "show_nat 10 = ''10''" "show_nat 5 = ''5''" by code_simp+
  have "list_all partition_ok [(''batch'', 10, True), (''large'', 5, False)]" by code_simp
  from slurm_partitions_read [OF this] n show ?thesis by (simp add: partition_line_def)
qed

text \<open>
  When sinfo prints a second line for a partition, as it does when the nodes of a partition differ,
  the code adds a number to a dictionary and the whole request fails with a \<open>TypeError\<close>.
\<close>

theorem slurm_partitions_twice_fails:
  assumes "partition_ok (name, m, d)" and "partition_ok (name, n, e)"
  shows "slurm_partitions_loop (partition_line (name, m, d) # partition_line (name, n, e) # lines) [] = Inl TypeError"
  using assms by (simp add: partition_step del: slurm_partitions_loop.simps(2))

theorem slurm_partitions_twice_fails_witness:
  "slurm_parse_partitions (''batch* 10'' @ [NL] @ ''batch* 2'') = Inl TypeError"
proof -
  have n: "show_nat 10 = ''10''" "show_nat 2 = ''2''" by code_simp+
  have "partition_ok (''batch'', 10, True)" "partition_ok (''batch'', 2, True)" by code_simp+
  moreover have "split_ch NL (''batch* 10'' @ [NL] @ ''batch* 2'') = [''batch* 10'', ''batch* 2'']" by code_simp
  ultimately show ?thesis
    using slurm_partitions_twice_fails [of "''batch''" 10 True 2 True "[]"]
    by (simp add: slurm_parse_partitions_def partition_line_def n del: split_ch.simps slurm_partitions_loop.simps)
qed

section \<open>Job details of Torque\<close>

text \<open>
  Lines that continue an attribute are joined to it, but of two attributes in a row that both have
  a continuation only the first is joined: the continuation of the second is split off and lost.
\<close>

theorem torque_second_continuation_lost:
  assumes "\<not> startswith a [TAB]" and "\<not> startswith b [TAB]" and "\<not> startswith c [TAB]"
  shows "torque_merge [a, TAB # x, b, TAB # y, c] False [] [] =
    [a, a @ strip (TAB # x), b, strip (TAB # y), c]"
  using assms by simp

theorem torque_second_continuation_lost_witness:
  "torque_parse_job_details (''A = 1'' @ [NL, TAB] @ ''x'' @ [NL] @ ''B = 2'' @ [NL, TAB] @ ''y'' @ [NL] @ ''C = 3'')
     = [(''A'', ''1x''), (''B'', ''2''), (''C'', ''3'')]"
proof -
  have l: "splitlines (''A = 1'' @ [NL, TAB] @ ''x'' @ [NL] @ ''B = 2'' @ [NL, TAB] @ ''y'' @ [NL] @ ''C = 3'') =
      [''A = 1'', TAB # ''x'', ''B = 2'', TAB # ''y'', ''C = 3'']" by code_simp
  have app: "torque_merge (ls @ [e]) f k m = torque_merge ls f k m @ [e]"
    if "\<not> startswith e [TAB]" "ls \<noteq> []" "\<not> startswith (last ls) [TAB]" for ls e f k m
    using that
  proof (induction ls arbitrary: f k m)
    case (Cons l ls)
    then show ?case by (cases ls) auto
  qed simp
  have "torque_merge [''A = 1'', TAB # ''x'', ''B = 2'', TAB # ''y'', ''C = 3''] False [] [] =
      [''A = 1'', ''A = 1'' @ strip (TAB # ''x''), ''B = 2'', strip (TAB # ''y''), ''C = 3'']"
    by (rule torque_second_continuation_lost) code_simp+
  moreover have "strip (TAB # ''x'') = ''x''" "strip (TAB # ''y'') = ''y''" by code_simp+
  ultimately have m: "torque_merge ([''A = 1'', TAB # ''x'', ''B = 2'', TAB # ''y'', ''C = 3''] @ [''_end_'' @ [NL]]) False [] [] =
      [''A = 1'', ''A = 1x'', ''B = 2'', ''y'', ''C = 3'', ''_end_'' @ [NL]]"
    by (subst app) simp_all
  have "fold (\<lambda>line d. case split_once (CHR ''='') line of (k, Some v) \<Rightarrow> dict_set (strip k) (strip v) d | (k, None) \<Rightarrow> d)
      [''A = 1'', ''A = 1x'', ''B = 2'', ''y'', ''C = 3'', ''_end_'' @ [NL]] [] = [(''A'', ''1x''), (''B'', ''2''), (''C'', ''3'')]"
    by code_simp
  with l m show ?thesis by (simp only: torque_parse_job_details_def)
qed

section \<open>Submission\<close>

lemma dirname_join: "CHR ''/'' \<notin> set n \<Longrightarrow> dirname (c @ ''/'' @ n) = c"
  by (simp add: dirname_def rindex_last)

lemma basename_join: "CHR ''/'' \<notin> set n \<Longrightarrow> basename (c @ ''/'' @ n) = n"
  by (simp add: basename_def rindex_last)

text \<open>A new file in the working directory: it is written, and its owner can set its permissions.\<close>

definition free_name :: "sys \<Rightarrow> world \<Rightarrow> string \<Rightarrow> bool" where
  "free_name S w n \<longleftrightarrow> n \<noteq> [] \<and> CHR ''/'' \<notin> set n \<and> files w (cwd w @ ''/'' @ n) = None \<and>
     may S (cred w) (cwd w @ ''/'' @ n) 2"

lemma create_file:
  assumes "free_name S w n" and "files w (cwd w) = Some (FDir es m)"
  shows "\<exists>fs m'. bnd (write_file S n text) (\<lambda>_. addperms n perms) w = (Ret (), w\<lparr>files := fs\<rparr>) \<and>
    fs (cwd w @ ''/'' @ n) = Some (FFile text m') \<and> fs (cwd w) = Some (FDir (es @ [n]) m) \<and>
    (\<forall>q. q \<noteq> cwd w \<longrightarrow> q \<noteq> cwd w @ ''/'' @ n \<longrightarrow> fs q = files w q)"
proof -
  let ?q = "cwd w @ ''/'' @ n"
  have q: "abs_path w n = ?q" using assms(1) by (cases n) (auto simp: free_name_def abs_path_def)
  have d: "dirname ?q = cwd w" "basename ?q = n" using assms(1) by (simp_all add: free_name_def dirname_join basename_join del: append.simps)
  have "open_write S n False w = (Ret (), w\<lparr>files := (files w)(cwd w \<mapsto> FDir (es @ [n]) m, ?q \<mapsto> new_file S w)\<rparr>)"
    using assms q d by (simp add: open_write_def free_name_def Let_def del: append.simps)
  then have "write_file S n text w = (Ret (), w\<lparr>files := (files w)(cwd w \<mapsto> FDir (es @ [n]) m, ?q \<mapsto> append_to text (new_file S w))\<rparr>)"
    using q by (simp add: write_file_def run_simps del: append.simps)
  then have "\<exists>m'. bnd (write_file S n text) (\<lambda>_. addperms n perms) w =
      (Ret (), w\<lparr>files := (files w)(cwd w \<mapsto> FDir (es @ [n]) m, ?q \<mapsto> FFile text m')\<rparr>)"
    using q by (auto simp: bnd_run addperms_def run_simps os_chmod_def new_file_def simp del: append.simps(2))
  then show ?thesis by fastforce
qed

text \<open>The reply to a submission, from the exit code and output of the submit command.\<close>

definition submit_reply :: "bss \<Rightarrow> string \<Rightarrow> exec_result \<Rightarrow> string" where
  "submit_reply B cmd r =
     (case r of Finished rc out \<Rightarrow>
        (if rc \<noteq> 0 then ''TSI_FAILED: '' @ replace [NL] '':'' (''Command '' @ [CHR 0x27] @ cmd @ [CHR 0x27]
             @ '' failed with code '' @ show_int rc @ '': '' @ out) @ [NL]
         else case extract_job_id B out of
                Some job_id \<Rightarrow> ''TSI_OK'' @ [NL] @ job_id @ [NL]
              | None \<Rightarrow> ''TSI_FAILED: '' @ replace [NL] '':'' (''Submit failed? Submission result:'' @ out) @ [NL]))"

definition submit_command :: "string \<Rightarrow> string \<Rightarrow> string" where
  "submit_command cmd submit_id = cmd @ '' ./'' @ ''bss_submit_'' @ submit_id"

lemma submit_tail:
  assumes "config v ''tsi.submit_cmd'' = Some (CStr cmd)" and "config v ''tsi.use_login_shell'' = Some b"
  shows "bnd (cfg_str ''tsi.submit_cmd'') (\<lambda>submit_cmd. bnd use_login_shell (\<lambda>login_shell.
      bnd (run_command S (submit_cmd @ '' ./'' @ ''bss_submit_'' @ i) False False login_shell) (\<lambda>(success, reply).
      if \<not> success then failed (Some reply)
      else (case extract_job_id B reply of
            Some job_id \<Rightarrow> ok (Some job_id)
          | None \<Rightarrow> failed (Some (''Submit failed? Submission result:'' @ reply)))))) v =
    (Ret (), v\<lparr>
      trace := trace v @ [\<lparr>ev_cred = cred v, ev_argv = bash_argv (submit_command cmd i) (truthy b), ev_background = False\<rparr>],
      ctl_out := ctl_out v @ submit_reply B (submit_command cmd i) (execute S (trace v) (bash_argv (submit_command cmd i) (truthy b)))\<rparr>)"
  using assms
  by (auto simp: run_simps use_login_shell_def run_command_def Let_def log_event_def submit_command_def
      submit_reply_def failed_def ok_def split: exec_result.split option.split)

lemma run_submit_run:
  assumes "files w (cwd w) = Some (FDir es m)"
    and "free_name S w (''UNICORE_Job_'' @ i)" and "free_name S w (''bss_submit_'' @ i)"
    and "config w ''tsi.submit_cmd'' = Some (CStr cmd)" and "config w ''tsi.use_login_shell'' = Some b"
  shows "\<exists>fs m1 m2. run_submit S B msg u cmds i w = (Ret (), w\<lparr>files := fs,
      trace := trace w @ [\<lparr>ev_cred = cred w, ev_argv = bash_argv (submit_command cmd i) (truthy b), ev_background = False\<rparr>],
      ctl_out := ctl_out w @ submit_reply B (submit_command cmd i) (execute S (trace w) (bash_argv (submit_command cmd i) (truthy b)))\<rparr>) \<and>
    fs (cwd w @ ''/'' @ ''UNICORE_Job_'' @ i) = Some (FFile msg m1) \<and>
    fs (cwd w @ ''/'' @ ''bss_submit_'' @ i) =
      Some (FFile (concat (map (\<lambda>line. line @ [NL]) (cmds @ [u @ ''/'' @ ''UNICORE_Job_'' @ i]))) m2)"
proof -
  let ?j = "''UNICORE_Job_'' @ i" and ?s = "''bss_submit_'' @ i"
  let ?t = "concat (map (\<lambda>line. line @ [NL]) (cmds @ [u @ ''/'' @ ?j]))"
  obtain f1 m1 where f1: "bnd (write_file S ?j msg) (\<lambda>_. addperms ?j 504) w = (Ret (), w\<lparr>files := f1\<rparr>)"
      "f1 (cwd w @ ''/'' @ ?j) = Some (FFile msg m1)" "f1 (cwd w) = Some (FDir (es @ [?j]) m)"
      "\<forall>q. q \<noteq> cwd w \<longrightarrow> q \<noteq> cwd w @ ''/'' @ ?j \<longrightarrow> f1 q = files w q"
    using create_file [OF assms(2,1), of msg 504] by blast
  have n2: "free_name S (w\<lparr>files := f1\<rparr>) ?s" using assms(3) f1(4) by (auto simp: free_name_def)
  obtain f2 m2 where f2: "bnd (write_file S ?s ?t) (\<lambda>_. addperms ?s 504) (w\<lparr>files := f1\<rparr>) = (Ret (), w\<lparr>files := f2\<rparr>)"
      "f2 (cwd w @ ''/'' @ ?s) = Some (FFile ?t m2)"
      "\<forall>q. q \<noteq> cwd w \<longrightarrow> q \<noteq> cwd w @ ''/'' @ ?s \<longrightarrow> f2 q = f1 q"
    using create_file [OF n2, of "es @ [?j]" m ?t 504] f1(3) by auto
  have "f2 (cwd w @ ''/'' @ ?j) = Some (FFile msg m1)" using f1(2) f2(3) by simp
  moreover have "run_submit S B msg u cmds i w = (Ret (), w\<lparr>files := f2,
      trace := trace w @ [\<lparr>ev_cred = cred w, ev_argv = bash_argv (submit_command cmd i) (truthy b), ev_background = False\<rparr>],
      ctl_out := ctl_out w @ submit_reply B (submit_command cmd i) (execute S (trace w) (bash_argv (submit_command cmd i) (truthy b)))\<rparr>)"
  proof -
    have "run_submit S B msg u cmds i = bnd (bnd (write_file S ?j msg) (\<lambda>_. addperms ?j 504)) (\<lambda>_.
        bnd (bnd (write_file S ?s ?t) (\<lambda>_. addperms ?s 504)) (\<lambda>_.
        bnd (cfg_str ''tsi.submit_cmd'') (\<lambda>submit_cmd. bnd use_login_shell (\<lambda>login_shell.
        bnd (run_command S (submit_cmd @ '' ./'' @ ?s) False False login_shell) (\<lambda>(success, reply).
        if \<not> success then failed (Some reply)
        else (case extract_job_id B reply of
              Some job_id \<Rightarrow> ok (Some job_id)
            | None \<Rightarrow> failed (Some (''Submit failed? Submission result:'' @ reply))))))))"
      by (simp only: run_submit_def Let_def bnd_assoc)
    then show ?thesis
      using submit_tail [of "w\<lparr>files := f2\<rparr>" cmd b S i B] assms(4,5)
      by (simp only: bnd_step [where m = "bnd m' n'" for m' n', OF f1(1)] bnd_step [where m = "bnd m' n'" for m' n', OF f2(1)]) simp
  qed
  ultimately show ?thesis using f2(2) by blast
qed

text \<open>
  C14: Submission of a job in normal mode to a batch system. The job script of the client is stored,
  with its variables expanded, under a fresh name in the working directory of the job; the submit file
  has exactly the directives of the batch system as its lines, followed by the path of the job script,
  so that no request parameter can bring in a line of its own; exactly one command, the submit command
  on that file, is run with the current credentials; and exactly one reply is sent: the job id, or the
  error.
\<close>

theorem submit_normal:
  assumes "B \<in> {slurm, torque, lsf}" and "clean_config (config w)"
    and msg: "expand_variables (environ w) message = msg"
    and dir: "extract_parameter msg ''USPACE_DIR'' None = Some u" "startswith u ''/''" "files w u = Some (FDir es m)"
    and mode: "extract_parameter msg ''JOB_MODE'' (Some ''normal'') = Some ''normal''"
    and script: "submit_script B msg (config w) = Inr cmds"
    and i: "random_id S (trace w) = i" "NL \<notin> set i"
    and free: "free_name S (w\<lparr>cwd := u\<rparr>) (''UNICORE_Job_'' @ i)" "free_name S (w\<lparr>cwd := u\<rparr>) (''bss_submit_'' @ i)"
    and cfg: "config w ''tsi.submit_cmd'' = Some (CStr cmd)" "config w ''tsi.use_login_shell'' = Some b"
  shows "\<exists>fs m1 m2 text. submit S B message w = (Ret (), w\<lparr>cwd := u, files := fs,
      trace := trace w @ [\<lparr>ev_cred = cred w, ev_argv = bash_argv (submit_command cmd i) (truthy b), ev_background = False\<rparr>],
      ctl_out := ctl_out w @ submit_reply B (submit_command cmd i) (execute S (trace w) (bash_argv (submit_command cmd i) (truthy b)))\<rparr>) \<and>
    fs (u @ ''/'' @ ''UNICORE_Job_'' @ i) = Some (FFile msg m1) \<and>
    fs (u @ ''/'' @ ''bss_submit_'' @ i) = Some (FFile text m2) \<and>
    split_ch NL text = cmds @ [u @ ''/'' @ ''UNICORE_Job_'' @ i, []]"
proof -
  have n: "NL \<notin> set c" if "c \<in> set cmds" for c
    using assms(1,2) script that slurm.script_no_break torque.script_no_break lsf.script_no_break by blast
  have "NL \<notin> set u" using extract_parameter_no_NL [OF dir(1)] by simp
  then have s: "split_ch NL (concat (map (\<lambda>line. line @ [NL]) (cmds @ [u @ ''/'' @ ''UNICORE_Job_'' @ i]))) =
      cmds @ [u @ ''/'' @ ''UNICORE_Job_'' @ i, []]"
    using n i(2) by (subst split_ch_lines) (simp_all add: list_all_iff)
  have "submit S B message w = run_submit S B msg u cmds i (w\<lparr>cwd := u\<rparr>)"
    using msg dir mode script i(1)
    by (simp add: submit_def expand_message_def run_simps req_arg_def os_chdir_def abs_path_def Let_def py_str_def)
  with run_submit_run [of "w\<lparr>cwd := u\<rparr>" es m S i cmd b B msg u cmds] dir(3) free cfg s show ?thesis
    by (simp del: append.simps map_append concat_append) blast
qed

definition submit_sample :: string where
  "submit_sample = ''#TSI_SUBMIT'' @ [NL] @ ''#TSI_USPACE_DIR /u'' @ [NL] @ ''#TSI_QUEUE q'' @ [NL]"

definition submit_world :: world where
  "submit_world = (sample_world True)\<lparr>files := [''/u'' \<mapsto> FDir [] \<lparr>st_mode = 16877, st_uid = 1000, st_gid = 100, st_mtime = 0\<rparr>],
     config := [''tsi.submit_cmd'' \<mapsto> CStr ''sbatch'', ''tsi.use_login_shell'' \<mapsto> CBool True,
       ''tsi.default_job_name'' \<mapsto> CStr ''job'']\<rparr>"

lemma submit_sample_script:
  "slurm_create_submit_script submit_sample (config submit_world) = Inr [''#!/bin/bash'',
     ''#SBATCH --job-name=job'', ''#SBATCH --partition=q'', ''#SBATCH --output=None/stdout'',
     ''#SBATCH --error=None/stderr'', ''#SBATCH --chdir=/u'']"
  by code_simp

lemma submit_sample_params:
  "extract_parameter submit_sample ''USPACE_DIR'' None = Some ''/u''"
  "extract_parameter submit_sample ''JOB_MODE'' (Some ''normal'') = Some ''normal''"
  "expand_variables Map.empty submit_sample = submit_sample"
  by code_simp+

theorem submit_normal_witness:
  "fst (submit sample_sys slurm submit_sample submit_world) = Ret () \<and>
   map ev_cred (trace (snd (submit sample_sys slurm submit_sample submit_world))) = [root_cred] \<and>
   (\<exists>m. files (snd (submit sample_sys slurm submit_sample submit_world)) ''/u/UNICORE_Job_ABC123'' = Some (FFile submit_sample m))"
proof -
  let ?w = "submit_world"
  have c: "clean_config (config ?w)" by (simp add: clean_config_def submit_world_def)
  have w: "cred ?w = root_cred" "trace ?w = []" "environ ?w = Map.empty"
      "files ?w ''/u'' = Some (FDir [] \<lparr>st_mode = 16877, st_uid = 1000, st_gid = 100, st_mtime = 0\<rparr>)"
      "config ?w ''tsi.submit_cmd'' = Some (CStr ''sbatch'')" "config ?w ''tsi.use_login_shell'' = Some (CBool True)"
    by (simp_all add: submit_world_def)
  have f: "free_name sample_sys (?w\<lparr>cwd := ''/u''\<rparr>) (''UNICORE_Job_'' @ ''ABC123'')"
      "free_name sample_sys (?w\<lparr>cwd := ''/u''\<rparr>) (''bss_submit_'' @ ''ABC123'')"
    by (simp_all add: free_name_def submit_world_def sample_sys_def)
  have r: "random_id sample_sys (trace ?w) = ''ABC123''" by (simp add: sample_sys_def)
  have b: "slurm \<in> {slurm, torque, lsf}" and s: "startswith ''/u'' ''/''" and n: "NL \<notin> set ''ABC123''" by simp_all
  have sc: "submit_script slurm submit_sample (config ?w) = Inr [''#!/bin/bash'',
     ''#SBATCH --job-name=job'', ''#SBATCH --partition=q'', ''#SBATCH --output=None/stdout'',
     ''#SBATCH --error=None/stderr'', ''#SBATCH --chdir=/u'']"
    using submit_sample_script by (simp add: slurm_def)
  have e: "expand_variables (environ ?w) submit_sample = submit_sample" using submit_sample_params(3) w(3) by simp
  show ?thesis
    using submit_normal [OF b c e submit_sample_params(1) s w(4) submit_sample_params(2) sc r n f w(5,6)] w(1,2)
    by auto
qed

end
