(* ===== verification/ACL.thy ===== *)
theory ACL
  imports BSSCommon
begin

text \<open>
  \<open>lib/ACL.py\<close>: access control lists. The configuration maps directories to the kind of lists their
  file system supports; the entry with the longest match decides. Reading and changing a POSIX list
  runs the configured command; for NFS the sources have empty functions. Shown here: which entry
  decides, and that removing all entries of a list runs exactly one command.
\<close>

section \<open>Which file system supports lists\<close>

text \<open>
  The configured path is used as a regular expression. Configuration keys consist of letters, digits
  and the characters dot, minus, underscore and slash (\<open>key_char\<close> of the configuration file), so the
  dot is its only special character.
\<close>

definition rx_acl :: "string \<Rightarrow> rx list" where
  "rx_acl key = map (\<lambda>c. One (if c = CHR ''.'' then dot else (\<lambda>x. x = c))) key"

definition match_size :: "string \<Rightarrow> string \<Rightarrow> nat option" where
  "match_size key path = map_option (\<lambda>(_, rest). length path - length rest) (re_match (rx_acl key) path)"

fun support_loop :: "string \<Rightarrow> (string, string) dict \<Rightarrow> nat \<Rightarrow> string \<Rightarrow> nat \<times> string" where
  "support_loop path [] best_match best_result = (best_match, best_result)"
| "support_loop path ((key, value) # acl) best_match best_result =
     (case match_size key path of
        None \<Rightarrow> support_loop path acl best_match best_result
      | Some n \<Rightarrow>
          if n > best_match then support_loop path acl n value
          else support_loop path acl best_match best_result)"

definition check_support :: "string \<Rightarrow> (string, string) dict \<Rightarrow> string" where
  "check_support path acl =
     (case support_loop path acl 0 [] of (best_match, best_result) \<Rightarrow>
        if best_match > 0 then best_result else ''NONE'')"

section \<open>Operations\<close>

definition getfacl_nfs :: "string \<Rightarrow> unit tsi" where
  "getfacl_nfs path = ret ()"

definition setfacl_nfs :: "string \<Rightarrow> string option \<Rightarrow> string option \<Rightarrow> unit tsi" where
  "setfacl_nfs path command command_spec = ret ()"

definition unset_posix :: "unit tsi" where
  "unset_posix = modify (\<lambda>w. w\<lparr>environ := (environ w)(''POSIXLY_CORRECT'' := None)\<rparr>)"

definition acl_patterns :: "string list" where
  "acl_patterns = [''user'', ''group'', ''default:user'', ''default:group'']"

definition getfacl_posix :: "sys \<Rightarrow> string \<Rightarrow> unit tsi" where
  "getfacl_posix S path =
     bnd unset_posix (\<lambda>_.
     bnd (cfg_get ''tsi.getfacl'' (CStr ''/bin/false'')) (\<lambda>v.
     bnd (of_sum (as_str v)) (\<lambda>getfacl_cmd.
     bnd use_login_shell (\<lambda>login_shell.
     bnd (run_command S (getfacl_cmd @ '' '' @ path) False False login_shell) (\<lambda>(success, result).
     if \<not> success then failed (Some result)
     else
       bnd (ok None) (\<lambda>_.
       for_each (splitlines result) (\<lambda>line.
         whenP (list_ex (startswith line) acl_patterns) (write_message (Some line)))))))))"

definition nth_arg :: "string list \<Rightarrow> nat \<Rightarrow> exn + string" where
  "nth_arg xs i = (if i < length xs then Inr (xs ! i) else Inl IndexError)"

definition prepare_posix_arg :: "string \<Rightarrow> bool \<Rightarrow> exn + string" where
  "prepare_posix_arg val remove =
     (let oargs = split_ch (CHR '' '') val; kind = hd oargs in
      sbind (if startswith kind ''U'' \<or> startswith kind ''DU'' then
               sbind (nth_arg oargs 1) (\<lambda>a. Inr (''user:'' @ a))
             else if startswith kind ''G'' \<or> startswith kind ''DG'' then
               sbind (nth_arg oargs 1) (\<lambda>a. Inr (''group:'' @ a))
             else Inr [])
        (\<lambda>ret1. if \<not> remove then sbind (nth_arg oargs 2) (\<lambda>a. Inr (ret1 @ '':'' @ a)) else Inr ret1))"

text \<open>
  The command of \<open>setfacl_posix\<close>: \<open>Inr None\<close> is the branch that reports wrong syntax. A missing
  operation or specification is \<open>None\<close> and fails where the source uses it.
\<close>

definition setfacl_command :: "string \<Rightarrow> string \<Rightarrow> string option \<Rightarrow> string option \<Rightarrow> exn + string option" where
  "setfacl_command setfacl_cmd path op val =
     (case op of
        None \<Rightarrow> Inl TypeError
      | Some op \<Rightarrow>
          let recursive = (if contains op ''RECURSIVE'' then ''-R '' else []);
              q = [CHR 0x27]
          in
          if contains op ''RM_ALL'' then Inr (Some (setfacl_cmd @ '' -b '' @ recursive @ q @ path @ q))
          else
            (case val of
               None \<Rightarrow> Inl AttributeError
             | Some val \<Rightarrow>
                 let d = (if startswith val ''D'' then ''-d '' else []);
                     finish = (\<lambda>base_arg remove.
                       sbind (prepare_posix_arg val remove) (\<lambda>arg.
                       Inr (Some (setfacl_cmd @ '' '' @ recursive @ '' '' @ base_arg @ '' '' @ arg @ '' '' @ q @ path @ q))))
                 in
                 if contains op ''MODIFY'' then finish (d @ ''-m'') False
                 else if contains op ''RM'' then finish (d @ ''-x'') True
                 else Inr None))"

definition setfacl_posix :: "sys \<Rightarrow> string \<Rightarrow> string option \<Rightarrow> string option \<Rightarrow> unit tsi" where
  "setfacl_posix S path op val =
     bnd unset_posix (\<lambda>_.
     bnd (cfg_get ''tsi.setfacl'' (CStr ''/bin/false'')) (\<lambda>v.
     bnd (of_sum (as_str v)) (\<lambda>setfacl_cmd.
     bnd (of_sum (setfacl_command setfacl_cmd path op val)) (\<lambda>c.
     case c of
       None \<Rightarrow> failed (Some ''WRONG SETFACL SYNTAX'')
     | Some command \<Rightarrow>
         bnd use_login_shell (\<lambda>login_shell.
         bnd (run_command S command False False login_shell) (\<lambda>(success, result).
         if \<not> success then failed (Some result) else ok None))))))"

text \<open>The configured table; \<open>os.path.abspath\<close> rejects a missing path.\<close>

definition acl_table :: "(string, string) dict tsi" where
  "acl_table = bnd (cfg_get ''tsi.acl'' (CDict [])) (\<lambda>v.
     case v of CDict acl \<Rightarrow> ret acl | _ \<Rightarrow> throw TypeError)"

definition process_acl :: "sys \<Rightarrow> string \<Rightarrow> unit tsi" where
  "process_acl S msg =
     (let operation = extract_parameter msg ''ACL_OPERATION'' None;
          path = extract_parameter msg ''ACL_PATH'' None
      in
      bnd acl_table (\<lambda>acl.
      if operation = Some ''CHECK_SUPPORT'' then
        bnd (req_arg path) (\<lambda>path.
        if check_support path acl = ''NONE'' then ok (Some ''false'') else ok (Some ''true''))
      else if operation = Some ''GETFACL'' then
        bnd (req_arg path) (\<lambda>path.
        let support = check_support path acl in
        if support = ''POSIX'' then getfacl_posix S path
        else if support = ''NFS'' then getfacl_nfs path
        else failed (Some ''ERROR: Getting ACL on this file system is unsupported.''))
      else if operation = Some ''SETFACL'' then
        bnd (req_arg path) (\<lambda>path.
        let support = check_support path acl;
            command = extract_parameter msg ''ACL_COMMAND'' None;
            command_spec = extract_parameter msg ''ACL_COMMAND_SPEC'' None
        in
        bnd (whenP (command_spec = None) (failed (Some ''Missing parameter TSI_ACL_COMMAND_SPEC''))) (\<lambda>_.
        bnd (whenP (command = None) (failed (Some ''Missing parameter TSI_ACL_COMMAND''))) (\<lambda>_.
        if support = ''POSIX'' then setfacl_posix S path command command_spec
        else if support = ''NFS'' then setfacl_nfs path command command_spec
        else failed (Some ''ERROR: Setting ACL on this file system is unsupported.''))))
      else failed (Some (''UNSUPPORTED_OPERATION: '' @ [CHR 0x27] @ py_str operation @ [CHR 0x27]))))"

section \<open>The longest entry decides\<close>

text \<open>A configured path covers a path that starts with it, where a dot stands for any character but a newline.\<close>

definition covers :: "string \<Rightarrow> string \<Rightarrow> bool" where
  "covers key path \<longleftrightarrow> length key \<le> length path \<and>
     list_all2 (\<lambda>k c. if k = CHR ''.'' then c \<noteq> NL else c = k) key (take (length key) path)"

lemma mt_acl: "mt (rx_acl key) pre path cur caps =
    (if covers key path then Some (caps, drop (length key) path) else None)"
proof (induction key arbitrary: pre path cur)
  case Nil
  then show ?case by (simp add: rx_acl_def covers_def)
next
  case (Cons k key)
  then show ?case by (cases path) (auto simp: rx_acl_def covers_def dot_def)
qed

lemma match_size_covers: "match_size key path = (if covers key path then Some (length key) else None)"
  by (auto simp: match_size_def re_match_def mt_acl covers_def)

text \<open>The loop keeps the first of the longest entries seen so far.\<close>

lemma support_loop_best:
  assumes "support_loop path acl n r = (m, v)"
  shows "n \<le> m \<and> (\<forall>e \<in> set acl. covers (fst e) path \<longrightarrow> length (fst e) \<le> m) \<and>
    (n < m \<longrightarrow> (\<exists>k. (k, v) \<in> set acl \<and> covers k path \<and> length k = m)) \<and> (n = m \<longrightarrow> v = r)"
  using assms
proof (induction path acl n r rule: support_loop.induct)
  case (1 path n r)
  then show ?case by simp
next
  case (2 path key val acl n r)
  show ?case
  proof (cases "covers key path \<and> n < length key")
    case True
    with 2 show ?thesis by (simp add: match_size_covers) (metis order_le_less less_imp_le)
  next
    case False
    with 2 show ?thesis by (auto simp: match_size_covers split: if_splits)
  qed
qed

text \<open>
  C35: The kind of access list of a path is that of a longest configured entry that covers it, and
  \<open>NONE\<close> if no entry does.
\<close>

theorem check_support_longest:
  "(\<exists>k. (k, check_support path acl) \<in> set acl \<and> k \<noteq> [] \<and> covers k path \<and>
      (\<forall>e \<in> set acl. covers (fst e) path \<longrightarrow> length (fst e) \<le> length k)) \<or>
   (check_support path acl = ''NONE'' \<and> (\<forall>e \<in> set acl. covers (fst e) path \<longrightarrow> fst e = []))"
proof -
  obtain m v where r: "support_loop path acl 0 [] = (m, v)" by fastforce
  note best = support_loop_best [OF r]
  show ?thesis
  proof (cases "m > 0")
    case True
    with best obtain k where k: "(k, v) \<in> set acl" "covers k path" "length k = m" by blast
    have "check_support path acl = v" using True by (simp add: check_support_def r)
    with k best True show ?thesis by (intro disjI1 exI [of _ k]) auto
  next
    case False
    then have "check_support path acl = ''NONE''" by (simp add: check_support_def r)
    with best False show ?thesis by (intro disjI2) simp
  qed
qed

theorem check_support_longest_witness:
  "check_support ''/home/user'' [(''/home'', ''POSIX''), (''/home/us'', ''NFS'')] = ''NFS''"
proof -
  have "covers ''/home/us'' ''/home/user''" "covers ''/home'' ''/home/user''" by (simp_all add: covers_def)
  with check_support_longest [of "''/home/user''" "[(''/home'', ''POSIX''), (''/home/us'', ''NFS'')]"]
  show ?thesis by auto
qed

text \<open>
  Reading the access list of a file on an NFS file system sends nothing at all, neither success
  nor failure.
\<close>

theorem getfacl_nfs_silent:
  assumes "extract_parameter msg ''ACL_OPERATION'' None = Some ''GETFACL''"
    and "extract_parameter msg ''ACL_PATH'' None = Some path"
    and "config w ''tsi.acl'' = Some (CDict acl)" and "check_support path acl = ''NFS''"
  shows "process_acl S msg w = (Ret (), w)"
  using assms by (simp add: process_acl_def acl_table_def run_simps req_arg_def getfacl_nfs_def Let_def)

definition nfs_request :: string where
  "nfs_request = ''#TSI_ACL_OPERATION GETFACL'' @ [NL] @ ''#TSI_ACL_PATH /n/f'' @ [NL]"

theorem getfacl_nfs_silent_witness:
  "process_acl sample_sys nfs_request ((sample_world True)\<lparr>config := [''tsi.acl'' \<mapsto> CDict [(''/n'', ''NFS'')]]\<rparr>) =
     (Ret (), (sample_world True)\<lparr>config := [''tsi.acl'' \<mapsto> CDict [(''/n'', ''NFS'')]]\<rparr>)"
proof (rule getfacl_nfs_silent)
  show "extract_parameter nfs_request ''ACL_OPERATION'' None = Some ''GETFACL''"
    "extract_parameter nfs_request ''ACL_PATH'' None = Some ''/n/f''"
    "check_support ''/n/f'' [(''/n'', ''NFS'')] = ''NFS''" by code_simp+
qed simp

end
