(* ===== verification/UFTP.thy ===== *)
theory UFTP
  imports BSSCommon
begin

text \<open>
  \<open>lib/UFTP.py\<close>: file transfers with an UFTP server. \<open>uftp\<close> is the handler of a request: it starts the
  client in the background. The client itself (\<open>main\<close>) is a program of its own, with its own
  environment and files, that talks to the server with the commands of \<open>ftplib\<close>; what the server
  answers is a parameter. Shown here: the one command a request starts, and what a download and an
  upload transfer.
\<close>

section \<open>The handler\<close>

definition joined :: "string option \<Rightarrow> string \<Rightarrow> string option \<Rightarrow> string tsi" where
  "joined outcome_dir sep file =
     bnd (req_arg outcome_dir) (\<lambda>d. bnd (req_arg file) (\<lambda>f. ret (d @ sep @ f)))"

definition environ_sub :: "string \<Rightarrow> string tsi" where
  "environ_sub k = bnd (gets environ) (\<lambda>e. of_opt (KeyError k) (e k))"

definition uftp_lines :: "string \<Rightarrow> (string \<times> string) list \<Rightarrow> string \<Rightarrow> string \<Rightarrow> string list" where
  "uftp_lines msg settings uspace_dir launch =
     [msg] @ map (\<lambda>(k, v). ''export '' @ k @ ''='' @ v) settings @ [''cd '' @ uspace_dir, launch]"

definition uftp_launch :: "string \<Rightarrow> string \<Rightarrow> string \<Rightarrow> string \<Rightarrow> string \<Rightarrow> string" where
  "uftp_launch client stdout stderr exit_code_file pid_file =
     ''{ python3 '' @ client @ '' >> '' @ stdout @ '' 2 > '' @ stderr @ '' ; echo $? > '' @ exit_code_file
       @ '' ; } & echo $! > '' @ pid_file @ '' ''"

definition unlines :: "string list \<Rightarrow> string" where
  "unlines cmds = concat (map (\<lambda>c. c @ [NL]) cmds)"

definition uftp :: "sys \<Rightarrow> string \<Rightarrow> unit tsi" where
  "uftp S msg =
     (let host = extract_parameter msg ''UFTP_HOST'' None in
      bnd (int_param (extract_parameter msg ''UFTP_PORT'' None)) (\<lambda>port.
      let secret = extract_parameter msg ''UFTP_SECRET'' None;
          operation = extract_parameter msg ''UFTP_OPERATION'' None;
          write_mode = extract_parameter msg ''UFTP_WRITE_MODE'' (Some ''FULL'')
      in
      bnd (expanded (extract_parameter msg ''UFTP_REMOTE_FILE'' None)) (\<lambda>remote_path.
      bnd (expanded (extract_parameter msg ''UFTP_LOCAL_FILE'' None)) (\<lambda>local_path.
      bnd (int_param (extract_parameter msg ''UFTP_OFFSET'' (Some ''0''))) (\<lambda>offset.
      bnd (int_param (extract_parameter msg ''UFTP_LENGTH'' (Some ''-1''))) (\<lambda>len.
      let uspace_dir = extract_parameter msg ''USPACE_DIR'' None;
          outcome_dir = extract_parameter msg ''OUTCOME_DIR'' None
      in
      bnd (joined outcome_dir ''/'' (extract_parameter msg ''STDOUT'' (Some ''stdout''))) (\<lambda>stdout.
      bnd (joined outcome_dir ''/'' (extract_parameter msg ''STDERR'' (Some ''stderr''))) (\<lambda>stderr.
      bnd (joined outcome_dir ''/'' (extract_parameter msg ''PID_FILE'' (Some ''UNICORE_SCRIPT_PID''))) (\<lambda>pid_file.
      bnd (joined outcome_dir ''/'' (extract_parameter msg ''EXIT_CODE_FILE'' (Some ''UNICORE_SCRIPT_EXIT_CODE''))) (\<lambda>exit_code_file.
      bnd (environ_sub ''PYTHONPATH'') (\<lambda>pythonpath.
      let cmds = uftp_lines msg
            [(''UFTP_HOST'', py_str host), (''UFTP_PORT'', show_int port), (''UFTP_SECRET'', py_str secret),
             (''UFTP_OPERATION'', py_str operation), (''UFTP_WRITE_MODE'', py_str write_mode),
             (''UFTP_OFFSET'', show_int offset), (''UFTP_LENGTH'', show_int len), (''UFTP_WRITE_MODE'', py_str write_mode),
             (''UFTP_REMOTE_FILE'', remote_path), (''UFTP_LOCAL_FILE'', local_path), (''PYTHONPATH'', pythonpath)]
            (py_str uspace_dir) (uftp_launch (uftp_client S) stdout stderr exit_code_file pid_file)
      in
      bnd (cfg_get ''tsi.use_login_shell'' (CBool True)) (\<lambda>login_shell.
      bnd (run_command S (unlines cmds) True True (truthy login_shell)) (\<lambda>(success, reply).
      if \<not> success then failed (Some (''Failed to launch uftp command: '' @ reply)) else ok None)))))))))))))"

section \<open>The client\<close>

text \<open>
  The calls of \<open>ftplib.FTP\<close> the client makes: \<open>connect\<close> and \<open>getwelcome\<close>, \<open>login\<close>, \<open>sendcmd\<close> with a
  range, \<open>retrbinary\<close> (with an optional restart position), \<open>storbinary\<close> with the data sent, and
  \<open>quit\<close>. The server answers a call, after the calls before it, with a reply line or an error; a
  download also delivers data.
\<close>

datatype ftp_call =
    FConnect string int
  | FLogin string
  | FRang int int
  | FRetr string "int option"
  | FStor string string
  | FQuit

record ftp_server =
  reply_to :: "ftp_call list \<Rightarrow> ftp_call \<Rightarrow> exn + string"
  data_for :: "ftp_call list \<Rightarrow> ftp_call \<Rightarrow> string"

text \<open>The client's environment, the contents of its files, the calls made, and its printed output.\<close>

record client =
  c_env :: "string \<Rightarrow> string option"
  c_files :: "string \<Rightarrow> string option"
  c_calls :: "ftp_call list"
  c_out :: "string list"

type_synonym 'a ftp = "(client, 'a) prog"

definition print_line :: "string \<Rightarrow> unit ftp" where
  "print_line s = modify (\<lambda>c. c\<lparr>c_out := c_out c @ [s]\<rparr>)"

definition log_reply :: "string \<Rightarrow> unit ftp" where
  "log_reply reply = print_line (''uftpd: '' @ reply)"

definition ftp_do :: "ftp_server \<Rightarrow> ftp_call \<Rightarrow> string ftp" where
  "ftp_do F call = (\<lambda>c. case reply_to F (c_calls c) call of
      Inl e \<Rightarrow> (Exc e, c\<lparr>c_calls := c_calls c @ [call]\<rparr>)
    | Inr r \<Rightarrow> (Ret r, c\<lparr>c_calls := c_calls c @ [call]\<rparr>))"

definition env_sub :: "string \<Rightarrow> string ftp" where
  "env_sub k = bnd (gets c_env) (\<lambda>e. of_opt (KeyError k) (e k))"

definition to_int :: "string \<Rightarrow> int ftp" where
  "to_int s = of_opt ValueError (py_int s)"

text \<open>
  A file written at a position: a gap is filled with zero bytes. \<open>retrbinary\<close> passes the data of a
  download to \<open>fp.write\<close>; data that arrived before an error is written, too.
\<close>

definition write_at :: "nat \<Rightarrow> string \<Rightarrow> string \<Rightarrow> string" where
  "write_at pos data old =
     (if data = [] then old
      else take pos old @ replicate (pos - length old) (CHR 0x00) @ data @ drop (pos + length data) old)"

definition retr :: "ftp_server \<Rightarrow> string \<Rightarrow> int option \<Rightarrow> string \<Rightarrow> nat \<Rightarrow> string ftp" where
  "retr F remote rest local pos = (\<lambda>c.
     let call = FRetr remote rest; data = data_for F (c_calls c) call in
     ftp_do F call (c\<lparr>c_files := (c_files c)(local := map_option (write_at pos data) (c_files c local))\<rparr>))"

definition open_session :: "ftp_server \<Rightarrow> string \<Rightarrow> int \<Rightarrow> string \<Rightarrow> unit ftp" where
  "open_session F host port secret =
     bnd (ftp_do F (FConnect host port)) (\<lambda>welcome.
     bnd (log_reply welcome) (\<lambda>_.
     bnd (ftp_do F (FLogin secret)) (\<lambda>reply.
     log_reply reply)))"

definition send_rang :: "ftp_server \<Rightarrow> int \<Rightarrow> int \<Rightarrow> unit ftp" where
  "send_rang F offset len =
     bnd (ftp_do F (FRang offset len)) (\<lambda>reply.
     if \<not> startswith reply ''350'' then throw (OSError (''Error setting RANG: '' @ reply))
     else log_reply reply)"

definition ftp_quit :: "ftp_server \<Rightarrow> unit ftp" where
  "ftp_quit F = catch (bnd (ftp_do F FQuit) (\<lambda>_. ret ())) (\<lambda>_. ret ())"

text \<open>Seeking to a negative position is an \<open>OSError\<close>.\<close>

definition seek :: "int \<Rightarrow> nat ftp" where
  "seek pos = (if pos < 0 then throw (OSError ''Invalid argument'') else ret (nat pos))"

definition client_get :: "ftp_server \<Rightarrow> string \<Rightarrow> string \<Rightarrow> bool \<Rightarrow> int \<Rightarrow> int \<Rightarrow> unit ftp" where
  "client_get F remote_path local_path partial offset len =
     bnd (print_line (''GET '' @ remote_path @ '' -> '' @ local_path)) (\<lambda>_.
     bnd (modify (\<lambda>c. c\<lparr>c_files := (c_files c)(local_path \<mapsto>
        (if partial then (case c_files c local_path of None \<Rightarrow> [] | Some t \<Rightarrow> t) else []))\<rparr>)) (\<lambda>_.
     bnd (if (offset > 0 \<or> len > -1) \<and> partial then seek offset else ret 0) (\<lambda>pos.
     bnd (whenP (len > -1) (send_rang F offset len)) (\<lambda>_.
     bnd (if len > -1 then retr F remote_path None local_path pos
          else retr F remote_path (Some offset) local_path pos) (\<lambda>reply.
     bnd (log_reply reply) (\<lambda>_.
     ftp_quit F))))))"

definition client_put :: "ftp_server \<Rightarrow> string \<Rightarrow> string \<Rightarrow> bool \<Rightarrow> int \<Rightarrow> int \<Rightarrow> unit ftp" where
  "client_put F remote_path local_path partial offset len =
     bnd (print_line (''PUT '' @ local_path @ '' -> '' @ remote_path)) (\<lambda>_.
     bnd (gets c_files) (\<lambda>fs.
     bnd (of_opt (OSError local_path) (fs local_path)) (\<lambda>text.
     bnd (if offset > 0 \<or> len > -1 then seek offset else ret 0) (\<lambda>pos.
     bnd (whenP (offset > 0 \<or> len > -1) (send_rang F (if \<not> partial then 0 else offset) len)) (\<lambda>_.
     bnd (ftp_do F (FStor remote_path (drop pos text))) (\<lambda>reply.
     bnd (log_reply reply) (\<lambda>_.
     ftp_quit F)))))))"

definition uftp_main :: "ftp_server \<Rightarrow> int ftp" where
  "uftp_main F =
     bnd (env_sub ''UFTP_HOST'') (\<lambda>host.
     bnd (bnd (env_sub ''UFTP_PORT'') to_int) (\<lambda>port.
     bnd (env_sub ''UFTP_SECRET'') (\<lambda>secret.
     bnd (env_sub ''UFTP_REMOTE_FILE'') (\<lambda>remote_path.
     bnd (env_sub ''UFTP_LOCAL_FILE'') (\<lambda>local_path.
     bnd (env_sub ''UFTP_OPERATION'') (\<lambda>operation.
     bnd (env_sub ''UFTP_WRITE_MODE'') (\<lambda>write_mode.
     bnd (gets c_env) (\<lambda>e.
     bnd (to_int (case e ''UFTP_OFFSET'' of None \<Rightarrow> ''0'' | Some v \<Rightarrow> v)) (\<lambda>offset.
     bnd (to_int (case e ''UFTP_LENGTH'' of None \<Rightarrow> ''-1'' | Some v \<Rightarrow> v)) (\<lambda>len.
     bnd (print_line (''Connecting to UFTPD '' @ host @ '':'' @ show_int port)) (\<lambda>_.
     bnd (open_session F host port secret) (\<lambda>_.
     let partial = (''PARTIAL'' = write_mode) in
     bnd (if ''GET'' = operation then client_get F remote_path local_path partial offset len
          else client_put F remote_path local_path partial offset len) (\<lambda>_.
     ret 0)))))))))))))"

section \<open>What the client transfers\<close>

text \<open>A server that completes every call and accepts every range.\<close>

definition accepting :: "ftp_server \<Rightarrow> bool" where
  "accepting F \<longleftrightarrow> (\<forall>h c. \<exists>r. reply_to F h c = Inr r \<and> (\<forall>a b. c = FRang a b \<longrightarrow> startswith r ''350''))"

definition client_env :: "string \<Rightarrow> int \<Rightarrow> string \<Rightarrow> string \<Rightarrow> string \<Rightarrow> nat \<Rightarrow> int \<Rightarrow> string \<Rightarrow> string \<Rightarrow> string \<Rightarrow> string option" where
  "client_env host port secret operation write_mode offset len remote local =
     [''UFTP_HOST'' \<mapsto> host, ''UFTP_PORT'' \<mapsto> show_int port, ''UFTP_SECRET'' \<mapsto> secret, ''UFTP_OPERATION'' \<mapsto> operation,
      ''UFTP_WRITE_MODE'' \<mapsto> write_mode, ''UFTP_OFFSET'' \<mapsto> show_int (int offset), ''UFTP_LENGTH'' \<mapsto> show_int len,
      ''UFTP_REMOTE_FILE'' \<mapsto> remote, ''UFTP_LOCAL_FILE'' \<mapsto> local]"

text \<open>A part of the client that returns, makes the calls \<open>l\<close> and otherwise only prints.\<close>

definition talks :: "'a ftp \<Rightarrow> ftp_call list \<Rightarrow> bool" where
  "talks m l \<longleftrightarrow> (\<forall>c. \<exists>x c'. m c = (Ret x, c') \<and> c_calls c' = c_calls c @ l \<and> c_files c' = c_files c \<and> c_env c' = c_env c)"

lemma talksE:
  assumes "talks m l"
  obtains x c' where "m c = (Ret x, c')" "c_calls c' = c_calls c @ l" "c_files c' = c_files c" "c_env c' = c_env c"
  using assms unfolding talks_def by meson

lemma talks_bnd:
  assumes "talks m k" and "\<And>x. talks (f x) l"
  shows "talks (bnd m f) (k @ l)"
  unfolding talks_def
proof
  fix c
  obtain x c1 where m: "m c = (Ret x, c1)" "c_calls c1 = c_calls c @ k" "c_files c1 = c_files c" "c_env c1 = c_env c"
    by (rule talksE [OF assms(1)])
  obtain y c2 where "f x c1 = (Ret y, c2)" "c_calls c2 = c_calls c1 @ l" "c_files c2 = c_files c1" "c_env c2 = c_env c1"
    by (rule talksE [OF assms(2)])
  with m show "\<exists>x c'. bnd m f c = (Ret x, c') \<and> c_calls c' = c_calls c @ k @ l \<and> c_files c' = c_files c \<and> c_env c' = c_env c"
    by (simp add: bnd_run)
qed

lemma talks_ret: "talks (ret x) []"
  by (simp add: talks_def ret_run)

lemma talks_print: "talks (print_line s) []"
  by (simp add: talks_def print_line_def modify_run)

lemma talks_log: "talks (log_reply s) []"
  by (simp add: log_reply_def talks_print)

lemma talks_call:
  assumes "accepting F"
  shows "talks (ftp_do F call) [call]"
  unfolding talks_def
proof
  fix c :: client
  obtain r where "reply_to F (c_calls c) call = Inr r" using assms unfolding accepting_def by blast
  then show "\<exists>x c'. ftp_do F call c = (Ret x, c') \<and> c_calls c' = c_calls c @ [call] \<and> c_files c' = c_files c \<and> c_env c' = c_env c"
    by (simp add: ftp_do_def)
qed

lemma talks_session: "accepting F \<Longrightarrow> talks (open_session F host port secret) [FConnect host port, FLogin secret]"
  unfolding open_session_def
  using talks_bnd [OF talks_call [of F "FConnect host port"]
      talks_bnd [OF talks_log talks_bnd [OF talks_call [of F "FLogin secret"] talks_log]]]
  by simp

lemma talks_rang:
  assumes "accepting F"
  shows "talks (send_rang F a b) [FRang a b]"
  unfolding talks_def
proof
  fix c :: client
  obtain r where "reply_to F (c_calls c) (FRang a b) = Inr r" "startswith r ''350''"
    using assms unfolding accepting_def by blast
  then show "\<exists>x c'. send_rang F a b c = (Ret x, c') \<and> c_calls c' = c_calls c @ [FRang a b] \<and> c_files c' = c_files c \<and> c_env c' = c_env c"
    by (simp add: send_rang_def bnd_run ftp_do_def log_reply_def print_line_def modify_run)
qed

lemma talks_catch: "talks m l \<Longrightarrow> talks (catch m h) l"
  unfolding talks_def
proof
  fix c :: client
  assume "\<forall>c. \<exists>x c'. m c = (Ret x, c') \<and> c_calls c' = c_calls c @ l \<and> c_files c' = c_files c \<and> c_env c' = c_env c"
  then obtain x c' where "m c = (Ret x, c')" "c_calls c' = c_calls c @ l" "c_files c' = c_files c" "c_env c' = c_env c"
    by meson
  then show "\<exists>x c'. catch m h c = (Ret x, c') \<and> c_calls c' = c_calls c @ l \<and> c_files c' = c_files c \<and> c_env c' = c_env c"
    by (simp add: catch_run)
qed

lemma talks_quit: "accepting F \<Longrightarrow> talks (ftp_quit F) [FQuit]"
  using talks_catch [OF talks_bnd [OF talks_call [of F FQuit] talks_ret]] unfolding ftp_quit_def by simp

lemma talks_end: "accepting F \<Longrightarrow> talks (bnd (log_reply s) (\<lambda>_. ftp_quit F)) [FQuit]"
  using talks_bnd [OF talks_log talks_quit] by simp

lemma talks_when: "talks m l \<Longrightarrow> talks (whenP b m) (if b then l else [])"
  by (simp add: whenP_def talks_ret)

text \<open>The environment is read and the connection opened; then one of the two transfers follows.\<close>

definition client_job :: "ftp_server \<Rightarrow> string \<Rightarrow> string \<Rightarrow> nat \<Rightarrow> int \<Rightarrow> string \<Rightarrow> string \<Rightarrow> unit ftp" where
  "client_job F operation write_mode offset len remote local =
     (if operation = ''GET'' then client_get F remote local (write_mode = ''PARTIAL'') (int offset) len
      else client_put F remote local (write_mode = ''PARTIAL'') (int offset) len)"

lemma uftp_main_run:
  assumes "accepting F" and "c_env c = client_env host port secret operation write_mode offset len remote local"
  obtains c' where "uftp_main F c = bnd (client_job F operation write_mode offset len remote local) (\<lambda>_. ret 0) c'"
    "c_calls c' = c_calls c @ [FConnect host port, FLogin secret]" "c_files c' = c_files c"
proof -
  let ?m = "\<lambda>c. bnd (print_line (''Connecting to UFTPD '' @ host @ '':'' @ show_int port)) (\<lambda>_. open_session F host port secret) c"
  have "talks ?m [FConnect host port, FLogin secret]"
    using talks_bnd [OF talks_print talks_session [OF assms(1)]] by simp
  then obtain x c' where m: "?m c = (Ret x, c')" "c_calls c' = c_calls c @ [FConnect host port, FLogin secret]" "c_files c' = c_files c"
    by (rule talksE)
  have "uftp_main F c = bnd ?m (\<lambda>_. bnd (client_job F operation write_mode offset len remote local) (\<lambda>_. ret 0)) c"
    using assms(2)
    by (simp add: uftp_main_def env_sub_def to_int_def bnd_run gets_run of_opt_run client_env_def client_job_def Let_def
        print_line_def modify_run bnd_assoc eq_commute [of "''GET''"] eq_commute [of "''PARTIAL''"])
  then have "uftp_main F c = bnd (client_job F operation write_mode offset len remote local) (\<lambda>_. ret 0) c'"
    by (simp only: bnd_step [where m = ?m, OF m(1)])
  with m that show thesis by blast
qed

text \<open>
  C36: A download with the UFTP client. If the server completes its calls, the client logs in, asks for
  the range or the restart position, retrieves the remote file once and quits. In full mode the local
  file then holds exactly the data received; in partial mode the data is written into the old file at
  the requested offset. No other file is touched.
\<close>

theorem uftp_get_stores:
  assumes "accepting F" and "c_env c = client_env host port secret ''GET'' write_mode offset len remote local"
  shows "\<exists>c' call. uftp_main F c = (Ret 0, c') \<and>
    call = FRetr remote (if len > -1 then None else Some (int offset)) \<and>
    c_calls c' = c_calls c @ [FConnect host port, FLogin secret]
      @ (if len > -1 then [FRang (int offset) len] else []) @ [call, FQuit] \<and>
    c_files c' = (c_files c)(local \<mapsto>
      (let data = data_for F (c_calls c @ [FConnect host port, FLogin secret]
           @ (if len > -1 then [FRang (int offset) len] else [])) call
       in if write_mode = ''PARTIAL''
          then write_at offset data (case c_files c local of None \<Rightarrow> [] | Some t \<Rightarrow> t) else data))"
proof -
  let ?p = "write_mode = ''PARTIAL''" and ?call = "FRetr remote (if len > -1 then None else Some (int offset))"
  let ?rang = "if len > -1 then [FRang (int offset) len] else []"
  obtain c1 where c1: "uftp_main F c = bnd (client_job F ''GET'' write_mode offset len remote local) (\<lambda>_. ret 0) c1"
      "c_calls c1 = c_calls c @ [FConnect host port, FLogin secret]" "c_files c1 = c_files c"
    by (rule uftp_main_run [OF assms])
  obtain x c2 where c2: "print_line (''GET '' @ remote @ '' -> '' @ local) c1 = (Ret x, c2)" "c_calls c2 = c_calls c1" "c_files c2 = c_files c"
    using talksE [OF talks_print, of "''GET '' @ remote @ '' -> '' @ local" c1] c1(3) by (metis append_Nil2)
  let ?old = "if ?p then (case c_files c local of None \<Rightarrow> [] | Some t \<Rightarrow> t) else []"
  let ?c3 = "c2\<lparr>c_files := (c_files c)(local \<mapsto> ?old)\<rparr>"
  obtain y c4 where c4: "whenP (len > -1) (send_rang F (int offset) len) ?c3 = (Ret y, c4)"
      "c_calls c4 = c_calls ?c3 @ ?rang" "c_files c4 = c_files ?c3"
    by (rule talksE [OF talks_when [OF talks_rang [OF assms(1)]]])
  then have f4: "c_calls c4 = c_calls c1 @ ?rang" "c_files c4 = (c_files c)(local \<mapsto> ?old)" using c2(2) by simp_all
  let ?data = "data_for F (c_calls c1 @ ?rang) ?call" and ?pos = "if ?p then offset else 0"
  let ?c5 = "c4\<lparr>c_files := (c_files c)(local \<mapsto> write_at ?pos ?data ?old)\<rparr>"
  obtain r c6 where c6: "ftp_do F ?call ?c5 = (Ret r, c6)" "c_calls c6 = c_calls ?c5 @ [?call]" "c_files c6 = c_files ?c5"
    by (rule talksE [OF talks_call [OF assms(1)]])
  obtain z c7 where c7: "bnd (log_reply r) (\<lambda>_. ftp_quit F) c6 = (Ret z, c7)" "c_calls c7 = c_calls c6 @ [FQuit]" "c_files c7 = c_files c6"
    by (rule talksE [OF talks_end [OF assms(1)]])
  have rt: "(if len > -1 then retr F remote None local ?pos else retr F remote (Some (int offset)) local ?pos) c4 = ftp_do F ?call ?c5"
    using f4 by (simp add: retr_def Let_def fun_upd_idem_iff)
  have sk: "(if (int offset > 0 \<or> len > -1) \<and> ?p then seek (int offset) else ret 0) c = (Ret ?pos, c)" for c
    by (auto simp: seek_def ret_run)
  have "client_job F ''GET'' write_mode offset len remote local c1 = (Ret z, c7)"
    unfolding client_job_def client_get_def
    by (simp only: simp_thms if_True bnd_run modify_run c2 sk c4(1) rt c6(1) c7(1) [unfolded bnd_run] prod.case outcome.case)
  with c1(1) have "uftp_main F c = (Ret 0, c7)" by (simp add: bnd_run ret_run)
  moreover have "write_at 0 ?data [] = ?data" by (simp add: write_at_def)
  ultimately show ?thesis using c1(2) f4 c6(2,3) c7(2,3) by (simp add: Let_def)
qed

definition sample_ftp :: ftp_server where
  "sample_ftp = \<lparr>reply_to = (\<lambda>h c. Inr ''350 ok''), data_for = (\<lambda>h c. ''XY'')\<rparr>"

definition sample_client :: "string \<Rightarrow> client" where
  "sample_client operation = \<lparr>c_env = client_env ''host'' 64434 ''pw'' operation ''PARTIAL'' 1 2 ''/r'' ''/l'',
     c_files = [''/l'' \<mapsto> ''abcd''], c_calls = [], c_out = []\<rparr>"

lemma sample_accepting: "accepting sample_ftp"
  by (simp add: accepting_def sample_ftp_def)

theorem uftp_get_stores_witness:
  "\<exists>c'. uftp_main sample_ftp (sample_client ''GET'') = (Ret 0, c') \<and> c_files c' ''/l'' = Some ''aXYd'' \<and>
     c_calls c' = [FConnect ''host'' 64434, FLogin ''pw'', FRang 1 2, FRetr ''/r'' None, FQuit]"
proof -
  have "c_env (sample_client ''GET'') = client_env ''host'' 64434 ''pw'' ''GET'' ''PARTIAL'' 1 2 ''/r'' ''/l''"
    by (simp add: sample_client_def)
  then obtain c' where c: "uftp_main sample_ftp (sample_client ''GET'') = (Ret 0, c')"
      "c_calls c' = c_calls (sample_client ''GET'') @ [FConnect ''host'' 64434, FLogin ''pw''] @ [FRang 1 2] @ [FRetr ''/r'' None, FQuit]"
      "c_files c' ''/l'' = Some (write_at 1 ''XY'' (case c_files (sample_client ''GET'') ''/l'' of None \<Rightarrow> [] | Some t \<Rightarrow> t))"
    using uftp_get_stores [OF sample_accepting, of "sample_client ''GET''"]
    by (fastforce simp: Let_def sample_ftp_def)
  have "write_at 1 ''XY'' ''abcd'' = ''aXYd''" by (simp add: write_at_def)
  with c show ?thesis by (simp add: sample_client_def)
qed

text \<open>
  C37: An upload with the UFTP client sends the local file from the requested offset to its end, whatever
  length was asked for; a length is only announced to the server as a range, which starts at 0 unless the
  mode is partial. The local files are not changed.
\<close>

theorem uftp_put_sends:
  assumes "accepting F" and "c_env c = client_env host port secret operation write_mode offset len remote local"
    and "operation \<noteq> ''GET''" and "c_files c local = Some text"
  shows "\<exists>c'. uftp_main F c = (Ret 0, c') \<and> c_files c' = c_files c \<and>
    c_calls c' = c_calls c @ [FConnect host port, FLogin secret]
      @ (if offset > 0 \<or> len > -1 then [FRang (if write_mode = ''PARTIAL'' then int offset else 0) len] else [])
      @ [FStor remote (drop offset text), FQuit]"
proof -
  let ?p = "write_mode = ''PARTIAL''" and ?call = "FStor remote (drop offset text)"
  let ?first = "if \<not> ?p then 0 else int offset" and ?r = "int offset > 0 \<or> len > -1"
  obtain c1 where c1: "uftp_main F c = bnd (client_job F operation write_mode offset len remote local) (\<lambda>_. ret 0) c1"
      "c_calls c1 = c_calls c @ [FConnect host port, FLogin secret]" "c_files c1 = c_files c"
    by (rule uftp_main_run [OF assms(1,2)])
  obtain x c2 where c2: "print_line (''PUT '' @ local @ '' -> '' @ remote) c1 = (Ret x, c2)" "c_calls c2 = c_calls c1 @ []" "c_files c2 = c_files c1"
    by (rule talksE [OF talks_print])
  obtain y c4 where c4: "whenP ?r (send_rang F ?first len) c2 = (Ret y, c4)"
      "c_calls c4 = c_calls c2 @ (if ?r then [FRang ?first len] else [])" "c_files c4 = c_files c2"
    by (rule talksE [OF talks_when [OF talks_rang [OF assms(1)]]])
  obtain r c6 where c6: "ftp_do F ?call c4 = (Ret r, c6)" "c_calls c6 = c_calls c4 @ [?call]" "c_files c6 = c_files c4"
    by (rule talksE [OF talks_call [OF assms(1)]])
  obtain z c7 where c7: "bnd (log_reply r) (\<lambda>_. ftp_quit F) c6 = (Ret z, c7)" "c_calls c7 = c_calls c6 @ [FQuit]" "c_files c7 = c_files c6"
    by (rule talksE [OF talks_end [OF assms(1)]])
  have sk: "(if ?r then seek (int offset) else ret 0) c = (Ret offset, c)" for c
    by (auto simp: seek_def ret_run)
  have t: "c_files c2 local = Some text" using c1(3) c2(3) assms(4) by simp
  have "client_job F operation write_mode offset len remote local c1 = (Ret z, c7)"
    unfolding client_job_def client_put_def
    by (simp only: assms(3) simp_thms if_False bnd_run gets_run of_opt_run option.case t c2(1) sk c4(1) c6(1)
        c7(1) [unfolded bnd_run] prod.case outcome.case)
  with c1(1) have "uftp_main F c = (Ret 0, c7)" by (simp add: bnd_run ret_run)
  then show ?thesis using c1(2,3) c2(2,3) c4(2,3) c6(2,3) c7(2,3) by auto
qed

theorem uftp_put_sends_witness:
  "\<exists>c'. uftp_main sample_ftp (sample_client ''PUT'') = (Ret 0, c') \<and>
     c_calls c' = [FConnect ''host'' 64434, FLogin ''pw'', FRang 1 2, FStor ''/r'' ''bcd'', FQuit]"
proof -
  have "c_env (sample_client ''PUT'') = client_env ''host'' 64434 ''pw'' ''PUT'' ''PARTIAL'' 1 2 ''/r'' ''/l''"
    "c_files (sample_client ''PUT'') ''/l'' = Some ''abcd''"
    by (simp_all add: sample_client_def)
  from uftp_put_sends [OF sample_accepting this(1) _ this(2)] show ?thesis
    by (simp add: sample_client_def) blast
qed

end
