(* ===== verification/Handlers.thy ===== *)
theory Handlers
  imports BatchSystems ACL UFTP
begin

text \<open>
  \<open>lib/TSI.py\<close>, the functions a request can call: the handlers of the main module itself, the empty
  reservation module \<open>lib/Reservation.py\<close>, and the table \<open>init_functions\<close> that maps the names of the
  commands to the handlers of all modules, in the order of the source.
\<close>

section \<open>Handlers of the main module\<close>

definition my_version :: string where
  "my_version = ''__VERSION__''"

definition ping :: "unit tsi" where
  "ping = ok (Some my_version)"

text \<open>\<open>str()\<close> of the effective user id, or the default of \<open>config.get\<close>.\<close>

fun id_text :: "cval option \<Rightarrow> string" where
  "id_text (Some (CInt i)) = show_int i"
| "id_text (Some (CStr s)) = s"
| "id_text None = ''n/a''"
| "id_text _ = ''None''"

definition ping_uid :: "string \<Rightarrow> unit tsi" where
  "ping_uid msg =
     bnd (ok (Some my_version)) (\<lambda>_.
     bnd (gets (\<lambda>w. config w ''tsi.effective_uid'')) (\<lambda>v.
     write_message (Some ('' running as UID ['' @ id_text v @ '']''))))"

text \<open>The expression \<open>.*#TSI_IDENTITY (\S+) (\S+)\n.*\<close>: the user and the groups of a request.\<close>

definition rx_identity :: "rx list" where
  "rx_identity = [star dot] @ lit ''#TSI_IDENTITY '' @ [Open, plus nonspace, Close] @ lit '' ''
     @ [Open, plus nonspace, Close] @ lit [NL] @ [star dot]"

definition identity_of :: "string \<Rightarrow> (string \<times> string) option" where
  "identity_of msg = map_option (\<lambda>caps. (caps ! 0, caps ! 1)) (re_search rx_identity msg)"

fun add_userkeys :: "string list \<Rightarrow> string \<Rightarrow> nat \<Rightarrow> string \<times> nat" where
  "add_userkeys [] response index = (response, index)"
| "add_userkeys (line # lines) response index =
     (if startswith line ''#'' then add_userkeys lines response index
      else add_userkeys lines
        (response @ ''Accepted key '' @ show_int (int index) @ '': '' @ strip line @ [NL]) (index + 1))"

fun add_userinfo :: "string list \<Rightarrow> string \<Rightarrow> string" where
  "add_userinfo [] response = response"
| "add_userinfo (line # lines) response =
     (if startswith line ''#'' then add_userinfo lines response
      else add_userinfo lines (response @ ''Attribute: '' @ strip line @ [NL]))"

text \<open>The variables \<open>status\<close>, \<open>response\<close> and \<open>i\<close> of \<open>get_user_info\<close>.\<close>

type_synonym info = "string \<times> string \<times> nat"

definition in_quotes :: "string \<Rightarrow> string" where
  "in_quotes s = [CHR 0x27] @ s @ [CHR 0x27]"

fun keyfiles_loop :: "sys \<Rightarrow> string \<Rightarrow> string list \<Rightarrow> info \<Rightarrow> info tsi" where
  "keyfiles_loop S home [] i = ret i"
| "keyfiles_loop S home (keyfile # keyfiles) (status, response, i) =
     (let file = path_join home keyfile in
      bnd (catch
        (bnd (open_read S file) (\<lambda>text.
         let r = add_userkeys (readlines text) response i in
         ret (status @ '' keyfile '' @ in_quotes file @ '': OK.'', fst r, snd r)))
        (\<lambda>e. ret (status @ '' keyfile '' @ in_quotes file @ '': '' @ exn_str S e @ [NL], response, i)))
      (keyfiles_loop S home keyfiles))"

definition info_command :: "sys \<Rightarrow> string \<Rightarrow> string \<Rightarrow> bool \<Rightarrow> (string \<Rightarrow> info \<Rightarrow> info) \<Rightarrow> info \<Rightarrow> info tsi" where
  "info_command S setting name login_shell add i =
     bnd (gets (\<lambda>w. config w setting)) (\<lambda>v.
     if v = None \<or> v = Some CNone then ret i
     else
       bnd (of_sum (as_str (the v))) (\<lambda>cmd.
       catch
         (bnd (run_command S cmd False False login_shell) (\<lambda>(success, out).
          case i of (status, response, n) \<Rightarrow>
          if success then ret (add out (status @ '' '' @ name @ '': OK.'', response, n))
          else ret (status @ '' '' @ name @ '' '' @ in_quotes cmd @ '': ERROR '' @ out @ ''.'', response, n)))
         (\<lambda>e. case i of (status, response, n) \<Rightarrow>
            ret (status @ '' '' @ name @ '' '' @ in_quotes cmd @ '': '' @ exn_str S e @ ''.'', response, n))))"

definition config_keyfiles :: "string list tsi" where
  "config_keyfiles = bnd (cfg_sub ''tsi.keyfiles'') (\<lambda>v. case v of CStrs l \<Rightarrow> ret l | _ \<Rightarrow> throw TypeError)"

definition get_user_info :: "sys \<Rightarrow> string \<Rightarrow> unit tsi" where
  "get_user_info S msg =
     (case identity_of msg of
        None \<Rightarrow> failed (Some ''No user/group info given'')
      | Some (user, _) \<Rightarrow>
          bnd (get_home_4user S user) (\<lambda>h.
          case h of
            None \<Rightarrow> throw TypeError
          | Some home \<Rightarrow>
              bnd config_keyfiles (\<lambda>keyfiles.
              bnd (keyfiles_loop S home keyfiles ([], ''home: '' @ home @ [NL], 0)) (\<lambda>i.
              bnd (cfg_get ''tsi.use_login_shell'' (CBool True)) (\<lambda>ls1.
              bnd (info_command S ''tsi.get_userkeys_cmd'' ''key_cmd'' (truthy ls1)
                (\<lambda>out (status, response, n). let r = add_userkeys (splitlines out) response n in (status, fst r, snd r)) i) (\<lambda>i.
              bnd (info_command S ''tsi.get_userinfo_cmd'' ''info_cmd'' (truthy ls1)
                (\<lambda>out (status, response, n). (status, add_userinfo (splitlines out) response, n)) i) (\<lambda>i.
              case i of (status, response, n) \<Rightarrow> ok (Some (response @ ''status: '' @ status @ [NL]))))))))) "

definition execute_script :: "sys \<Rightarrow> string \<Rightarrow> unit tsi" where
  "execute_script S msg =
     (let discard = contains msg (''#TSI_DISCARD_OUTPUT true'' @ [NL]) in
      bnd (cfg_get ''tsi.use_login_shell'' (CBool True)) (\<lambda>v.
      bnd (run_command S msg discard True (truthy v)) (\<lambda>(success, output).
      if success then ok (Some output) else failed (Some output))))"

section \<open>Reservations\<close>

definition make_reservation :: "string \<Rightarrow> unit tsi" where
  "make_reservation msg = failed (Some ''Reservation not supported!'')"

definition query_reservation :: "string \<Rightarrow> unit tsi" where
  "query_reservation msg = failed (Some ''Reservation not supported!'')"

definition cancel_reservation :: "string \<Rightarrow> unit tsi" where
  "cancel_reservation msg = failed (Some ''Reservation not supported!'')"

section \<open>The table of commands\<close>

text \<open>
  Which module \<open>BSS\<close> is installed. Without a batch system some methods are overridden; the other
  systems differ in the functions of their \<open>bss\<close> record only.
\<close>

datatype bss_kind = Nobatch | Slurm | Torque | Lsf

fun bss_of :: "bss_kind \<Rightarrow> bss" where
  "bss_of Nobatch = nobatch"
| "bss_of Slurm = slurm"
| "bss_of Torque = torque"
| "bss_of Lsf = lsf"

definition bss_submit :: "sys \<Rightarrow> bss_kind \<Rightarrow> string \<Rightarrow> unit tsi" where
  "bss_submit S k msg = (if k = Nobatch then nobatch_submit S msg else submit S (bss_of k) msg)"

definition bss_get_job_details :: "sys \<Rightarrow> bss_kind \<Rightarrow> string \<Rightarrow> unit tsi" where
  "bss_get_job_details S k msg = (if k = Nobatch then nobatch_get_job_details msg else get_job_details S (bss_of k) msg)"

definition bss_hold_job :: "sys \<Rightarrow> bss_kind \<Rightarrow> string \<Rightarrow> unit tsi" where
  "bss_hold_job S k msg = (if k = Nobatch then nobatch_hold_job msg else hold_job S msg)"

definition bss_resume_job :: "sys \<Rightarrow> bss_kind \<Rightarrow> string \<Rightarrow> unit tsi" where
  "bss_resume_job S k msg = (if k = Nobatch then nobatch_resume_job msg else resume_job S msg)"

definition init_functions :: "connector \<Rightarrow> sys \<Rightarrow> bss_kind \<Rightarrow> (string \<times> (string \<Rightarrow> unit tsi)) list" where
  "init_functions C S k =
     [(''TSI_PING'', \<lambda>_. ping),
      (''TSI_PING_UID'', ping_uid),
      (''TSI_GET_USER_INFO'', get_user_info S),
      (''TSI_EXECUTESCRIPT'', execute_script S),
      (''TSI_GETFILECHUNK'', get_file_chunk C S),
      (''TSI_PUTFILECHUNK'', put_file_chunk C S),
      (''TSI_LS'', ls_cmd S),
      (''TSI_DF'', df_cmd S),
      (''TSI_UFTP'', uftp S),
      (''TSI_SUBMIT'', bss_submit S k),
      (''TSI_RUN_ON_LOGIN_NODE'', run_on_login_node S),
      (''TSI_GETSTATUSLISTING'', get_status_listing S (bss_of k)),
      (''TSI_GETPROCESSLISTING'', get_process_listing S),
      (''TSI_GETJOBDETAILS'', bss_get_job_details S k),
      (''TSI_GET_PARTITIONS'', get_partitions S (bss_of k)),
      (''TSI_ABORTJOB'', abort_job S),
      (''TSI_HOLDJOB'', bss_hold_job S k),
      (''TSI_RESUMEJOB'', bss_resume_job S k),
      (''TSI_GET_COMPUTE_BUDGET'', get_budget),
      (''TSI_MAKE_RESERVATION'', make_reservation),
      (''TSI_QUERY_RESERVATION'', query_reservation),
      (''TSI_CANCEL_RESERVATION'', cancel_reservation),
      (''TSI_FILE_ACL'', process_acl S)]"

end
