(* ===== verification/BecomeUser.thy ===== *)
theory BecomeUser
  imports UserCache
begin

text \<open>
  \<open>lib/BecomeUser.py\<close>: the worker takes on the identity of the user of a request and gives it up
  again. The system calls follow the rules of \<open>setgid(2)\<close>, \<open>setgroups(2)\<close>, \<open>setresgid(2)\<close>
  and \<open>setresuid(2)\<close>. \<open>plan_identity\<close> is the abstract specification: which user id, primary
  group and supplementary groups a request asks for, as a pure function of the user's entry and the
  group database. \<open>become_user\<close> implements it for every source of user information that satisfies
  the contract \<open>user_source\<close>, and the security properties are read off the specification.
\<close>

section \<open>System calls on credentials\<close>

definition eperm :: exn where
  "eperm = OSError ''Operation not permitted''"

definition einval :: exn where
  "einval = OSError ''Invalid argument''"

definition k_setgid :: "int \<Rightarrow> cred \<Rightarrow> exn + cred" where
  "k_setgid g c =
     (if g < 0 then Inl einval
      else if privileged c then Inr (c\<lparr>rgid := g, egid := g, sgid := g\<rparr>)
      else if g = rgid c \<or> g = sgid c then Inr (c\<lparr>egid := g\<rparr>)
      else Inl eperm)"

definition ngroups_max :: nat where
  "ngroups_max = 65536"

definition k_setgroups :: "int list \<Rightarrow> cred \<Rightarrow> exn + cred" where
  "k_setgroups gs c =
     (if \<not> privileged c then Inl eperm
      else if ngroups_max < length gs \<or> (\<exists>g \<in> set gs. g < 0) then Inl einval
      else Inr (c\<lparr>groups := gs\<rparr>))"

definition k_setegid :: "int \<Rightarrow> cred \<Rightarrow> exn + cred" where
  "k_setegid g c =
     (if g < 0 then Inl einval
      else if privileged c \<or> g \<in> {rgid c, egid c, sgid c} then Inr (c\<lparr>egid := g\<rparr>)
      else Inl eperm)"

text \<open>An argument of -1 leaves the id alone.\<close>

definition k_setresuid :: "int \<Rightarrow> int \<Rightarrow> int \<Rightarrow> cred \<Rightarrow> exn + cred" where
  "k_setresuid r e s c =
     (let allowed = (\<lambda>i. i = -1 \<or> i \<in> {ruid c, euid c, suid c});
          pick = (\<lambda>i old. if i = -1 then old else i)
      in if r < -1 \<or> e < -1 \<or> s < -1 then Inl einval
         else if privileged c \<or> (allowed r \<and> allowed e \<and> allowed s)
         then Inr (c\<lparr>ruid := pick r (ruid c), euid := pick e (euid c), suid := pick s (suid c)\<rparr>)
         else Inl eperm)"

definition os_call :: "(cred \<Rightarrow> exn + cred) \<Rightarrow> unit tsi" where
  "os_call k = (\<lambda>w. case k (cred w) of
      Inl e \<Rightarrow> (Exc e, w)
    | Inr c \<Rightarrow> (Ret (), w\<lparr>cred := c\<rparr>))"

definition set_environ :: "string \<Rightarrow> string \<Rightarrow> unit tsi" where
  "set_environ k v = modify (\<lambda>w. w\<lparr>environ := (environ w)(k \<mapsto> v)\<rparr>)"

lemma os_call_Ret: "os_call k w = (Ret x, w') \<longleftrightarrow> (\<exists>c. k (cred w) = Inr c \<and> w' = w\<lparr>cred := c\<rparr>)"
  by (auto simp: os_call_def split: sum.splits)

lemma set_environ_Ret: "set_environ k v w = (Ret x, w') \<longleftrightarrow> w' = w\<lparr>environ := (environ w)(k \<mapsto> v)\<rparr>"
  by (simp add: set_environ_def returns)

section \<open>The module\<close>

definition initialize :: "unit tsi" where
  "initialize =
     bnd (gets (\<lambda>w. euid (cred w))) (\<lambda>eu.
     bnd (gets (\<lambda>w. egid (cred w))) (\<lambda>eg.
     bnd (cfg_set ''tsi.effective_uid'' (CInt eu)) (\<lambda>_.
     bnd (cfg_set ''tsi.effective_gid'' (CInt eg)) (\<lambda>_.
     bnd (cfg_sub ''tsi.switch_uid'') (\<lambda>switch_uid.
     bnd (cfg_set ''tsi.switch_uid'' (CBool (truthy switch_uid \<or> eu = 0))) (\<lambda>_.
     bnd (cfg_sub ''tsi.enforce_os_gids'') (\<lambda>_.
     bnd (cfg_sub ''tsi.userCacheTtl'') (\<lambda>cache_ttl.
     bnd (cfg_sub ''tsi.use_id_to_resolve_gids'') (\<lambda>use_id.
     modify (\<lambda>w. w\<lparr>ucache := new_user_cache cache_ttl (truthy use_id)\<rparr>))))))))))"

definition check_membership :: "user_ops \<Rightarrow> string \<Rightarrow> int \<Rightarrow> string \<Rightarrow> bool tsi" where
  "check_membership U gname group_gid user =
     bnd (cfg_sub ''tsi.enforce_os_gids'') (\<lambda>enforce_os_gids.
     if truthy enforce_os_gids then
       bnd (op_gid U user) (\<lambda>primary.
       if group_gid \<noteq> primary then
         bnd (op_gids U user) (\<lambda>user_gids.
         if group_gid \<notin> set user_gids then ret False else ret True)
       else ret True)
     else ret True)"

definition get_primary_group :: "user_ops \<Rightarrow> string \<Rightarrow> string \<Rightarrow> bool \<Rightarrow> int tsi" where
  "get_primary_group U primary user fail_on_invalid_gids =
     (if primary = ''DEFAULT_GID'' then op_gid U user
      else
        bnd (op_group U primary) (\<lambda>g.
        bnd (if g = -1 then
               (if fail_on_invalid_gids then
                  throw (RuntimeError (''Attempt to run a task with an unknown primary group: '' @ primary))
                else op_gid U user)
             else ret g) (\<lambda>new_gid.
        bnd (check_membership U primary new_gid user) (\<lambda>member.
        if \<not> member then
          (if fail_on_invalid_gids then
             throw (RuntimeError (''The user '' @ user @ '' is not a member of the group '' @ primary))
           else op_gid U user)
        else ret new_gid))))"

text \<open>
  The loop of \<open>get_supplementary_groups\<close>. \<open>sup_gids\<close> is a dictionary whose values are all true.
  Note the branch for a group the user is not a member of: unless failure is configured, the code
  logs that it skips the group and then adds it like any other.
\<close>

fun supplementary_loop :: "user_ops \<Rightarrow> bool \<Rightarrow> string \<Rightarrow> bool \<Rightarrow> (int, bool) dict \<Rightarrow> string list
    \<Rightarrow> (int, bool) dict tsi" where
  "supplementary_loop U fail user added_default sup_gids [] = ret sup_gids"
| "supplementary_loop U fail user added_default sup_gids (g # gs) =
     (if g = ''DEFAULT_GID'' then
        (if \<not> added_default then
           bnd (op_gids U user) (\<lambda>default_gids.
           supplementary_loop U fail user True (fold (\<lambda>d. dict_set d True) default_gids sup_gids) gs)
         else supplementary_loop U fail user added_default sup_gids gs)
      else
        bnd (op_group U g) (\<lambda>tmp.
        if tmp = -1 then
          (if fail then
             throw (RuntimeError (''Attempt to run a task with an unknown supplementary group '' @ g))
           else supplementary_loop U fail user added_default sup_gids gs)
        else
          bnd (check_membership U g tmp user) (\<lambda>member.
          if \<not> member \<and> fail then
            throw (RuntimeError (''The user '' @ user @ '' is not a member of the group '' @ g))
          else supplementary_loop U fail user added_default (dict_set tmp True sup_gids) gs)))"

definition get_supplementary_groups :: "user_ops \<Rightarrow> string list \<Rightarrow> int \<Rightarrow> string \<Rightarrow> int list tsi" where
  "get_supplementary_groups U requested_groups primary user =
     bnd (cfg_sub ''tsi.fail_on_invalid_gids'') (\<lambda>fail.
     bnd (supplementary_loop U (truthy fail) user False [(primary, True)] requested_groups) (\<lambda>sup_gids.
     ret (map fst (filter snd sup_gids))))"

text \<open>An integer passed to a system call; anything else is a \<open>TypeError\<close>.\<close>

definition as_int :: "cval option \<Rightarrow> int tsi" where
  "as_int v = of_opt TypeError (case v of Some (CInt i) \<Rightarrow> Some i | _ \<Rightarrow> None)"

lemma as_int_Ret: "as_int v w = (Ret x, w') \<longleftrightarrow> v = Some (CInt x) \<and> w' = w"
  by (auto simp: as_int_def returns split: option.splits cval.splits)

text \<open>
  The second half of \<open>become_user\<close>, from the comment "Change identity" on. The checks after the
  system calls compare what the kernel reports with what was asked for (the last message also prints
  the two sets of groups, which is left out here).
\<close>

definition change_identity :: "user_ops \<Rightarrow> string \<Rightarrow> cval option \<Rightarrow> int \<Rightarrow> int \<Rightarrow> int list \<Rightarrow> bool tsi" where
  "change_identity U user eu new_uid new_gid new_gids =
     bnd (os_call (k_setgid new_gid)) (\<lambda>_.
     bnd (os_call (k_setgroups new_gids)) (\<lambda>_.
     bnd (os_call (k_setegid new_gid)) (\<lambda>_.
     bnd (as_int eu) (\<lambda>saved.
     bnd (os_call (k_setresuid new_uid new_uid saved)) (\<lambda>_.
     bnd (gets cred) (\<lambda>c.
     if (ruid c, euid c) \<noteq> (new_uid, new_uid) then
       throw (RuntimeError (''Could not set TSI uid (real,effective) for '' @ user @ '' to '' @ show_int new_uid))
     else if (rgid c, egid c) \<noteq> (new_gid, new_gid) then
       throw (RuntimeError (''Could not set TSI gid (real, effective) for '' @ user @ '' to '' @ show_int new_gid))
     else if set (groups c) \<noteq> set new_gids then
       throw (RuntimeError (''Could not set TSI identity (supplementary groups) for '' @ user))
     else
       bnd (op_home U user) (\<lambda>home.
       bnd (of_opt TypeError home) (\<lambda>h.
       bnd (set_environ ''HOME'' h) (\<lambda>_.
       bnd (set_environ ''USER'' user) (\<lambda>_.
       bnd (set_environ ''LOGNAME'' user) (\<lambda>_.
       ret True)))))))))))"

text \<open>\<open>become_user\<close> returns \<open>True\<close> or raises.\<close>

definition become_user :: "user_ops \<Rightarrow> string \<Rightarrow> string list \<Rightarrow> bool tsi" where
  "become_user U user requested_groups =
     bnd (gets (\<lambda>w. config w ''tsi.effective_uid'')) (\<lambda>eu.
     bnd (cfg_sub ''tsi.switch_uid'') (\<lambda>setting_uids.
     if \<not> truthy setting_uids then
       (if eu = Some (CInt 0) then
          throw (RuntimeError ''Running as root and not setting uids --- this is not allowed. Please check your TSI installation!'')
        else ret True)
     else
       bnd (cfg_sub ''tsi.fail_on_invalid_gids'') (\<lambda>fail.
       bnd (of_opt IndexError (case requested_groups of [] \<Rightarrow> None | g # _ \<Rightarrow> Some g)) (\<lambda>primary.
       bnd (op_uid U user) (\<lambda>new_uid.
       if new_uid = -1 then throw (RuntimeError (''Attempted to run a task for an unknown user '' @ user))
       else if new_uid = 0 then throw (RuntimeError (''Attempted to run a command as root '' @ user))
       else if primary = ''NONE'' then
         bnd (op_gid U user) (\<lambda>new_gid.
         bnd (op_gids U user) (\<lambda>new_gids.
         change_identity U user eu new_uid new_gid new_gids))
       else
         bnd (get_primary_group U primary user (truthy fail)) (\<lambda>new_gid.
         bnd (get_supplementary_groups U requested_groups new_gid user) (\<lambda>new_gids.
         change_identity U user eu new_uid new_gid new_gids)))))))"

definition restore_id :: "unit tsi" where
  "restore_id =
     bnd (cfg_sub ''tsi.switch_uid'') (\<lambda>setting_uids.
     if truthy setting_uids then
       bnd (cfg_sub ''tsi.effective_uid'') (\<lambda>eu.
       bnd (cfg_sub ''tsi.effective_gid'') (\<lambda>eg.
       bnd (as_int (Some eu)) (\<lambda>eu.
       bnd (os_call (k_setresuid eu eu eu)) (\<lambda>_.
       bnd (as_int (Some eg)) (\<lambda>eg.
       bnd (os_call (k_setgid eg)) (\<lambda>_.
       bnd (os_call (k_setgroups [eg])) (\<lambda>_.
       bnd (os_call (k_setegid eg)) (\<lambda>_.
       bnd (set_environ ''HOME'' ''/tmp'') (\<lambda>_.
       bnd (set_environ ''USER'' ''nobody'') (\<lambda>_.
       set_environ ''LOGNAME'' ''nobody''))))))))))
     else ret ())"

section \<open>The specification: who a request runs as\<close>

definition uid_of :: "user_entry option \<Rightarrow> int" where
  "uid_of e = (case e of None \<Rightarrow> -1 | Some x \<Rightarrow> e_uid x)"

definition gid_of :: "user_entry option \<Rightarrow> int" where
  "gid_of e = (case e of None \<Rightarrow> -1 | Some x \<Rightarrow> e_gid x)"

definition gids_of :: "user_entry option \<Rightarrow> int list" where
  "gids_of e = (case e of None \<Rightarrow> [] | Some x \<Rightarrow> e_gids x)"

definition group_no :: "int option \<Rightarrow> int" where
  "group_no g = (case g of None \<Rightarrow> -1 | Some i \<Rightarrow> i)"

definition plan_member :: "bool \<Rightarrow> user_entry option \<Rightarrow> int \<Rightarrow> bool" where
  "plan_member enforce e g \<longleftrightarrow> \<not> enforce \<or> g = gid_of e \<or> g \<in> set (gids_of e)"

definition plan_primary :: "bool \<Rightarrow> bool \<Rightarrow> string \<Rightarrow> user_entry option \<Rightarrow> (string \<Rightarrow> int option) \<Rightarrow> string \<Rightarrow> exn + int" where
  "plan_primary enforce fail user e G primary =
     (if primary = ''DEFAULT_GID'' then Inr (gid_of e)
      else
        sbind (if group_no (G primary) = -1 then
                 (if fail then Inl (RuntimeError (''Attempt to run a task with an unknown primary group: '' @ primary))
                  else Inr (gid_of e))
               else Inr (group_no (G primary))) (\<lambda>g.
        if plan_member enforce e g then Inr g
        else if fail then Inl (RuntimeError (''The user '' @ user @ '' is not a member of the group '' @ primary))
        else Inr (gid_of e)))"

fun plan_supplementary :: "bool \<Rightarrow> bool \<Rightarrow> string \<Rightarrow> user_entry option \<Rightarrow> (string \<Rightarrow> int option) \<Rightarrow> bool
    \<Rightarrow> (int, bool) dict \<Rightarrow> string list \<Rightarrow> exn + (int, bool) dict" where
  "plan_supplementary enforce fail user e G added d [] = Inr d"
| "plan_supplementary enforce fail user e G added d (g # gs) =
     (if g = ''DEFAULT_GID'' then
        (if added then plan_supplementary enforce fail user e G added d gs
         else plan_supplementary enforce fail user e G True (fold (\<lambda>x. dict_set x True) (gids_of e) d) gs)
      else if group_no (G g) = -1 then
        (if fail then Inl (RuntimeError (''Attempt to run a task with an unknown supplementary group '' @ g))
         else plan_supplementary enforce fail user e G added d gs)
      else if \<not> plan_member enforce e (group_no (G g)) \<and> fail then
        Inl (RuntimeError (''The user '' @ user @ '' is not a member of the group '' @ g))
      else plan_supplementary enforce fail user e G added (dict_set (group_no (G g)) True d) gs)"

definition plan_groups :: "bool \<Rightarrow> bool \<Rightarrow> string \<Rightarrow> user_entry option \<Rightarrow> (string \<Rightarrow> int option) \<Rightarrow> string list \<Rightarrow> int \<Rightarrow> exn + int list" where
  "plan_groups enforce fail user e G gs primary =
     sbind (plan_supplementary enforce fail user e G False [(primary, True)] gs)
       (\<lambda>d. Inr (map fst (filter snd d)))"

definition plan_identity :: "bool \<Rightarrow> bool \<Rightarrow> string \<Rightarrow> user_entry option \<Rightarrow> (string \<Rightarrow> int option) \<Rightarrow> string list \<Rightarrow> exn + int \<times> int \<times> int list" where
  "plan_identity enforce fail user e G gs =
     (case gs of
        [] \<Rightarrow> Inl IndexError
      | primary # _ \<Rightarrow>
          (if uid_of e = -1 then Inl (RuntimeError (''Attempted to run a task for an unknown user '' @ user))
           else if uid_of e = 0 then Inl (RuntimeError (''Attempted to run a command as root '' @ user))
           else if primary = ''NONE'' then Inr (uid_of e, gid_of e, gids_of e)
           else
             sbind (plan_primary enforce fail user e G primary) (\<lambda>gid.
             sbind (plan_groups enforce fail user e G gs gid) (\<lambda>l. Inr (uid_of e, gid, l)))))"

text \<open>The settings the module reads, as \<open>initialize\<close> leaves them in a switching TSI.\<close>

definition id_config :: "config \<Rightarrow> int \<Rightarrow> int \<Rightarrow> bool \<Rightarrow> bool \<Rightarrow> bool" where
  "id_config cfg eu eg enforce fail \<longleftrightarrow>
     cfg ''tsi.switch_uid'' = Some (CBool True) \<and>
     cfg ''tsi.effective_uid'' = Some (CInt eu) \<and> cfg ''tsi.effective_gid'' = Some (CInt eg) \<and>
     cfg ''tsi.enforce_os_gids'' = Some (CBool enforce) \<and>
     cfg ''tsi.fail_on_invalid_gids'' = Some (CBool fail)"

text \<open>
  Ids as the databases have them (not negative, and no more groups than the kernel allows), and the
  credentials after the switch: only the saved user id still remembers the TSI's own identity.
\<close>

definition ids_ok :: "int \<Rightarrow> int \<Rightarrow> int list \<Rightarrow> bool" where
  "ids_ok uid gid l \<longleftrightarrow> 0 < uid \<and> 0 \<le> gid \<and> (\<forall>g \<in> set l. 0 \<le> g) \<and> length l \<le> ngroups_max"

definition taken_on :: "cred \<Rightarrow> int \<Rightarrow> int \<Rightarrow> int \<Rightarrow> int list \<Rightarrow> cred" where
  "taken_on c eu uid gid l = c\<lparr>rgid := gid, sgid := gid, groups := l, egid := gid, ruid := uid, euid := uid, suid := eu\<rparr>"

fun outcome_of :: "exn + 'a \<Rightarrow> 'a outcome" where
  "outcome_of (Inl e) = Exc e"
| "outcome_of (Inr x) = Ret x"

section \<open>The code follows the specification\<close>

context user_source begin

text \<open>Two worlds that give the same answers about a user; and a program that only asks.\<close>

definition same :: "string \<Rightarrow> world \<Rightarrow> world \<Rightarrow> bool" where
  "same u w w' \<longleftrightarrow> inv w' \<and> entry w' u = entry w u \<and> gentry w' = gentry w \<and>
     cred w' = cred w \<and> config w' = config w \<and> environ w' = environ w"

definition query :: "string \<Rightarrow> 'a tsi \<Rightarrow> world \<Rightarrow> exn + 'a \<Rightarrow> bool" where
  "query u m w r \<longleftrightarrow> (\<exists>w'. m w = (outcome_of r, w') \<and> same u w w')"

lemma same_refl: "inv w \<Longrightarrow> same u w w"
  by (simp add: same_def)

lemma same_trans: "same u w v \<Longrightarrow> same u v x \<Longrightarrow> same u w x"
  by (simp add: same_def)

lemma same_touch: "inv w \<Longrightarrow> same u w (touch u w)"
  by (simp add: same_def source_stable fun_eq_iff)

lemma same_gtouch: "inv w \<Longrightarrow> same u w (gtouch g w)"
  by (simp add: same_def source_stable fun_eq_iff)

lemma query_ret: "inv w \<Longrightarrow> query u (ret x) w (Inr x)"
  by (auto simp: query_def run_simps intro: same_refl)

lemma query_throw: "inv w \<Longrightarrow> query u (throw e) w (Inl e)"
  by (auto simp: query_def run_simps intro: same_refl)

lemma query_bnd:
  assumes "query u m w r" and "\<And>x w'. r = Inr x \<Longrightarrow> same u w w' \<Longrightarrow> query u (f x) w' (g x)"
  shows "query u (bnd m f) w (sbind r g)"
proof -
  obtain w' where w': "m w = (outcome_of r, w')" "same u w w'" using assms(1) by (auto simp: query_def)
  show ?thesis
  proof (cases r)
    case (Inl e)
    with w' show ?thesis by (auto simp: query_def run_simps)
  next
    case (Inr x)
    with assms(2) w' obtain v where "f x w' = (outcome_of (g x), v)" "same u w' v"
      by (auto simp: query_def)
    with Inr w' show ?thesis by (auto simp: query_def run_simps intro: same_trans)
  qed
qed

lemma query_uid: "inv w \<Longrightarrow> query u (op_uid U u) w (Inr (uid_of (entry w u)))"
  by (auto simp: query_def uid_run uid_of_def same_touch)

lemma query_gid: "inv w \<Longrightarrow> query u (op_gid U u) w (Inr (gid_of (entry w u)))"
  by (auto simp: query_def gid_run gid_of_def same_touch)

lemma query_gids: "inv w \<Longrightarrow> query u (op_gids U u) w (Inr (gids_of (entry w u)))"
  by (auto simp: query_def gids_run gids_of_def same_touch)

lemma query_group: "inv w \<Longrightarrow> query u (op_group U g) w (Inr (group_no (gentry w g)))"
  by (auto simp: query_def group_run group_no_def same_gtouch)

lemma query_cfg: "inv w \<Longrightarrow> config w k = Some v \<Longrightarrow> query u (cfg_sub k) w (Inr v)"
  by (auto simp: query_def run_simps intro: same_refl)

lemma sameD:
  assumes "same u w w'"
  shows "inv w'" "entry w' u = entry w u" "gentry w' = gentry w" "cred w' = cred w"
    "config w' = config w" "environ w' = environ w"
  using assms by (simp_all add: same_def)

lemma query_bnd_Inr:
  assumes "query u m w (Inr x)" and "\<And>w'. same u w w' \<Longrightarrow> query u (f x) w' r"
  shows "query u (bnd m f) w r"
  using query_bnd [of u m w "Inr x" f "\<lambda>_. r"] assms by auto

lemma query_if:
  "(b \<Longrightarrow> query u m w r) \<Longrightarrow> (\<not> b \<Longrightarrow> query u n w s) \<Longrightarrow>
    query u (if b then m else n) w (if b then r else s)"
  by simp

lemma query_membership:
  assumes "inv w" and "id_config (config w) eu eg enforce fail"
  shows "query u (check_membership U g gid u) w (Inr (plan_member enforce (entry w u) gid))"
  unfolding check_membership_def
proof (rule query_bnd_Inr [OF query_cfg])
  show "inv w" by fact
  show "config w ''tsi.enforce_os_gids'' = Some (CBool enforce)" using assms by (simp add: id_config_def)
  fix v
  assume v: "same u w v"
  show "query u (if truthy (CBool enforce) then
       bnd (op_gid U u) (\<lambda>primary. if gid \<noteq> primary then
         bnd (op_gids U u) (\<lambda>user_gids. if gid \<notin> set user_gids then ret False else ret True)
         else ret True)
     else ret True) v (Inr (plan_member enforce (entry w u) gid))"
  proof (cases enforce)
    case False
    with v show ?thesis by (auto simp: plan_member_def dest: sameD intro: query_ret)
  next
    case True
    have "query u (bnd (op_gid U u) (\<lambda>primary. if gid \<noteq> primary then
         bnd (op_gids U u) (\<lambda>user_gids. if gid \<notin> set user_gids then ret False else ret True)
         else ret True)) v (Inr (plan_member enforce (entry w u) gid))"
    proof (rule query_bnd_Inr [OF query_gid])
      show "inv v" using v by (rule sameD)
      fix x
      assume x: "same u v x"
      show "query u (if gid \<noteq> gid_of (entry v u) then
         bnd (op_gids U u) (\<lambda>user_gids. if gid \<notin> set user_gids then ret False else ret True)
         else ret True) x (Inr (plan_member enforce (entry w u) gid))"
      proof (cases "gid = gid_of (entry v u)")
        case True
        then show ?thesis by (simp add: plan_member_def sameD(2) [OF v] query_ret sameD(1) [OF x])
      next
        case False
        have "query u (bnd (op_gids U u) (\<lambda>user_gids. if gid \<notin> set user_gids then ret False else ret True))
            x (Inr (plan_member enforce (entry w u) gid))"
          by (rule query_bnd_Inr [OF query_gids])
            (use False True v x in \<open>auto simp: plan_member_def sameD dest: sameD intro: query_ret\<close>)
        with False show ?thesis by simp
      qed
    qed
    with True show ?thesis by simp
  qed
qed

lemma id_config_same: "same u w v \<Longrightarrow> id_config (config v) = id_config (config w)"
  by (simp add: sameD fun_eq_iff)

lemma query_primary:
  assumes w: "inv w" and cfg: "id_config (config w) eu eg enforce fail"
  shows "query u (get_primary_group U p u fail) w (plan_primary enforce fail u (entry w u) (gentry w) p)"
proof (cases "p = ''DEFAULT_GID''")
  case True
  with w show ?thesis by (simp add: get_primary_group_def plan_primary_def query_gid)
next
  case False
  let ?e = "entry w u"
  let ?fallback = "if fail then throw (RuntimeError (''Attempt to run a task with an unknown primary group: '' @ p))
        else op_gid U u"
  have first: "query u (if group_no (gentry w p) = -1 then ?fallback else ret (group_no (gentry w p))) v
      (if group_no (gentry w p) = -1 then
         (if fail then Inl (RuntimeError (''Attempt to run a task with an unknown primary group: '' @ p))
          else Inr (gid_of ?e))
       else Inr (group_no (gentry w p)))" if v: "same u w v" for v
    using query_gid [OF sameD(1) [OF v], of u]
    by (simp add: sameD [OF v] query_throw query_ret)
  have second: "query u (bnd (check_membership U p g u) (\<lambda>member.
        if \<not> member then
          (if fail then throw (RuntimeError (''The user '' @ u @ '' is not a member of the group '' @ p))
           else op_gid U u)
        else ret g)) v
      (if plan_member enforce ?e g then Inr g
       else if fail then Inl (RuntimeError (''The user '' @ u @ '' is not a member of the group '' @ p))
       else Inr (gid_of ?e))" if v: "same u w v" for v g
  proof (rule query_bnd_Inr [OF query_membership])
    show "inv v" using v by (rule sameD)
    show "id_config (config v) eu eg enforce fail" using cfg v by (simp add: id_config_same)
    fix x assume x: "same u v x"
    show "query u (if \<not> plan_member enforce (entry v u) g then
          (if fail then throw (RuntimeError (''The user '' @ u @ '' is not a member of the group '' @ p))
           else op_gid U u)
        else ret g) x
      (if plan_member enforce ?e g then Inr g
       else if fail then Inl (RuntimeError (''The user '' @ u @ '' is not a member of the group '' @ p))
       else Inr (gid_of ?e))"
      using query_gid [OF sameD(1) [OF x], of u]
      by (simp add: sameD [OF v] sameD [OF x] query_throw query_ret)
  qed
  show ?thesis
    unfolding get_primary_group_def plan_primary_def if_not_P [OF False]
    by (rule query_bnd_Inr [OF query_group [OF w]], rule query_bnd, erule first)
      (blast intro: second same_trans)
qed

lemma query_supplementary:
  assumes "inv w" and "id_config (config w) eu eg enforce fail"
  shows "query u (supplementary_loop U fail u added d gs) w
    (plan_supplementary enforce fail u (entry w u) (gentry w) added d gs)"
  using assms
proof (induction gs arbitrary: added d w)
  case Nil
  then show ?case by (simp add: query_ret)
next
  case (Cons g gs)
  have IH: "query u (supplementary_loop U fail u a d' gs) v
      (plan_supplementary enforce fail u (entry w u) (gentry w) a d' gs)" if "same u w v" for v a d'
    using Cons.IH [of v a d'] Cons.prems that by (simp add: sameD [OF that])
  note step = query_bnd_Inr [OF query_gids [OF Cons.prems(1)]] query_bnd_Inr [OF query_group [OF Cons.prems(1)]]
  show ?case
  proof (cases "g = ''DEFAULT_GID''")
    case True
    then show ?thesis
      by (simp add: IH same_refl Cons.prems(1)) (blast intro: step IH)
  next
    case False
    let ?n = "group_no (gentry w g)" and ?m = "plan_member enforce (entry w u)"
    have mem: "query u (bnd (check_membership U g ?n u) (\<lambda>member. if \<not> member \<and> fail then throw e else
          supplementary_loop U fail u added (dict_set ?n True d) gs)) v
        (if \<not> ?m ?n \<and> fail then Inl e
         else plan_supplementary enforce fail u (entry w u) (gentry w) added (dict_set ?n True d) gs)"
      if v: "same u w v" for v e
    proof (rule query_bnd_Inr [OF query_membership])
      show "inv v" using v by (rule sameD)
      show "id_config (config v) eu eg enforce fail" using Cons.prems v by (simp add: id_config_same)
      fix x assume x: "same u v x"
      show "query u (if \<not> plan_member enforce (entry v u) ?n \<and> fail then throw e else
          supplementary_loop U fail u added (dict_set ?n True d) gs) x
        (if \<not> ?m ?n \<and> fail then Inl e
         else plan_supplementary enforce fail u (entry w u) (gentry w) added (dict_set ?n True d) gs)"
        using IH [OF same_trans [OF v x]]
        by (cases fail) (simp_all add: sameD [OF v] query_throw sameD(1) [OF x])
    qed
    show ?thesis
      unfolding supplementary_loop.simps plan_supplementary.simps if_not_P [OF False]
      by (rule step(2)) (intro query_if IH mem query_throw sameD(1); assumption)
  qed
qed

lemma query_groups:
  assumes "inv w" and "id_config (config w) eu eg enforce fail"
  shows "query u (get_supplementary_groups U gs p u) w (plan_groups enforce fail u (entry w u) (gentry w) gs p)"
  unfolding get_supplementary_groups_def plan_groups_def
proof (rule query_bnd_Inr [OF query_cfg])
  show "inv w" by fact
  show "config w ''tsi.fail_on_invalid_gids'' = Some (CBool fail)" using assms by (simp add: id_config_def)
  fix v assume v: "same u w v"
  have "query u (supplementary_loop U fail u False [(p, True)] gs) v
      (plan_supplementary enforce fail u (entry w u) (gentry w) False [(p, True)] gs)"
    using query_supplementary [of v eu eg enforce fail u False "[(p, True)]" gs] assms
    by (simp add: sameD [OF v])
  from query_bnd [OF this, of "\<lambda>d. ret (map fst (filter snd d))" "\<lambda>d. Inr (map fst (filter snd d))"]
  show "query u (bnd (supplementary_loop U (truthy (CBool fail)) u False [(p, True)] gs)
       (\<lambda>d. ret (map fst (filter snd d)))) v
     (sbind (plan_supplementary enforce fail u (entry w u) (gentry w) False [(p, True)] gs)
       (\<lambda>d. Inr (map fst (filter snd d))))"
    by (simp add: query_ret sameD(1))
qed

text \<open>Which identity a request asks for, up to the comment "Change identity".\<close>

definition decide :: "string \<Rightarrow> string list \<Rightarrow> (int \<times> int \<times> int list) tsi" where
  "decide user gs =
     bnd (cfg_sub ''tsi.fail_on_invalid_gids'') (\<lambda>fail.
     bnd (of_opt IndexError (case gs of [] \<Rightarrow> None | g # _ \<Rightarrow> Some g)) (\<lambda>primary.
     bnd (op_uid U user) (\<lambda>new_uid.
     if new_uid = -1 then throw (RuntimeError (''Attempted to run a task for an unknown user '' @ user))
     else if new_uid = 0 then throw (RuntimeError (''Attempted to run a command as root '' @ user))
     else if primary = ''NONE'' then
       bnd (op_gid U user) (\<lambda>new_gid. bnd (op_gids U user) (\<lambda>new_gids. ret (new_uid, new_gid, new_gids)))
     else
       bnd (get_primary_group U primary user (truthy fail)) (\<lambda>new_gid.
       bnd (get_supplementary_groups U gs new_gid user) (\<lambda>new_gids. ret (new_uid, new_gid, new_gids))))))"

lemma bnd_if: "bnd (if b then m else n) f = (if b then bnd m f else bnd n f)"
  by simp

lemma become_user_decide:
  assumes "id_config (config w) eu eg enforce fail"
  shows "become_user U user gs w =
    bnd (decide user gs) (\<lambda>(uid, gid, l). change_identity U user (Some (CInt eu)) uid gid l) w"
proof -
  have cfg: "config w ''tsi.switch_uid'' = Some (CBool True)"
      "config w ''tsi.effective_uid'' = Some (CInt eu)"
    using assms by (simp_all add: id_config_def)
  show ?thesis
    unfolding become_user_def decide_def bnd_assoc bnd_if bnd_throw bnd_ret_left prod.case
    by (simp only: bnd_run gets_run cfg_sub_run cfg option.case prod.case outcome.case truthy.simps
        not_True_eq_False if_False)
qed

lemma query_decide:
  assumes w: "inv w" and cfg: "id_config (config w) eu eg enforce fail"
  shows "query u (decide u gs) w (plan_identity enforce fail u (entry w u) (gentry w) gs)"
proof (cases gs)
  case Nil
  have "config w ''tsi.fail_on_invalid_gids'' = Some (CBool fail)" using cfg by (simp add: id_config_def)
  with Nil w show ?thesis
    by (simp add: decide_def plan_identity_def query_def run_simps same_refl)
next
  case (Cons p ps)
  let ?e = "entry w u" and ?G = "gentry w"
  have none: "query u (bnd (op_gid U u) (\<lambda>g. bnd (op_gids U u) (\<lambda>l. ret (i, g, l)))) v
      (Inr (i, gid_of ?e, gids_of ?e))" if v: "same u w v" for v i
  proof -
    have "query u (bnd (op_gids U u) (\<lambda>l. ret (i, gid_of ?e, l))) x (Inr (i, gid_of ?e, gids_of ?e))"
      if x: "same u v x" for x
      using query_bnd_Inr [OF query_gids [OF sameD(1) [OF x]], where f = "\<lambda>l. ret (i, gid_of ?e, l)"]
      by (simp add: query_ret sameD(1) sameD(2) [OF x] sameD(2) [OF v])
    then show ?thesis
      by (intro query_bnd_Inr [OF query_gid [OF sameD(1) [OF v]]]) (simp add: sameD(2) [OF v])
  qed
  have some: "query u (bnd (get_primary_group U p u fail) (\<lambda>g.
        bnd (get_supplementary_groups U gs g u) (\<lambda>l. ret (i, g, l)))) v
      (sbind (plan_primary enforce fail u ?e ?G p) (\<lambda>g.
       sbind (plan_groups enforce fail u ?e ?G gs g) (\<lambda>l. Inr (i, g, l))))" if v: "same u w v" for v i
  proof -
    have cv: "id_config (config v) eu eg enforce fail" using cfg v by (simp add: id_config_same)
    have one: "query u (get_primary_group U p u fail) v (plan_primary enforce fail u ?e ?G p)"
      using query_primary [OF sameD(1) [OF v] cv, of u p] by (simp add: sameD [OF v])
    have two: "query u (get_supplementary_groups U gs g u) x (plan_groups enforce fail u ?e ?G gs g)"
      if x: "same u v x" for x g
      using query_groups [OF sameD(1) [OF x], of eu eg enforce fail u gs g] cv
      by (simp add: sameD [OF v] sameD [OF x])
    show ?thesis
      by (rule query_bnd [OF one], rule query_bnd, erule two) (simp add: query_ret sameD(1))
  qed
  show ?thesis
    unfolding decide_def plan_identity_def Cons list.case
  proof (rule query_bnd_Inr [OF query_cfg [OF w]])
    show "config w ''tsi.fail_on_invalid_gids'' = Some (CBool fail)" using cfg by (simp add: id_config_def)
    fix v assume v: "same u w v"
    have uid: "uid_of (entry v u) = uid_of ?e" by (simp add: sameD [OF v])
    show "query u (bnd (of_opt IndexError (Some p)) (\<lambda>primary. bnd (op_uid U u) (\<lambda>new_uid.
       if new_uid = -1 then throw (RuntimeError (''Attempted to run a task for an unknown user '' @ u))
       else if new_uid = 0 then throw (RuntimeError (''Attempted to run a command as root '' @ u))
       else if primary = ''NONE'' then
         bnd (op_gid U u) (\<lambda>new_gid. bnd (op_gids U u) (\<lambda>new_gids. ret (new_uid, new_gid, new_gids)))
       else
         bnd (get_primary_group U primary u (truthy (CBool fail))) (\<lambda>new_gid.
         bnd (get_supplementary_groups U (p # ps) new_gid u) (\<lambda>new_gids. ret (new_uid, new_gid, new_gids)))))) v
      (if uid_of ?e = -1 then Inl (RuntimeError (''Attempted to run a task for an unknown user '' @ u))
       else if uid_of ?e = 0 then Inl (RuntimeError (''Attempted to run a command as root '' @ u))
       else if p = ''NONE'' then Inr (uid_of ?e, gid_of ?e, gids_of ?e)
       else sbind (plan_primary enforce fail u ?e ?G p) (\<lambda>gid.
         sbind (plan_groups enforce fail u ?e ?G (p # ps) gid) (\<lambda>l. Inr (uid_of ?e, gid, l))))"
      unfolding of_opt_def option.case bnd_ret_left truthy.simps
      by (rule query_bnd_Inr [OF query_uid [OF sameD(1) [OF v]]], unfold uid Cons [symmetric])
        (intro query_if query_throw none some; (rule sameD(1), assumption | rule same_trans [OF v], assumption))
  qed
qed

lemma become_user_plan:
  assumes "inv w" and cfg: "id_config (config w) eu eg enforce fail"
  obtains v where "same u w v" and "become_user U u gs w =
    (case plan_identity enforce fail u (entry w u) (gentry w) gs of
       Inl e \<Rightarrow> (Exc e, v)
     | Inr (uid, gid, l) \<Rightarrow> change_identity U u (Some (CInt eu)) uid gid l v)"
proof -
  obtain v where "decide u gs w = (outcome_of (plan_identity enforce fail u (entry w u) (gentry w) gs), v)"
      "same u w v"
    using query_decide [OF assms] by (auto simp: query_def)
  then show ?thesis
    by (intro that [of v])
      (auto simp: become_user_decide [OF cfg] run_simps split: sum.split)
qed

lemma change_identity_run:
  assumes v: "inv v" and e: "entry v u = Some e" and priv: "privileged (cred v)"
    and ids: "ids_ok uid gid l" and eu: "0 \<le> eu"
  shows "change_identity U u (Some (CInt eu)) uid gid l v = (Ret True,
    (let v' = touch u (v\<lparr>cred := taken_on (cred v) eu uid gid l\<rparr>)
     in v'\<lparr>environ := (environ v')(''HOME'' \<mapsto> e_home e, ''USER'' \<mapsto> u, ''LOGNAME'' \<mapsto> u)\<rparr>))"
proof -
  have home: "op_home U u (v\<lparr>cred := c\<rparr>) = (Ret (Some (e_home e)), touch u (v\<lparr>cred := c\<rparr>))" for c
    using home_run [OF inv_cred [OF v, of c], of u] by (simp add: entry_cred e)
  have "\<not> ngroups_max < length l" "\<not> (\<exists>g \<in> set l. g < 0)" "0 \<le> gid" "0 < uid"
    using ids by (auto simp: ids_ok_def)
  with priv eu show ?thesis
    by (cases "setid_caps (cred v)") (simp_all add: home change_identity_def run_simps os_call_def k_setgid_def k_setgroups_def k_setegid_def
        k_setresuid_def as_int_def privileged_def set_environ_def taken_on_def Let_def)
qed

text \<open>Whatever the kernel does: when the code reports success it has checked the new identity.\<close>

lemma change_identity_checked:
  assumes v: "inv v" and r: "change_identity U u eu uid gid l v = (Ret b, w')"
  shows "ruid (cred w') = uid \<and> euid (cred w') = uid \<and> rgid (cred w') = gid \<and> egid (cred w') = gid \<and>
    set (groups (cred w')) = set l"
proof -
  have home: "op_home U u (v\<lparr>cred := c\<rparr>) = (Ret (map_option e_home (entry v u)), touch u (v\<lparr>cred := c\<rparr>))" for c
    using home_run [OF inv_cred [OF v, of c], of u] by (simp add: entry_cred)
  show ?thesis
    using r unfolding change_identity_def returns os_call_Ret set_environ_Ret as_int_Ret
    by (elim exE conjE)
      (simp add: home touch_frame returns set_environ_Ret split: if_splits, force simp: touch_frame)
qed

lemma become_user_granted:
  assumes w: "inv w" and cfg: "id_config (config w) eu eg enforce fail"
    and plan: "plan_identity enforce fail u (entry w u) (gentry w) gs = Inr (uid, gid, l)"
    and priv: "privileged (cred w)" and ids: "ids_ok uid gid l" and eu: "0 \<le> eu"
  obtains w' where "become_user U u gs w = (Ret True, w')" and "cred w' = taken_on (cred w) eu uid gid l"
    and "config w' = config w"
    and "environ w' = (environ w)(''HOME'' \<mapsto> e_home (the (entry w u)), ''USER'' \<mapsto> u, ''LOGNAME'' \<mapsto> u)"
proof -
  obtain v where v: "same u w v" and b0: "become_user U u gs w =
      (case plan_identity enforce fail u (entry w u) (gentry w) gs of
         Inl e \<Rightarrow> (Exc e, v)
       | Inr (uid, gid, l) \<Rightarrow> change_identity U u (Some (CInt eu)) uid gid l v)"
    by (rule become_user_plan [OF w cfg])
  have b: "become_user U u gs w = change_identity U u (Some (CInt eu)) uid gid l v"
    unfolding b0 plan by simp
  have "uid_of (entry w u) \<noteq> -1"
    using plan by (auto simp: plan_identity_def split: list.splits if_splits)
  then obtain e where ew: "entry w u = Some e" by (auto simp: uid_of_def split: option.splits)
  then have e: "entry v u = Some e" by (simp add: sameD [OF v])
  have p: "privileged (cred v)" using priv by (simp add: sameD [OF v])
  show ?thesis
    by (rule that, simp only: b change_identity_run [OF sameD(1) [OF v] e p ids eu])
      (simp_all add: Let_def touch_frame sameD [OF v] ew)
qed

lemma become_user_refused:
  assumes "inv w" and "id_config (config w) eu eg enforce fail"
    and "plan_identity enforce fail u (entry w u) (gentry w) gs = Inl e"
  obtains w' where "become_user U u gs w = (Exc e, w')" and "cred w' = cred w" and "config w' = config w"
    and "environ w' = environ w"
proof (rule become_user_plan [OF assms(1,2), of u gs])
  fix v assume v: "same u w v" and "become_user U u gs w =
    (case plan_identity enforce fail u (entry w u) (gentry w) gs of
       Inl e \<Rightarrow> (Exc e, v)
     | Inr (uid, gid, l) \<Rightarrow> change_identity U u (Some (CInt eu)) uid gid l v)"
  then have "become_user U u gs w = (Exc e, v)" unfolding assms(3) by simp
  then show thesis by (rule that) (simp_all add: sameD [OF v])
qed

lemma become_user_checked:
  assumes w: "inv w" and cfg: "id_config (config w) eu eg enforce fail"
    and ret: "become_user U u gs w = (Ret b, w')"
  obtains uid gid l where "plan_identity enforce fail u (entry w u) (gentry w) gs = Inr (uid, gid, l)"
    and "ruid (cred w') = uid" "euid (cred w') = uid" "rgid (cred w') = gid" "egid (cred w') = gid"
    and "set (groups (cred w')) = set l"
proof -
  obtain v where v: "same u w v" and b: "become_user U u gs w =
      (case plan_identity enforce fail u (entry w u) (gentry w) gs of
         Inl e \<Rightarrow> (Exc e, v)
       | Inr (uid, gid, l) \<Rightarrow> change_identity U u (Some (CInt eu)) uid gid l v)"
    by (rule become_user_plan [OF w cfg])
  from b ret obtain uid gid l where p: "plan_identity enforce fail u (entry w u) (gentry w) gs = Inr (uid, gid, l)"
      and c: "change_identity U u (Some (CInt eu)) uid gid l v = (Ret b, w')"
    by (auto split: sum.splits)
  from change_identity_checked [OF sameD(1) [OF v] c] p show ?thesis by (intro that) auto
qed

end

section \<open>Security of the specification\<close>

definition own_groups :: "user_entry option \<Rightarrow> int set" where
  "own_groups e = insert (gid_of e) (set (gids_of e))"

lemma plan_member_own: "plan_member True e g \<longleftrightarrow> g \<in> own_groups e"
  by (auto simp: plan_member_def own_groups_def)

lemma keys_fold_dict_set: "fst ` set (fold (\<lambda>x. dict_set x v) xs d) = set xs \<union> fst ` set d"
  by (induction xs arbitrary: d) auto

lemma plan_primary_own:
  "plan_primary True fail u e G p = Inr g \<Longrightarrow> g \<in> own_groups e"
  by (auto simp: plan_primary_def plan_member_own own_groups_def sbind_def split: if_splits)

lemma plan_supplementary_own:
  "plan_supplementary True True u e G a d gs = Inr d' \<Longrightarrow> fst ` set d \<subseteq> own_groups e
    \<Longrightarrow> fst ` set d' \<subseteq> own_groups e"
proof (induction gs arbitrary: a d)
  case Nil
  then show ?case by simp
next
  case (Cons g gs)
  have "set (gids_of e) \<subseteq> own_groups e" by (auto simp: own_groups_def)
  with Cons show ?case
    by (simp add: keys_fold_dict_set plan_member_own split: if_splits)
qed

lemma plan_groups_own:
  assumes "plan_groups True True u e G gs p = Inr l" and "p \<in> own_groups e"
  shows "set l \<subseteq> own_groups e"
proof -
  obtain d where d: "plan_supplementary True True u e G False [(p, True)] gs = Inr d"
      and l: "l = map fst (filter snd d)"
    using assms by (auto simp: plan_groups_def sbind_def split: sum.splits)
  from plan_supplementary_own [OF d] assms(2) have "fst ` set d \<subseteq> own_groups e" by simp
  with l show ?thesis by auto
qed

lemma plan_identity_own:
  assumes "plan_identity True True u e G gs = Inr (uid, gid, l)"
  shows "gid \<in> own_groups e \<and> set l \<subseteq> own_groups e"
proof -
  obtain p ps where gs: "gs = p # ps"
    using assms by (cases gs) (simp_all add: plan_identity_def)
  show ?thesis
  proof (cases "p = ''NONE''")
    case True
    with assms gs show ?thesis
      by (auto simp: plan_identity_def own_groups_def split: if_splits)
  next
    case False
    with assms gs have g: "plan_primary True True u e G p = Inr gid" and "plan_groups True True u e G gs gid = Inr l"
      by (auto simp: plan_identity_def sbind_def split: if_splits sum.splits)
    with plan_primary_own [OF g] show ?thesis by (blast dest: plan_groups_own)
  qed
qed

lemma plan_identity_uid:
  "plan_identity enforce fail u e G gs = Inr (uid, gid, l) \<Longrightarrow> uid = uid_of e \<and> uid \<noteq> 0 \<and> uid \<noteq> -1"
  by (auto simp: plan_identity_def sbind_def split: list.splits if_splits sum.splits)

definition all_true :: "('k, bool) dict \<Rightarrow> bool" where
  "all_true d \<longleftrightarrow> (\<forall>p \<in> set d. snd p)"

lemma all_true_set: "all_true d \<Longrightarrow> all_true (dict_set k True d)"
  by (induction k True d rule: dict_set.induct) (auto simp: all_true_def)

lemma all_true_fold: "all_true d \<Longrightarrow> all_true (fold (\<lambda>x. dict_set x True) xs d)"
  by (induction xs arbitrary: d) (auto simp: all_true_set)

lemma plan_supplementary_mono:
  "plan_supplementary enforce fail u e G a d gs = Inr d' \<Longrightarrow> all_true d
    \<Longrightarrow> all_true d' \<and> fst ` set d \<subseteq> fst ` set d'"
proof (induction gs arbitrary: a d)
  case Nil
  then show ?case by simp
next
  case (Cons g gs)
  have "\<exists>a d1. plan_supplementary enforce fail u e G a d1 gs = Inr d' \<and> all_true d1 \<and> fst ` set d \<subseteq> fst ` set d1"
    using Cons.prems
    by (auto simp: split: if_splits intro: all_true_set all_true_fold)
      (metis all_true_fold all_true_set keys_dict_set keys_fold_dict_set subset_insertI sup.cobounded2 subset_refl)+
  with Cons.IH show ?case by (meson order_trans)
qed

lemma plan_supplementary_adds:
  assumes "plan_supplementary enforce fail u e G a d gs = Inr d'" and "all_true d"
    and "g \<in> set gs" and "g \<noteq> ''DEFAULT_GID''" and "G g = Some n" and "n \<noteq> -1"
  shows "n \<in> fst ` set d'"
  using assms
proof (induction gs arbitrary: a d)
  case Nil
  then show ?case by simp
next
  case (Cons h gs)
  show ?case
  proof (cases "h = g")
    case True
    with Cons.prems have "plan_supplementary enforce fail u e G a (dict_set n True d) gs = Inr d'"
      by (simp add: group_no_def split: if_splits)
    from plan_supplementary_mono [OF this] Cons.prems show ?thesis by (simp add: all_true_set)
  next
    case False
    with Cons.prems have "g \<in> set gs" by simp
    with Cons.prems Cons.IH show ?thesis
      by (auto simp: all_true_set all_true_fold split: if_splits)
  qed
qed

lemma plan_identity_adds:
  assumes "plan_identity enforce fail u e G gs = Inr (uid, gid, l)" and "hd gs \<noteq> ''NONE''"
    and "g \<in> set gs" and "g \<noteq> ''DEFAULT_GID''" and "G g = Some n" and "n \<noteq> -1"
  shows "n \<in> set l"
proof -
  obtain p ps where gs: "gs = p # ps"
    using assms by (cases gs) (simp_all add: plan_identity_def)
  with assms obtain d where d: "plan_supplementary enforce fail u e G False [(gid, True)] gs = Inr d"
      and l: "l = map fst (filter snd d)"
    by (auto simp: plan_identity_def plan_groups_def sbind_def split: if_splits sum.splits)
  have "all_true [(gid, True)]" by (simp add: all_true_def)
  with d assms plan_supplementary_mono [OF d] plan_supplementary_adds [OF d]
  have "n \<in> fst ` set d" "all_true d" by simp_all
  with l show ?thesis by (auto simp: all_true_def)
qed

section \<open>Giving the identity back\<close>

definition own_identity :: "int \<Rightarrow> int \<Rightarrow> cred \<Rightarrow> cred" where
  "own_identity eu eg c = c\<lparr>ruid := eu, euid := eu, suid := eu, rgid := eg, egid := eg, sgid := eg, groups := [eg]\<rparr>"

definition harmless_env :: "(string \<Rightarrow> string option) \<Rightarrow> string \<Rightarrow> string option" where
  "harmless_env e = e(''HOME'' \<mapsto> ''/tmp'', ''USER'' \<mapsto> ''nobody'', ''LOGNAME'' \<mapsto> ''nobody'')"

lemma restore_id_run:
  assumes cfg: "id_config (config w) eu eg enforce fail" and ids: "0 \<le> eu" "0 \<le> eg"
    and saved: "suid (cred w) = eu" and caps: "eu = 0 \<or> setid_caps (cred w)"
  shows "restore_id w = (Ret (), w\<lparr>cred := own_identity eu eg (cred w), environ := harmless_env (environ w)\<rparr>)"
proof -
  have c: "config w ''tsi.switch_uid'' = Some (CBool True)" "config w ''tsi.effective_uid'' = Some (CInt eu)"
      "config w ''tsi.effective_gid'' = Some (CInt eg)"
    using cfg by (simp_all add: id_config_def)
  have "k_setresuid eu eu eu (cred w) = Inr ((cred w)\<lparr>ruid := eu, euid := eu, suid := eu\<rparr>)"
    using ids saved by (simp add: k_setresuid_def)
  moreover have "privileged ((cred w)\<lparr>ruid := eu, euid := eu, suid := eu\<rparr>)"
    using caps by (simp add: privileged_def)
  ultimately show ?thesis using ids
    by (simp add: restore_id_def run_simps c os_call_def k_setgid_def k_setgroups_def k_setegid_def
        as_int_def set_environ_def own_identity_def harmless_env_def ngroups_max_def privileged_def)
qed

lemma privileged_caps: "privileged c \<Longrightarrow> euid c = eu \<Longrightarrow> eu = 0 \<or> setid_caps c"
  by (simp add: privileged_def)

section \<open>Properties\<close>

lemma sample_id_config: "id_config (config (sample_world f)) 0 0 True f"
  by (simp add: id_config_def sample_config_def)

text \<open>
  C6: Switching the identity does what the specification \<open>plan_identity\<close> says. When the request is
  granted and the process may change its ids, \<open>become_user\<close> returns True, the real and effective user
  and group ids and the supplementary groups are exactly the planned ones, only the saved user id is
  the TSI's own, and HOME, USER and LOGNAME are the user's.
\<close>

theorem become_user_takes_identity:
  assumes "cache_inv S w" and "id_config (config w) eu eg enforce fail"
    and "plan_identity enforce fail u (user_answer S w u) (group_answer S w) gs = Inr (uid, gid, l)"
    and "privileged (cred w)" and "ids_ok uid gid l" and "0 \<le> eu"
  shows "fst (become_user (cache_ops S) u gs w) = Ret True \<and>
    cred (snd (become_user (cache_ops S) u gs w)) = taken_on (cred w) eu uid gid l \<and>
    environ (snd (become_user (cache_ops S) u gs w)) =
      (environ w)(''HOME'' \<mapsto> e_home (the (user_answer S w u)), ''USER'' \<mapsto> u, ''LOGNAME'' \<mapsto> u)"
  using cache.become_user_granted [OF assms] by (metis fst_conv snd_conv)

lemma sample_plan:
  "plan_identity True f ''alice'' (user_answer sample_sys (sample_world f) ''alice'')
     (group_answer sample_sys (sample_world f)) [''hpc'', ''DEFAULT_GID''] = Inr (1000, 200, [200, 100])"
  by (simp add: sample_alice sample_groups)
    (simp add: plan_identity_def plan_primary_def plan_groups_def plan_member_def uid_of_def gid_of_def
      gids_of_def group_no_def sample_sys_def)

theorem become_user_takes_identity_witness:
  "fst (become_user (cache_ops sample_sys) ''alice'' [''hpc'', ''DEFAULT_GID''] (sample_world True)) = Ret True \<and>
   cred (snd (become_user (cache_ops sample_sys) ''alice'' [''hpc'', ''DEFAULT_GID''] (sample_world True))) =
     \<lparr>ruid = 1000, euid = 1000, suid = 0, rgid = 200, egid = 200, sgid = 200, groups = [200, 100], setid_caps = False\<rparr> \<and>
   environ (snd (become_user (cache_ops sample_sys) ''alice'' [''hpc'', ''DEFAULT_GID''] (sample_world True))) ''HOME''
     = Some ''/home/alice''"
proof -
  have "privileged (cred (sample_world True))" "ids_ok 1000 200 [200, 100]"
    by (simp_all add: privileged_def root_cred_def ids_ok_def ngroups_max_def)
  from become_user_takes_identity [OF sample_inv sample_id_config sample_plan this] show ?thesis
    by (simp add: sample_alice taken_on_def root_cred_def)
qed

text \<open>
  C22: A request the specification refuses (unknown user, root, unknown or foreign group when these are
  configured to fail) raises exactly the error of the specification, and the process keeps its own
  credentials and environment.
\<close>

theorem become_user_denied:
  assumes "cache_inv S w" and "id_config (config w) eu eg enforce fail"
    and "plan_identity enforce fail u (user_answer S w u) (group_answer S w) gs = Inl e"
  shows "fst (become_user (cache_ops S) u gs w) = Exc e \<and>
    cred (snd (become_user (cache_ops S) u gs w)) = cred w \<and>
    environ (snd (become_user (cache_ops S) u gs w)) = environ w"
  using cache.become_user_refused [OF assms] by (metis fst_conv snd_conv)

theorem become_user_denied_witness:
  "fst (become_user (cache_ops sample_sys) ''alice'' [''secret''] (sample_world True)) =
     Exc (RuntimeError ''The user alice is not a member of the group secret'') \<and>
   cred (snd (become_user (cache_ops sample_sys) ''alice'' [''secret''] (sample_world True))) = root_cred"
proof -
  have "plan_identity True True ''alice'' (user_answer sample_sys (sample_world True) ''alice'')
      (group_answer sample_sys (sample_world True)) [''secret''] =
      Inl (RuntimeError ''The user alice is not a member of the group secret'')"
    by (simp add: sample_alice sample_groups)
      (simp add: plan_identity_def plan_primary_def plan_groups_def plan_member_def uid_of_def gid_of_def
        gids_of_def group_no_def sample_sys_def)
  from become_user_denied [OF sample_inv sample_id_config this] show ?thesis by simp
qed

text \<open>
  C7: Whatever the kernel answers to the system calls, a TSI that switches users and reports success
  runs with the real and effective ids of the requested user, and that user is known and is not root.
\<close>

theorem become_user_never_root:
  assumes "cache_inv S w" and "id_config (config w) eu eg enforce fail"
    and "become_user (cache_ops S) u gs w = (Ret b, w')"
  shows "ruid (cred w') = uid_of (user_answer S w u) \<and> euid (cred w') = uid_of (user_answer S w u) \<and>
    ruid (cred w') \<noteq> 0 \<and> euid (cred w') \<noteq> 0 \<and> user_answer S w u \<noteq> None"
proof (rule cache.become_user_checked [OF assms])
  fix uid gid l
  assume p: "plan_identity enforce fail u (user_answer S w u) (group_answer S w) gs = Inr (uid, gid, l)"
    and "ruid (cred w') = uid" "euid (cred w') = uid"
  with plan_identity_uid [OF p] show ?thesis
    by (cases "user_answer S w u") (auto simp: uid_of_def)
qed

lemma sample_become:
  obtains w' where "become_user (cache_ops sample_sys) ''alice'' [''hpc'', ''DEFAULT_GID''] (sample_world f) = (Ret True, w')"
    and "cred w' = taken_on root_cred 0 1000 200 [200, 100]" and "config w' = sample_config f"
proof -
  have "privileged (cred (sample_world f))" "ids_ok 1000 200 [200, 100]"
    by (simp_all add: privileged_def root_cred_def ids_ok_def ngroups_max_def)
  from cache.become_user_granted [OF sample_inv sample_id_config sample_plan this] that
  show thesis by auto
qed

theorem become_user_never_root_witness:
  "\<exists>w'. become_user (cache_ops sample_sys) ''alice'' [''hpc'', ''DEFAULT_GID''] (sample_world True) = (Ret True, w')
     \<and> euid (cred w') = 1000"
proof (rule sample_become [of True])
  fix w' assume r: "become_user (cache_ops sample_sys) ''alice'' [''hpc'', ''DEFAULT_GID''] (sample_world True) = (Ret True, w')"
  from become_user_never_root [OF sample_inv sample_id_config r] r show ?thesis
    by (simp add: sample_alice uid_of_def)
qed

text \<open>
  C21: With \<open>tsi.enforce_os_gids\<close> and \<open>tsi.fail_on_invalid_gids\<close> both set, a worker never runs with a
  primary or supplementary group the operating system does not grant to the user.
\<close>

theorem become_user_groups_sanctioned:
  assumes "cache_inv S w" and "id_config (config w) eu eg True True"
    and "become_user (cache_ops S) u gs w = (Ret b, w')"
  shows "rgid (cred w') \<in> own_groups (user_answer S w u) \<and> egid (cred w') \<in> own_groups (user_answer S w u) \<and>
    set (groups (cred w')) \<subseteq> own_groups (user_answer S w u)"
proof (rule cache.become_user_checked [OF assms])
  fix uid gid l
  assume p: "plan_identity True True u (user_answer S w u) (group_answer S w) gs = Inr (uid, gid, l)"
    and "rgid (cred w') = gid" "egid (cred w') = gid" "set (groups (cred w')) = set l"
  with plan_identity_own [OF p] show ?thesis by simp
qed

theorem become_user_groups_sanctioned_witness:
  "\<exists>w'. become_user (cache_ops sample_sys) ''alice'' [''hpc'', ''DEFAULT_GID''] (sample_world True) = (Ret True, w')
     \<and> set (groups (cred w')) \<subseteq> {100, 200}"
proof (rule sample_become [of True])
  fix w' assume r: "become_user (cache_ops sample_sys) ''alice'' [''hpc'', ''DEFAULT_GID''] (sample_world True) = (Ret True, w')"
  have "own_groups (user_answer sample_sys (sample_world True) ''alice'') = {100, 200}"
    by (auto simp: sample_alice own_groups_def gid_of_def gids_of_def)
  with become_user_groups_sanctioned [OF sample_inv sample_id_config r] r show ?thesis by auto
qed

text \<open>
  C31: Without \<open>tsi.fail_on_invalid_gids\<close> (the default) a requested supplementary group that exists is
  always granted, whether or not the user is a member of it: the branch that logs "skipping it" does
  not skip.
\<close>

theorem become_user_grants_every_group:
  assumes "cache_inv S w" and "id_config (config w) eu eg enforce False"
    and "become_user (cache_ops S) u gs w = (Ret b, w')"
    and "hd gs \<noteq> ''NONE''" and "g \<in> set gs" and "g \<noteq> ''DEFAULT_GID''"
    and "group_answer S w g = Some n" and "n \<noteq> -1"
  shows "n \<in> set (groups (cred w'))"
proof (rule cache.become_user_checked [OF assms(1-3)])
  fix uid gid l
  assume p: "plan_identity enforce False u (user_answer S w u) (group_answer S w) gs = Inr (uid, gid, l)"
    and "set (groups (cred w')) = set l"
  with plan_identity_adds [OF p assms(4-8)] show ?thesis by simp
qed

theorem become_user_grants_every_group_witness:
  "\<exists>w'. become_user (cache_ops sample_sys) ''alice'' [''users'', ''secret''] (sample_world False) = (Ret True, w')
     \<and> 300 \<in> set (groups (cred w')) \<and> 300 \<notin> own_groups (user_answer sample_sys (sample_world False) ''alice'')"
proof -
  have plan: "plan_identity True False ''alice'' (user_answer sample_sys (sample_world False) ''alice'')
      (group_answer sample_sys (sample_world False)) [''users'', ''secret''] = Inr (1000, 100, [100, 300])"
    by (simp add: sample_alice sample_groups)
      (simp add: plan_identity_def plan_primary_def plan_groups_def plan_member_def uid_of_def gid_of_def
        gids_of_def group_no_def sample_sys_def)
  have "privileged (cred (sample_world False))" "ids_ok 1000 100 [100, 300]"
    by (simp_all add: privileged_def root_cred_def ids_ok_def ngroups_max_def)
  then obtain w' where r: "become_user (cache_ops sample_sys) ''alice'' [''users'', ''secret''] (sample_world False) = (Ret True, w')"
    using cache.become_user_granted [OF sample_inv sample_id_config plan] by auto
  have "group_answer sample_sys (sample_world False) ''secret'' = Some 300"
    by (simp add: sample_groups) (simp add: sample_sys_def)
  from become_user_grants_every_group [OF sample_inv sample_id_config r, of "''secret''" 300] this r
  show ?thesis by (simp add: sample_alice own_groups_def gid_of_def gids_of_def)
qed

text \<open>
  C17: \<open>restore_id\<close> undoes \<open>become_user\<close>: after any work that leaves the credentials alone, all user and
  group ids are the TSI's own again, the supplementary groups are its own group only, and the
  environment names no user.
\<close>

theorem restore_id_undoes_become_user:
  assumes "cache_inv S w" and "id_config (config w) eu eg enforce fail"
    and "plan_identity enforce fail u (user_answer S w u) (group_answer S w) gs = Inr (uid, gid, l)"
    and "privileged (cred w)" and "euid (cred w) = eu" and "ids_ok uid gid l" and "0 \<le> eu" and "0 \<le> eg"
    and "frame cred work" and "frame config work"
    and "work (snd (become_user (cache_ops S) u gs w)) = (Ret x, w')"
  shows "restore_id w' = (Ret (), w'\<lparr>cred := own_identity eu eg (cred w), environ := harmless_env (environ w')\<rparr>)"
proof (rule cache.become_user_granted [OF assms(1-4,6,7)])
  fix v
  assume v: "become_user (cache_ops S) u gs w = (Ret True, v)"
    "cred v = taken_on (cred w) eu uid gid l" "config v = config w"
  then have "work v = (Ret x, w')" using assms(11) by simp
  then have w': "cred w' = taken_on (cred w) eu uid gid l" "config w' = config w"
    using frame_run [OF assms(9)] frame_run [OF assms(10)] v by simp_all
  have "eu = 0 \<or> setid_caps (cred w')" using privileged_caps assms(4,5) w' by (simp add: taken_on_def)
  with assms w' have "restore_id w' = (Ret (), w'\<lparr>cred := own_identity eu eg (cred w'), environ := harmless_env (environ w')\<rparr>)"
    by (intro restore_id_run) (simp_all add: taken_on_def)
  then show ?thesis using w' by (simp add: own_identity_def taken_on_def)
qed

theorem restore_id_undoes_become_user_witness:
  "\<exists>w'. snd (become_user (cache_ops sample_sys) ''alice'' [''hpc'', ''DEFAULT_GID''] (sample_world True)) = w' \<and>
     cred (snd (restore_id w')) = root_cred"
proof (rule sample_become [of True])
  fix w' assume r: "become_user (cache_ops sample_sys) ''alice'' [''hpc'', ''DEFAULT_GID''] (sample_world True) = (Ret True, w')"
  have "privileged (cred (sample_world True))" "euid (cred (sample_world True)) = 0" "ids_ok 1000 200 [200, 100]"
    by (simp_all add: privileged_def root_cred_def ids_ok_def ngroups_max_def)
  note s = restore_id_undoes_become_user [OF sample_inv sample_id_config sample_plan this, of "ret ()" "()" w']
  from s r show ?thesis by (simp add: frame_ret ret_run own_identity_def root_cred_def)
qed

end
