(* ===== verification/Confinement.thy ===== *)
theory Confinement
  imports Handlers BecomeUser
begin

text \<open>
  What a handler can do to the process. The relation \<open>stays\<close> says that credentials and configuration
  are untouched, that every command started in between was started with the current credentials, that
  nothing came back onto the control channel and it was only written at its end, and that the user cache stays sound.
  It is proved for every entry of the table of commands, by the rules for the control structures and a
  lemma for each primitive. A second relation says that switching the user starts no command but
  \<open>id -G\<close> for that user.
\<close>

section \<open>The relation\<close>

definition ran_as :: "cred \<Rightarrow> world \<Rightarrow> world \<Rightarrow> bool" where
  "ran_as c w w' \<longleftrightarrow> (\<exists>evs. trace w' = trace w @ evs \<and> (\<forall>e \<in> set evs. ev_cred e = c))"

definition wrote :: "world \<Rightarrow> world \<Rightarrow> bool" where
  "wrote w w' \<longleftrightarrow> (\<exists>out. ctl_out w' = ctl_out w @ out)"

definition stays :: "sys \<Rightarrow> world \<Rightarrow> world \<Rightarrow> bool" where
  "stays S w w' \<longleftrightarrow> cred w' = cred w \<and> config w' = config w \<and> length (ctl_in w') \<le> length (ctl_in w) \<and> pam_calls w' = pam_calls w \<and> dials w' = dials w \<and>
     now w' = now w \<and> ran_as (cred w) w w' \<and> wrote w w' \<and> (cache_inv S w \<longrightarrow> cache_inv S w')"

lemma ran_as_refl [simp]: "ran_as c w w"
  by (simp add: ran_as_def)

lemma ran_as_trans: "ran_as c w v \<Longrightarrow> ran_as c v x \<Longrightarrow> ran_as c w x"
  unfolding ran_as_def by (rule grows_trans)

lemma wrote_refl [simp]: "wrote w w"
  by (simp add: wrote_def)

lemma wrote_trans: "wrote w v \<Longrightarrow> wrote v x \<Longrightarrow> wrote w x"
  unfolding wrote_def by (metis append_assoc)

interpretation stays: step_relation "stays S" for S
proof unfold_locales
  show "stays S w w" for w by (simp add: stays_def)
  show "stays S w v \<Longrightarrow> stays S v x \<Longrightarrow> stays S w x" for w v x
    using ran_as_trans [of "cred w" w v x] wrote_trans [of w v x] by (auto simp: stays_def)
qed

abbreviation confined :: "sys \<Rightarrow> 'a tsi \<Rightarrow> bool" where
  "confined S m \<equiv> within (stays S) m"

named_theorems confinement \<open>programs that are confined\<close>

section \<open>Primitives\<close>

lemma stays_upd [simp]:
  "stays S w (w\<lparr>files := x\<rparr>)" "stays S w (w\<lparr>cwd := y\<rparr>)" "stays S w (w\<lparr>environ := e\<rparr>)"
  "stays S w (w\<lparr>child_pids := p\<rparr>)" "stays S w (w\<lparr>dat_in := d\<rparr>)" "stays S w (w\<lparr>dat_out := d\<rparr>)"
  "stays S w (w\<lparr>ctl_out := ctl_out w @ out\<rparr>)"
  by (simp_all add: stays_def ran_as_def wrote_def cache_inv_def)

lemma stays_self [simp]: "stays S w w"
  by (rule stays.R_refl)

lemma confined_write_message [confinement]: "confined S (write_message m)"
  by (cases m) (simp_all add: within_def write_message_def run_simps)

lemma confined_failed [confinement]: "confined S (failed m)"
  unfolding failed_def by (intro confinement stays.within_rules)

lemma confined_ok [confinement]: "confined S (ok m)"
  unfolding ok_def by (intro confinement stays.within_rules)

lemma confined_write_data [confinement]: "confined S (write_data d)"
  by (simp add: within_def write_data_def run_simps)

lemma confined_read_data [confinement]: "confined S (read_data n)"
  by (simp add: within_def read_data_def Let_def)

lemma confined_log_event [confinement]: "confined S (log_event a b)"
  by (auto simp: within_def log_event_def run_simps stays_def ran_as_def wrote_def cache_inv_def)

lemma confined_diverge [confinement]: "confined S diverge"
  by (simp add: within_def diverge_def)

lemma confined_child [confinement]: "confined S (modify (\<lambda>w. w\<lparr>child_pids := f w\<rparr>))"
  by (simp add: within_def run_simps)

lemma confined_environ [confinement]: "confined S (modify (\<lambda>w. w\<lparr>environ := f w\<rparr>))"
  by (simp add: within_def run_simps)

lemma confined_files [confinement]: "confined S (modify (\<lambda>w. w\<lparr>files := f w\<rparr>))"
  by (simp add: within_def run_simps)

lemma confined_file_ops [confinement]:
  "confined S (os_chdir p)" "confined S (os_chmod p n)" "confined S (open_read T p)" "confined S (open_write T p k)"
  "confined S (file_write T p d)" "confined S (os_mkdir T p)" "confined S (os_listdir T p)"
  by (simp_all add: within_def os_chdir_def os_chmod_def open_read_def open_write_def file_write_def os_mkdir_def
      os_listdir_def Let_def split: option.split fnode.split)

lemma confined_cfg [confinement]: "confined S (cfg_sub k)" "confined S (cfg_get k d)" "confined S (cfg_str k)"
  by (simp_all add: within_def run_simps split: option.split sum.split)

lemma confined_exec_case [confinement]: "(\<And>a b. confined S (f a b)) \<Longrightarrow> confined S (case r of Finished a b \<Rightarrow> f a b)"
  by (cases r) simp

lemma confined_run_command [confinement]: "confined S (run_command T c d t l)"
  unfolding run_command_def by (intro confinement stays.within_rules)

lemma confined_run_and_report [confinement]: "confined S (run_and_report T c l)"
  unfolding run_and_report_def by (intro confinement stays.within_rules)

section \<open>Lookups in the user cache\<close>

definition id_argv :: "string \<Rightarrow> string list" where
  "id_argv u = bash_argv (''id -G '' @ u) False"

definition same_io :: "world \<Rightarrow> world \<Rightarrow> bool" where
  "same_io w w' \<longleftrightarrow> config w' = config w \<and> ctl_in w' = ctl_in w \<and> ctl_out w' = ctl_out w \<and> pam_calls w' = pam_calls w \<and> dials w' = dials w \<and>
     now w' = now w \<and> files w' = files w \<and> cwd w' = cwd w \<and> child_pids w' = child_pids w"

definition asked :: "string \<Rightarrow> world \<Rightarrow> world \<Rightarrow> bool" where
  "asked u w w' \<longleftrightarrow> cred w' = cred w \<and> same_io w w' \<and>
     (\<exists>evs. trace w' = trace w @ evs \<and> (\<forall>e \<in> set evs. ev_argv e = id_argv u \<and> ev_cred e = cred w))"

interpretation asked: step_relation "asked u" for u
proof unfold_locales
  show "asked u w w" for w by (simp add: asked_def same_io_def)
  show "asked u w v \<Longrightarrow> asked u v x \<Longrightarrow> asked u w x" for w v x
    unfolding asked_def using grows_trans [of "trace v" "trace w" "\<lambda>e. ev_argv e = id_argv u \<and> ev_cred e = cred w" "trace x"]
    by (auto simp: same_io_def)
qed

lemma asked_upd_cache: "within (asked u) (upd_cache f)"
  by (simp add: within_def upd_cache_def run_simps asked_def same_io_def)

lemma asked_id: "within (asked u) (run_command S (''id -G '' @ u) False False False)"
  by (rule withinI) (simp add: run_command_def Let_def run_simps log_event_def asked_def same_io_def id_argv_def
      split: exec_result.split)

lemma asked_expired: "within (asked u) (expired t)"
  unfolding expired_def by (auto intro!: asked.within_rules split: cval.split option.split)

lemmas asked_rules = asked.within_rules asked_upd_cache asked_id asked_expired

lemma asked_prepare:
  "within (asked u) (prepare_users S u)" "within (asked u) (prepare_groups S g)"
  unfolding prepare_users_def update_user_info_def get_gids_4user_nc_def get_gids_4user_via_id_def
    get_gids_4user_via_getgrall_def prepare_groups_def update_group_info_def
  by (intro asked_rules)+

lemma asked_lookups:
  "within (asked u) (get_uid_4user S u)" "within (asked u) (get_gid_4user S u)" "within (asked u) (get_gids_4user S u)"
  "within (asked u) (get_home_4user S u)" "within (asked u) (get_gid_4group S g)"
  unfolding get_uid_4user_def get_gid_4user_def get_gids_4user_def get_home_4user_def get_gid_4group_def
  by (intro asked_rules asked_prepare)+

lemma cache_inv_lookups:
  assumes "cache_inv S w"
  shows "cache_inv S (snd (get_uid_4user S u w))" "cache_inv S (snd (get_gid_4user S u w))"
    "cache_inv S (snd (get_gids_4user S u w))" "cache_inv S (snd (get_home_4user S u w))"
    "cache_inv S (snd (get_gid_4group S g w))"
  using cache.uid_run [OF assms, of u] cache.gid_run [OF assms, of u] cache.gids_run [OF assms, of u]
    cache.home_run [OF assms, of u] cache.group_run [OF assms, of g]
    cache_inv_touch_user [OF assms, of u] cache_inv_touch_group [OF assms, of g]
  by (simp_all add: cache_ops_def)

lemma stays_asked: "asked u w w' \<Longrightarrow> (cache_inv S w \<Longrightarrow> cache_inv S w') \<Longrightarrow> stays S w w'"
  by (auto simp: stays_def asked_def same_io_def ran_as_def wrote_def)

section \<open>Switching the user\<close>

definition switching :: "sys \<Rightarrow> string \<Rightarrow> world \<Rightarrow> world \<Rightarrow> bool" where
  "switching S u w w' \<longleftrightarrow> same_io w w' \<and>
     (\<exists>evs. trace w' = trace w @ evs \<and> (\<forall>e \<in> set evs. ev_argv e = id_argv u)) \<and> (cache_inv S w \<longrightarrow> cache_inv S w')"

interpretation switching: step_relation "switching S u" for S u
proof unfold_locales
  show "switching S u w w" for w by (simp add: switching_def same_io_def)
  show "switching S u w v \<Longrightarrow> switching S u v x \<Longrightarrow> switching S u w x" for w v x
    unfolding switching_def using grows_trans [of "trace v" "trace w" "\<lambda>e. ev_argv e = id_argv u" "trace x"]
    by (auto simp: same_io_def)
qed

lemma switching_asked: "asked u w w' \<Longrightarrow> (cache_inv S w \<Longrightarrow> cache_inv S w') \<Longrightarrow> switching S u w w'"
  by (auto simp: switching_def asked_def)

lemma lookup_within:
  assumes "within (asked u) m" and "\<And>w. cache_inv S w \<Longrightarrow> cache_inv S (snd (m w))"
  shows "within (switching S u) m" "confined S m"
  using assms unfolding within_def by (blast intro: switching_asked stays_asked)+

lemma switching_lookups:
  "within (switching S u) (op_uid (cache_ops S) u)" "within (switching S u) (op_gid (cache_ops S) u)"
  "within (switching S u) (op_gids (cache_ops S) u)" "within (switching S u) (op_home (cache_ops S) u)"
  "within (switching S u) (op_group (cache_ops S) g)"
  unfolding cache_ops_def user_ops.simps by (intro lookup_within(1) asked_lookups cache_inv_lookups; assumption)+

lemma confined_lookup [confinement]: "confined S (get_home_4user S u)"
  by (rule lookup_within(2) [OF asked_lookups(4) cache_inv_lookups(4)])

lemma switching_os_call: "within (switching S u) (os_call k)"
  by (auto simp: within_def os_call_def switching_def same_io_def cache_inv_cred split: sum.split)

lemma switching_environ: "within (switching S u) (set_environ k v)"
  by (simp add: within_def set_environ_def run_simps switching_def same_io_def cache_inv_def)

lemma switching_cfg: "within (switching S u) (cfg_sub k)" "within (switching S u) (as_int v)"
  by (simp_all add: within_def cfg_sub_run as_int_def run_simps switching.R_refl split: option.split)

lemmas switching_rules = switching.within_rules switching_lookups switching_os_call switching_environ switching_cfg

lemma switching_member: "within (switching S u) (check_membership (cache_ops S) g n u)"
  unfolding check_membership_def by (intro switching_rules)

lemma switching_loop: "within (switching S u) (supplementary_loop (cache_ops S) fail u added have1 gs)"
proof (induction gs arbitrary: added have1)
  case Nil
  show ?case by (simp add: switching.within_ret)
next
  case (Cons g gs)
  show ?case unfolding supplementary_loop.simps by (intro switching_rules switching_member Cons.IH)
qed

lemma switching_become_user: "within (switching S u) (become_user (cache_ops S) u gs)"
  unfolding become_user_def change_identity_def get_primary_group_def get_supplementary_groups_def
  by (intro switching_rules switching_member switching_loop)

section \<open>Every handler is confined\<close>

lemma confined_params [confinement]:
  "confined S (req_str v)" "confined S (req_arg v)" "confined S (expanded v)" "confined S (int_param v)"
  "confined S (stat_node p)" "confined S (path_exists p)" "confined S (path_isdir p)" "confined S (os_access T p n)"
  "confined S (expand_message m)" "confined S use_login_shell" "confined S (environ_sub k)" "confined S (joined a b c)"
  unfolding req_str_def req_arg_def expanded_def int_param_def stat_node_def path_exists_def path_isdir_def os_access_def
    expand_message_def use_login_shell_def environ_sub_def joined_def
  by (intro stays.within_rules confinement)+

lemma confined_addperms [confinement]: "confined S (addperms p n)"
  unfolding addperms_def by (intro stays.within_rules confinement)

lemma confined_write_file [confinement]: "confined S (write_file T p t)"
  unfolding write_file_def by (intro stays.within_rules confinement)

lemma confined_stream_data [confinement]: "confined S (stream_write_data d)" "confined S (stream_read_data n)"
proof -
  show "confined S (stream_write_data d)" by (rule withinI) (simp add: data_block_written)
  show "confined S (stream_read_data n)"
  proof (rule withinI)
    fix w
    obtain r rest where "stream_read_data n w = (r, w\<lparr>ctl_in := rest\<rparr>)" "length rest \<le> length (ctl_in w)"
      "(\<exists>d. r = Ret d \<and> length rest < length (ctl_in w)) \<or> r = Exc ValueError"
      by (rule stream_read_data_run)
    then show "stays S w (snd (stream_read_data n w)) \<and> (\<forall>k. fst (stream_read_data n w) \<noteq> Exit k)"
      by (auto simp: stays_def ran_as_def wrote_def cache_inv_def)
  qed
qed

lemma confined_conn [confinement]: "confined S (conn_write_data C d)" "confined S (conn_read_data C n)"
  by (cases C; simp add: confinement)+

lemma confined_write_chunks [confinement]: "confined S (write_chunks C b t p n)"
proof (induction C b t p n rule: write_chunks.induct)
  case (1 C b t p n)
  then show ?case by (subst write_chunks.simps) (auto simp: Let_def intro!: stays.within_rules confinement)
qed

lemma confined_flush_buf [confinement]: "confined S (flush_buf T p b n)"
  by (induction T p b n rule: flush_buf.induct) (auto intro!: stays.within_rules confinement)

lemma confined_copy_data [confinement]: "confined S (copy_data C T p n)"
proof (rule withinI)
  show "stays S w (snd (copy_data C T p n w)) \<and> (\<forall>k. fst (copy_data C T p n w) \<noteq> Exit k)" for w
  proof (induction C T p n w rule: copy_data.induct)
    case (1 C T p n w)
    obtain r v where r: "conn_read_data C (nat n) w = (r, v)" by fastforce
    have rv: "stays S w v" "\<forall>k. r \<noteq> Exit k"
      using within_run [OF confined_conn(2) r] within_no_exit [OF confined_conn(2)] r by blast+
    show ?case
    proof (cases "0 < n \<and> (\<exists>b. r = Ret b \<and> b \<noteq> [])")
      case False
      with r rv 1(1) [of r v] show ?thesis
        by (subst (1 2) copy_data.simps) (auto split: outcome.splits intro: stays.R_trans)
    next
      case True
      then obtain b where b: "r = Ret b" "b \<noteq> []" by blast
      obtain q x where q: "flush_buf T p b (length b) v = (q, x)" by fastforce
      have qx: "stays S v x" "\<forall>k. q \<noteq> Exit k"
        using within_run [OF confined_flush_buf q] within_no_exit [OF confined_flush_buf] q by blast+
      then have "stays S w x" using rv stays.R_trans by blast
      with True r b q qx 1(2) [of r v b q x] show ?thesis
        by (subst (1 2) copy_data.simps) (auto split: outcome.splits intro: stays.R_trans)
    qed
  qed
qed

lemma confined_set_mode [confinement]: "confined S (set_requested_mode p m)"
  unfolding set_requested_mode_def by (intro stays.within_rules confinement)

lemma confined_get_info [confinement]: "confined S (get_info T p)"
  unfolding get_info_def by (intro stays.within_rules confinement)

lemma confined_list_directory [confinement]: "confined S (list_directory n T r p)"
  by (induction n arbitrary: p) (auto intro!: stays.within_rules confinement)

lemma confined_io [confinement]:
  "confined S (get_file_chunk C T msg)" "confined S (put_file_chunk C T msg)" "confined S (ls_cmd T msg)" "confined S (df_cmd T msg)"
  unfolding get_file_chunk_def put_file_chunk_def ls_cmd_def df_cmd_def by (intro stays.within_rules confinement)+

lemma confined_bss [confinement]:
  "confined S (run_alloc T m c j)" "confined S (run_submit T B m u c i)" "confined S (run_on_login_node T m)"
  "confined S (get_status_listing T B m)" "confined S (get_process_listing T m)" "confined S (get_job_details T B m)"
  "confined S (abort_job T m)" "confined S (control_job T k m)" "confined S (get_budget m)" "confined S (get_partitions T B m)"
  "confined S (nobatch_submit T m)" "confined S (nobatch_get_job_details m)" "confined S (nobatch_hold_job m)" "confined S (nobatch_resume_job m)"
  unfolding run_alloc_def run_submit_def run_on_login_node_def get_status_listing_def get_process_listing_def get_job_details_def
    abort_job_def control_job_def get_budget_def get_partitions_def nobatch_submit_def nobatch_get_job_details_def
    nobatch_hold_job_def nobatch_resume_job_def
  by (intro stays.within_rules confinement)+

lemma confined_submit [confinement]: "confined S (submit T B m)"
  unfolding submit_def Let_def by (intro stays.within_rules confinement)

lemma confined_acl [confinement]:
  "confined S (getfacl_posix T p)" "confined S (setfacl_posix T p a b)" "confined S (getfacl_nfs p)" "confined S (setfacl_nfs p a b)"
  "confined S acl_table"
  unfolding getfacl_posix_def setfacl_posix_def getfacl_nfs_def setfacl_nfs_def unset_posix_def acl_table_def
  by (intro stays.within_rules confinement | auto intro!: stays.within_rules confinement split: cval.split)+

lemma confined_process_acl [confinement]: "confined S (process_acl T m)"
  unfolding process_acl_def by (intro stays.within_rules confinement)

lemma confined_uftp [confinement]: "confined S (uftp T m)"
  unfolding uftp_def by (intro stays.within_rules confinement)

lemma confined_keyfiles [confinement]: "confined S (keyfiles_loop T h ks i)"
  by (induction ks arbitrary: i) (auto intro!: stays.within_rules confinement)

lemma confined_info_command [confinement]: "confined S (info_command T k n l f i)"
  unfolding info_command_def by (intro stays.within_rules confinement)

lemma confined_get_user_info [confinement]: "confined S (get_user_info S m)"
  unfolding get_user_info_def config_keyfiles_def
  by (intro stays.within_rules confinement | auto intro!: stays.within_rules confinement split: cval.split)+

lemma confined_execute_script [confinement]: "confined S (execute_script T m)"
  unfolding execute_script_def by (intro stays.within_rules confinement)

lemma confined_simple [confinement]:
  "confined S ping" "confined S (ping_uid m)" "confined S (make_reservation m)" "confined S (query_reservation m)"
  "confined S (cancel_reservation m)" "confined S (hold_job T m)" "confined S (resume_job T m)"
  unfolding ping_def ping_uid_def make_reservation_def query_reservation_def cancel_reservation_def hold_job_def resume_job_def
  by (intro stays.within_rules confinement)+

lemma init_functions_confined: "(cmd, f) \<in> set (init_functions C S k) \<Longrightarrow> confined S (f m)"
  unfolding init_functions_def bss_submit_def bss_get_job_details_def bss_hold_job_def bss_resume_job_def
  by (auto intro!: stays.within_rules confinement)

end
