(* ===== verification/Sessions.thy ===== *)
theory Sessions
  imports World
begin

text \<open>
  \<open>lib/PAM.py\<close>: login sessions for user tasks. The PAM library is C code; its results are the
  parameter \<open>pam_err\<close> of the machine, and the calls made are recorded in the state. Modelled are the
  methods of the class \<open>PAM\<close>; the conversation callback and the memory handed to the library are not.
\<close>

definition ascii :: "string \<Rightarrow> bool" where
  "ascii s \<longleftrightarrow> list_all (\<lambda>c. code c < 128) s"

definition pam_do :: "sys \<Rightarrow> pam_call \<Rightarrow> int tsi" where
  "pam_do S call = (\<lambda>w. (Ret (pam_err S (pam_calls w) call), w\<lparr>pam_calls := pam_calls w @ [call]\<rparr>))"

definition check_pam_error :: "string \<Rightarrow> int \<Rightarrow> string \<Rightarrow> bool \<Rightarrow> unit tsi" where
  "check_pam_error method err msg fail_on_error =
     (if err \<noteq> 0 then
        (let m = ''Error '' @ show_int err @ '' invoking '' @ [CHR 0x27] @ method @ [CHR 0x27] @ '': '' @ msg in
         if fail_on_error then throw (OSError m) else ret ())
      else ret ())"

text \<open>The constructor encodes the module name, \<open>open_session\<close> the user; both accept ASCII text only.\<close>

definition pam_init :: "string \<Rightarrow> unit tsi" where
  "pam_init module_name = (if ascii module_name then ret () else throw ValueError)"

definition pam_open_session :: "sys \<Rightarrow> string \<Rightarrow> string \<Rightarrow> unit tsi" where
  "pam_open_session S module_name username =
     (if \<not> ascii username then throw ValueError
      else
        bnd (pam_do S (PamStart module_name username)) (\<lambda>err.
        bnd (check_pam_error ''pam_start'' err (pam_text S err) False) (\<lambda>_.
        bnd (pam_do S PamOpenSession) (\<lambda>err.
        check_pam_error ''pam_open_session'' err (pam_text S err) True))))"

definition pam_close_session :: "sys \<Rightarrow> unit tsi" where
  "pam_close_session S =
     bnd (pam_do S PamCloseSession) (\<lambda>err.
     bnd (check_pam_error ''pam_close_session'' err (pam_text S err) False) (\<lambda>_.
     bnd (pam_do S PamEnd) (\<lambda>err.
     check_pam_error ''pam_end'' err (pam_text S err) False)))"

lemma pam_do_run [run_simps]: "pam_do S call w = (Ret (pam_err S (pam_calls w) call), w\<lparr>pam_calls := pam_calls w @ [call]\<rparr>)"
  by (simp add: pam_do_def)

text \<open>Closing a session never fails and always makes both calls.\<close>

lemma pam_close_session_run: "pam_close_session S w = (Ret (), w\<lparr>pam_calls := pam_calls w @ [PamCloseSession, PamEnd]\<rparr>)"
  by (simp add: pam_close_session_def check_pam_error_def run_simps Let_def)

text \<open>Opening a session only adds calls; whether it succeeds is decided by the second one alone.\<close>

lemma pam_open_session_run:
  "pam_open_session S m u w =
    (if \<not> ascii u then (Exc ValueError, w)
     else
       let c = pam_calls w @ [PamStart m u]; err = pam_err S c PamOpenSession; v = w\<lparr>pam_calls := c @ [PamOpenSession]\<rparr> in
       if err = 0 then (Ret (), v)
       else (Exc (OSError (''Error '' @ show_int err @ '' invoking '' @ [CHR 0x27] @ ''pam_open_session'' @ [CHR 0x27] @ '': ''
              @ pam_text S err)), v))"
  by (simp add: pam_open_session_def check_pam_error_def run_simps Let_def)

end
