(* ===== verification/Config.thy ===== *)
theory Config
  imports BecomeUser
begin

text \<open>
  The configuration of the TSI (\<open>lib/TSI.py\<close>): default settings, the settings read from the
  properties file, and the set-up steps that derive the access control, the addresses of the allowed
  UNICORE/X machines and the range of local ports. Everything here is a pure function of the
  dictionary. \<open>socket.getaddrinfo\<close> is a parameter: the addresses of a host name, or \<open>None\<close> when
  it cannot be resolved.
\<close>

section \<open>Reading the settings\<close>

text \<open>The list of child processes, \<open>tsi.child_pids\<close>, is the field \<open>child_pids\<close> of the world.\<close>

definition get_default_config :: config where
  "get_default_config = Map.empty(
     ''tsi.default_job_name'' \<mapsto> CStr ''UnicoreJob'',
     ''tsi.nodes_filter'' \<mapsto> CStr [],
     ''tsi.userCacheTtl'' \<mapsto> CInt 600,
     ''tsi.enforce_os_gids'' \<mapsto> CBool True,
     ''tsi.fail_on_invalid_gids'' \<mapsto> CBool False,
     ''tsi.use_id_to_resolve_gids'' \<mapsto> CBool True,
     ''tsi.open_user_sessions'' \<mapsto> CBool False,
     ''tsi.switch_uid'' \<mapsto> CBool True,
     ''tsi.debug'' \<mapsto> CInt 0,
     ''tsi.use_syslog'' \<mapsto> CBool False,
     ''tsi.worker.id'' \<mapsto> CInt 1,
     ''tsi.my_addr'' \<mapsto> CStr [],
     ''tsi.my_port'' \<mapsto> CInt 4433,
     ''tsi.unicorex_machine'' \<mapsto> CStr ''localhost'',
     ''tsi.disable_ipv6'' \<mapsto> CBool False,
     ''tsi.local_portrange'' \<mapsto> CNone,
     ''tsi.safe_dir'' \<mapsto> CStr ''/tmp'',
     ''tsi.keyfiles'' \<mapsto> CStrs [''.ssh/authorized_keys''],
     ''tsi.use_login_shell'' \<mapsto> CBool True,
     ''tsi.testing'' \<mapsto> CBool False)"

definition boolean_keys :: "string list" where
  "boolean_keys = [''tsi.open_user_sessions'', ''tsi.switch_uid'', ''tsi.enforce_os_gids'',
     ''tsi.fail_on_invalid_gids'', ''tsi.use_id_to_resolve_gids'', ''tsi.use_syslog'', ''tsi.debug'',
     ''tsi.disable_ipv6'', ''tsi.use_login_shell'']"

definition process_config_value :: "string \<Rightarrow> string \<Rightarrow> config \<Rightarrow> exn + config" where
  "process_config_value key value cfg =
     (if key \<in> set boolean_keys then Inr (cfg(key \<mapsto> CBool (lower value \<in> {''1'', ''true''})))
      else if startswith key ''tsi.acl'' then
        (if value = ''NONE'' \<or> value = ''POSIX'' \<or> value = ''NFS'' then
           (case cfg ''tsi.acl'' of
              None \<Rightarrow> Inr (cfg(''tsi.acl'' \<mapsto> CDict [(drop 8 key, value)]))
            | Some (CDict acl) \<Rightarrow> Inr (cfg(''tsi.acl'' \<mapsto> CDict (dict_set (drop 8 key) value acl)))
            | Some _ \<Rightarrow> Inl TypeError)
         else Inl (KeyError (''Invalid value '' @ [CHR 0x27] @ value @ [CHR 0x27] @ '' for parameter ''
                     @ [CHR 0x27] @ key @ [CHR 0x27] @ '', must be '' @ [CHR 0x27] @ ''NONE'' @ [CHR 0x27]
                     @ '', '' @ [CHR 0x27] @ ''POSIX'' @ [CHR 0x27] @ '' or '' @ [CHR 0x27] @ ''NFS'' @ [CHR 0x27])))
      else if startswith key ''tsi.allowed_dn.'' then
        sbind (convert_dn value) (\<lambda>dn.
        case cfg ''tsi.allowed_dns'' of
          None \<Rightarrow> Inr (cfg(''tsi.allowed_dns'' \<mapsto> CDns [dn]))
        | Some (CDns allowed) \<Rightarrow> Inr (cfg(''tsi.allowed_dns'' \<mapsto> CDns (allowed @ [dn])))
        | Some _ \<Rightarrow> Inl AttributeError)
      else if key = ''tsi.keyfiles'' then
        Inr (cfg(''tsi.keyfiles'' \<mapsto> CStrs (filter (\<lambda>v. 0 < length v) (map strip (split_ch (CHR '':'') value)))))
      else if key = ''tsi.njs_machine'' then Inr (cfg(''tsi_unicorex_machine'' \<mapsto> CStr value))
      else if key = ''tsi_njs_port'' then Inr (cfg(''tsi_unicorex_port'' \<mapsto> CStr value))
      else Inr (cfg(key \<mapsto> CStr value)))"

text \<open>The expression \<open>\s*([a-zA-Z0-9.\-_/]+)\s*=\s*(.*)$\<close>.\<close>

definition key_char :: "char \<Rightarrow> bool" where
  "key_char c \<longleftrightarrow> is_alpha c \<or> is_digit c \<or> c \<in> set ''.-_/''"

definition rx_config :: "rx list" where
  "rx_config = [star is_space, Open, plus key_char, Close, star is_space, One (\<lambda>c. c = CHR ''=''),
     star is_space, Open, star dot, Close, Eol]"

definition config_line :: "string \<Rightarrow> (string \<times> string) option" where
  "config_line line = map_option (\<lambda>(caps, _). (caps ! 0, strip (caps ! 1))) (re_match rx_config line)"

fun config_lines :: "string list \<Rightarrow> config \<Rightarrow> exn + config" where
  "config_lines [] cfg = Inr cfg"
| "config_lines (l # ls) cfg =
     (case config_line l of
        None \<Rightarrow> config_lines ls cfg
      | Some (key, value) \<Rightarrow> sbind (process_config_value key value cfg) (config_lines ls))"

text \<open>\<open>contents\<close> is what opening and reading a file gives, \<open>None\<close> if that fails.\<close>

definition read_config_file :: "(string \<Rightarrow> string option) \<Rightarrow> string \<Rightarrow> exn + config" where
  "read_config_file contents file_name =
     (case contents file_name of
        None \<Rightarrow> Inl (OSError file_name)
      | Some text \<Rightarrow> config_lines (readlines text) get_default_config)"

section \<open>Set-up\<close>

definition is_set :: "config \<Rightarrow> string \<Rightarrow> bool" where
  "is_set cfg k \<longleftrightarrow> cfg k \<noteq> None \<and> cfg k \<noteq> Some CNone"

definition setup_acl :: "config \<Rightarrow> config" where
  "setup_acl cfg =
     (let c = cfg(''tsi.posixacl_enabled'' \<mapsto> CBool (is_set cfg ''tsi.getfacl_cmd'' \<and> is_set cfg ''tsi.setfacl_cmd''))
      in c(''tsi.nfsacl_enabled'' \<mapsto> CBool (is_set c ''tsi.nfs_getfacl_cmd'' \<and> is_set c ''tsi.nfs_setfacl_cmd'')))"

fun add_new :: "string list \<Rightarrow> string list \<Rightarrow> string list" where
  "add_new ips [] = ips"
| "add_new ips (ip # new) = add_new (if ip \<in> set ips then ips else ips @ [ip]) new"

fun resolve_all :: "(string \<Rightarrow> string list option) \<Rightarrow> string list \<Rightarrow> string list \<Rightarrow> string list" where
  "resolve_all getaddrinfo ips [] = ips"
| "resolve_all getaddrinfo ips (machine # ms) =
     (case getaddrinfo (strip machine) of
        None \<Rightarrow> resolve_all getaddrinfo ips ms
      | Some found \<Rightarrow> resolve_all getaddrinfo (add_new ips found) ms)"

definition setup_allowed_ips :: "(string \<Rightarrow> string list option) \<Rightarrow> config \<Rightarrow> exn + config" where
  "setup_allowed_ips getaddrinfo cfg =
     (case cfg ''tsi.unicorex_machine'' of
        None \<Rightarrow> Inl (KeyError ''tsi.unicorex_machine'')
      | Some (CStr m) \<Rightarrow>
          Inr (cfg(''tsi.allowed_ips'' \<mapsto> CStrs (resolve_all getaddrinfo [] (split_ch (CHR '','') m))))
      | Some _ \<Rightarrow> Inl AttributeError)"

definition bad_portrange :: exn where
  "bad_portrange = Exception (''Invalid '' @ [CHR 0x27] @ ''tsi.local_portrange'' @ [CHR 0x27]
     @ '' specified, must be '' @ [CHR 0x27] @ ''lower:upper'' @ [CHR 0x27])"

definition setup_portrange :: "config \<Rightarrow> exn + config" where
  "setup_portrange cfg =
     (case cfg ''tsi.local_portrange'' of
        None \<Rightarrow> Inl (KeyError ''tsi.local_portrange'')
      | Some CNone \<Rightarrow> Inr (cfg(''tsi.local_portrange'' \<mapsto> CRange 0 (-1) (-1)))
      | Some (CStr rangespec) \<Rightarrow>
          (case split_ch (CHR '':'') (strip rangespec) of
             [l, u] \<Rightarrow>
               (case (py_int l, py_int u) of
                  (Some lo, Some up) \<Rightarrow>
                    (if up \<le> lo then Inl bad_portrange
                     else Inr (cfg(''tsi.local_portrange'' \<mapsto> CRange lo lo up)))
                | _ \<Rightarrow> Inl bad_portrange)
           | _ \<Rightarrow> Inl bad_portrange)
      | Some _ \<Rightarrow> Inl bad_portrange)"

definition finish_setup :: "(string \<Rightarrow> string list option) \<Rightarrow> config \<Rightarrow> exn + config" where
  "finish_setup getaddrinfo cfg =
     sbind (setup_allowed_ips getaddrinfo (setup_acl cfg)) setup_portrange"

section \<open>Lines of the properties file\<close>

lemma key_char_not: "key_char c \<Longrightarrow> \<not> is_space c \<and> c \<noteq> CHR ''='' \<and> c \<noteq> NL"
  by (auto simp: key_char_def is_alpha_def char_classes code_def)

lemma value_match:
  assumes "NL \<notin> set v"
  obtains g r where "mt [star is_space, Open, star dot, Close, Eol] pre (v @ [NL]) None caps = Some (caps @ [g], r)"
    and "strip g = strip v"
proof (cases "list_all is_space v")
  case True
  then have sp: "list_all is_space (v @ [NL])" by (simp add: is_space_def code_def)
  then have "dropWhile is_space (v @ [NL]) = []" "takeWhile is_space (v @ [NL]) = v @ [NL]"
    by (simp_all add: list_all_iff)
  then have "mt [star is_space, Open, star dot, Close, Eol] pre (v @ [NL]) None caps = Some (caps @ [[]], [])"
    by (intro mt_star_longest) simp
  moreover have "dropWhile is_space v = []" using True by (simp add: list_all_iff)
  then have "strip v = []" unfolding strip_def lstrip_def rstrip_def by (simp only: rev.simps dropWhile.simps)
  moreover have "strip [] = []" by (simp add: strip_def lstrip_def rstrip_def)
  ultimately show ?thesis by (intro that [of "[]" "[]"]) simp_all
next
  case False
  let ?g = "dropWhile is_space v"
  have ex: "\<exists>x \<in> set v. \<not> is_space x" using False by (auto simp: list_all_iff)
  then have d: "dropWhile is_space (v @ [NL]) = ?g @ [NL]" "takeWhile is_space (v @ [NL]) = takeWhile is_space v"
    by (auto simp: dropWhile_append2 takeWhile_append1)
  have "NL \<notin> set ?g" using assms set_dropWhileD by metis
  then have "mt [star dot, Close, Eol] p (?g @ [NL]) (Some []) caps = Some (caps @ [?g], [NL])" for p
    by (intro mt_star_longest) simp
  then have "mt [star is_space, Open, star dot, Close, Eol] pre (v @ [NL]) None caps = Some (caps @ [?g], [NL])"
    by (intro mt_star_longest) (simp add: d)
  moreover have "strip ?g = strip v" by (simp add: strip_def lstrip_def)
  ultimately show ?thesis by (rule that)
qed

lemma config_line_setting:
  assumes k: "k \<noteq> []" "list_all key_char k" and v: "NL \<notin> set v"
  shows "config_line (k @ ''='' @ v @ [NL]) = Some (k, strip v)"
proof -
  obtain g r where g: "mt [star is_space, Open, star dot, Close, Eol] (CHR ''='' # rev k) (v @ [NL]) None [k] = Some ([k] @ [g], r)"
      "strip g = strip v"
    using value_match [OF v, of "CHR ''='' # rev k" "[k]"] by metis
  have eq: "mt [star is_space, One (\<lambda>c. c = CHR ''=''), star is_space, Open, star dot, Close, Eol] (rev k)
      (''='' @ v @ [NL]) None [k] = Some ([k] @ [g], r)"
    using g by (intro mt_star_longest) (simp add: is_space_def code_def)
  have tk: "takeWhile key_char (k @ ''='' @ v @ [NL]) = k" "dropWhile key_char (k @ ''='' @ v @ [NL]) = ''='' @ v @ [NL]"
    using k by (simp_all add: list_all_iff key_char_def is_alpha_def char_classes code_def)
  have key: "mt [plus key_char, Close, star is_space, One (\<lambda>c. c = CHR ''=''), star is_space, Open, star dot, Close, Eol]
      [] (k @ ''='' @ v @ [NL]) (Some []) [] = Some ([k] @ [g], r)"
    using eq k(1) by (intro mt_plus_longest) (simp_all only: tk, simp_all)
  obtain c k' where ck: "k = c # k'" using k(1) by (cases k) auto
  then have "\<not> is_space c" using k(2) key_char_not by simp
  then have sp: "takeWhile is_space (k @ ''='' @ v @ [NL]) = []" "dropWhile is_space (k @ ''='' @ v @ [NL]) = k @ ''='' @ v @ [NL]"
    by (simp_all add: ck)
  have "mt rx_config [] (k @ ''='' @ v @ [NL]) None [] = Some ([k] @ [g], r)"
    unfolding rx_config_def
    by (rule mt_star_longest) (use key in \<open>simp only: sp, simp\<close>)
  with g show ?thesis by (simp add: config_line_def re_match_def)
qed

section \<open>Properties\<close>

text \<open>A file with one setting per line, and the value a setting has afterwards.\<close>

definition setting_line :: "string \<times> string \<Rightarrow> string" where
  "setting_line kv = fst kv @ ''='' @ snd kv @ [NL]"

definition setting_value :: "string \<Rightarrow> string \<Rightarrow> cval" where
  "setting_value k v = (if k \<in> set boolean_keys then CBool (lower (strip v) \<in> {''1'', ''true''}) else CStr (strip v))"

definition store_setting :: "string \<times> string \<Rightarrow> config \<Rightarrow> config" where
  "store_setting kv cfg = cfg(fst kv \<mapsto> setting_value (fst kv) (snd kv))"

definition plain_setting :: "string \<times> string \<Rightarrow> bool" where
  "plain_setting kv \<longleftrightarrow> fst kv \<noteq> [] \<and> list_all key_char (fst kv) \<and> NL \<notin> set (snd kv) \<and>
     \<not> startswith (fst kv) ''tsi.acl'' \<and> \<not> startswith (fst kv) ''tsi.allowed_dn.'' \<and>
     fst kv \<notin> {''tsi.keyfiles'', ''tsi.njs_machine'', ''tsi_njs_port''}"

lemma readlines_acc_line: "NL \<notin> set l \<Longrightarrow> readlines_acc a (l @ NL # r) = (a @ l @ [NL]) # readlines_acc [] r"
  by (induction l arbitrary: a) auto

lemma readlines_unlines:
  "list_all (\<lambda>l. NL \<notin> set l) ls \<Longrightarrow> readlines (concat (map (\<lambda>l. l @ [NL]) ls)) = map (\<lambda>l. l @ [NL]) ls"
  by (induction ls) (auto simp: readlines_def readlines_acc_line)

lemma plain_setting_process:
  "plain_setting (k, v) \<Longrightarrow> process_config_value k (strip v) cfg = Inr (store_setting (k, v) cfg)"
  by (simp add: plain_setting_def process_config_value_def setting_value_def store_setting_def)

lemma config_lines_settings:
  "list_all plain_setting kvs \<Longrightarrow> config_lines (map setting_line kvs) cfg =
    Inr (fold store_setting kvs cfg)"
proof (induction kvs arbitrary: cfg)
  case (Cons kv kvs)
  obtain k v where kv: "kv = (k, v)" by (cases kv)
  with Cons.prems have "config_line (setting_line kv) = Some (k, strip v)"
    unfolding setting_line_def kv fst_conv snd_conv
    by (intro config_line_setting) (simp_all add: plain_setting_def)
  with Cons kv show ?case by (simp add: plain_setting_process)
qed simp

lemma fold_settings:
  "fold store_setting kvs cfg k =
    (case map_of (rev kvs) k of None \<Rightarrow> cfg k | Some v \<Rightarrow> Some (setting_value k v))"
  by (induction kvs arbitrary: cfg) (auto simp: map_add_def store_setting_def split: option.split)

text \<open>
  C33: Reading a properties file. Every ordinary setting ends up in the configuration with its value
  stripped of surrounding space (a truth value for the boolean settings), the last line for a name
  wins, and names that are not in the file keep their defaults.
\<close>

theorem read_config_file_settings:
  assumes "list_all plain_setting kvs" and "contents file_name = Some (concat (map setting_line kvs))"
  shows "\<exists>cfg. read_config_file contents file_name = Inr cfg \<and>
    (\<forall>k. cfg k = (case map_of (rev kvs) k of None \<Rightarrow> get_default_config k | Some v \<Rightarrow> Some (setting_value k v)))"
proof -
  have nl: "list_all (\<lambda>l. NL \<notin> set l) (map (\<lambda>kv. fst kv @ ''='' @ snd kv) kvs)"
    using assms(1) by (auto simp: list_all_iff plain_setting_def dest: key_char_not)
  have "concat (map setting_line kvs) = concat (map (\<lambda>l. l @ [NL]) (map (\<lambda>kv. fst kv @ ''='' @ snd kv) kvs))"
    by (simp add: setting_line_def [abs_def] comp_def)
  then have "readlines (concat (map setting_line kvs)) = map setting_line kvs"
    using readlines_unlines [OF nl] by (simp add: setting_line_def [abs_def] comp_def)
  with assms show ?thesis
    by (simp add: read_config_file_def config_lines_settings fold_settings)
qed

theorem read_config_file_settings_witness:
  "\<exists>cfg. read_config_file (\<lambda>f. Some (concat (map setting_line [(''tsi.switch_uid'', ''False''), (''tsi.my_port'', '' 1234'')]))) ''tsi.properties'' = Inr cfg
     \<and> cfg ''tsi.switch_uid'' = Some (CBool False) \<and> cfg ''tsi.my_port'' = Some (CStr ''1234'')
     \<and> cfg ''tsi.safe_dir'' = Some (CStr ''/tmp'')"
proof -
  have p: "list_all plain_setting [(''tsi.switch_uid'', ''False''), (''tsi.my_port'', '' 1234'')]" by code_simp
  have v: "setting_value ''tsi.switch_uid'' ''False'' = CBool False"
      "setting_value ''tsi.my_port'' '' 1234'' = CStr ''1234''" by code_simp+
  have d: "get_default_config ''tsi.safe_dir'' = Some (CStr ''/tmp'')" by (simp add: get_default_config_def)
  from read_config_file_settings [OF p, of "\<lambda>f. Some (concat (map setting_line
      [(''tsi.switch_uid'', ''False''), (''tsi.my_port'', '' 1234'')]))" "''tsi.properties''"] v d
  show ?thesis by (fastforce simp del: list.map)
qed

text \<open>
  After the set-up of the local port range the setting is a triple: \<open>(0, -1, -1)\<close> when none was
  configured, and otherwise the first port to try, which is the lower bound, with a lower bound that is
  strictly below the upper one. Anything else is refused at start-up with the documented message.
\<close>

theorem setup_portrange_valid:
  "case setup_portrange cfg of
     Inr cfg' \<Rightarrow> (\<exists>f l u. cfg' = cfg(''tsi.local_portrange'' \<mapsto> CRange f l u) \<and>
        (cfg ''tsi.local_portrange'' = Some CNone \<and> (f, l, u) = (0, -1, -1) \<or>
         (\<exists>s. cfg ''tsi.local_portrange'' = Some (CStr s) \<and> f = l \<and> l < u \<and>
              map py_int (split_ch (CHR '':'') (strip s)) = [Some l, Some u])))
   | Inl e \<Rightarrow> e = bad_portrange \<or> cfg ''tsi.local_portrange'' = None"
  by (auto simp: setup_portrange_def split: option.splits cval.splits list.splits)

text \<open>
  The legacy setting \<open>tsi.njs_machine\<close> is accepted but has no effect: the set of addresses that
  may connect is computed as if it had not been given.
\<close>

theorem njs_machine_ignored:
  assumes "process_config_value ''tsi.njs_machine'' v cfg = Inr cfg'" and "setup_allowed_ips getaddrinfo cfg' = Inr c'"
    and "setup_allowed_ips getaddrinfo cfg = Inr c"
  shows "c' ''tsi.allowed_ips'' = c ''tsi.allowed_ips''"
proof -
  have "cfg' = cfg(''tsi_unicorex_machine'' \<mapsto> CStr v)"
    using assms(1) by (simp add: process_config_value_def boolean_keys_def)
  then have "cfg' ''tsi.unicorex_machine'' = cfg ''tsi.unicorex_machine''" by simp
  with assms(2,3) show ?thesis by (auto simp: setup_allowed_ips_def split: option.splits cval.splits)
qed

theorem njs_machine_ignored_witness:
  "\<exists>cfg' c'. process_config_value ''tsi.njs_machine'' ''gateway'' get_default_config = Inr cfg' \<and>
     setup_allowed_ips (\<lambda>m. Some [m]) cfg' = Inr c' \<and> c' ''tsi.allowed_ips'' = Some (CStrs [''localhost''])"
proof -
  have s: "split_ch (CHR '','') ''localhost'' = [''localhost'']" "strip ''localhost'' = ''localhost''" by code_simp+
  have p: "process_config_value ''tsi.njs_machine'' ''gateway'' get_default_config =
      Inr (get_default_config(''tsi_unicorex_machine'' \<mapsto> CStr ''gateway''))"
    by (simp add: process_config_value_def boolean_keys_def)
  have i: "\<exists>c. setup_allowed_ips (\<lambda>m. Some [m]) (get_default_config(''tsi_unicorex_machine'' \<mapsto> CStr ''gateway'')) = Inr c"
      "setup_allowed_ips (\<lambda>m. Some [m]) get_default_config =
        Inr (get_default_config(''tsi.allowed_ips'' \<mapsto> CStrs [''localhost'']))"
    by (simp_all add: setup_allowed_ips_def get_default_config_def s del: split_ch.simps)
  from i(1) obtain c where c: "setup_allowed_ips (\<lambda>m. Some [m]) (get_default_config(''tsi_unicorex_machine'' \<mapsto> CStr ''gateway'')) = Inr c" ..
  from njs_machine_ignored [OF p c i(2)] p c show ?thesis by simp
qed

end
