(* ===== verification/Dispatch.thy ===== *)
theory Dispatch
  imports Confinement Sessions Config
begin

text \<open>
  \<open>lib/TSI.py\<close>, the main loop of a worker: \<open>process\<close> reads a request, finds its command and calls
  \<open>handle_function\<close>, which takes on the identity of the user, calls the handler and gives the identity
  back, in a forked process with a PAM session when that is configured. The theorems put the components
  together: the commands of a request run with the identity of its user, the worker is itself again
  after every request whatever happens in it, every request gets one reply that is properly
  terminated, and the loop ends when the peer closes the connection.
\<close>

section \<open>Handling one request\<close>

definition spawning_commands :: "string list" where
  "spawning_commands = [''TSI_EXECUTESCRIPT'', ''TSI_RUN_ON_LOGIN_NODE'', ''TSI_SUBMIT'', ''TSI_UFTP'']"

text \<open>
  \<open>os.fork\<close> and \<open>os.waitpid\<close> in the parent: the child works on its own copy of the process state and
  ends, by \<open>os._exit\<close> or by an exception no one catches; files, sockets, sessions and the commands
  started are shared with the parent.
\<close>

definition fork_and_wait :: "unit tsi \<Rightarrow> unit tsi" where
  "fork_and_wait child = (\<lambda>w. case child w of
      (Loops, v) \<Rightarrow> (Loops, v)
    | (_, v) \<Rightarrow> (Ret (), v\<lparr>cred := cred w, config := config w, ucache := ucache w, environ := environ w,
                        cwd := cwd w, child_pids := child_pids w\<rparr>))"

definition report_error :: "sys \<Rightarrow> exn \<Rightarrow> unit tsi" where
  "report_error S e = failed (Some (exn_str S e))"

text \<open>
  The body of the \<open>try\<close> block in two parts: before and after the variable \<open>pam_session\<close> is bound. The
  first returns the user, the groups, and whether it is bound.
\<close>

definition request_identity :: "bool \<Rightarrow> bool \<Rightarrow> string \<Rightarrow> (string \<times> string list) option tsi" where
  "request_identity switch_uid open_user_session msg =
     (if switch_uid then
        (case identity_of msg of
           None \<Rightarrow> throw (RuntimeError ''No user/group info given'')
         | Some (user, group_list) \<Rightarrow>
             bnd (if open_user_session
                  then bnd (cfg_get ''tsi.pam_module'' (CStr ''unicore-tsi'')) (\<lambda>v. bnd (of_sum (as_str v)) pam_init)
                  else ret ()) (\<lambda>_.
             ret (Some (user, split_ch (CHR '':'') group_list))))
      else ret None)"

definition run_request :: "sys \<Rightarrow> bool \<Rightarrow> (string \<times> string list) option \<Rightarrow> (string \<Rightarrow> unit tsi) \<Rightarrow> string \<Rightarrow> unit tsi" where
  "run_request S open_user_session who function msg =
     bnd (case who of
            None \<Rightarrow> ret ()
          | Some (user, gs) \<Rightarrow>
              bnd (if open_user_session
                   then bnd (cfg_get ''tsi.pam_module'' (CStr ''unicore-tsi'')) (\<lambda>v.
                        bnd (of_sum (as_str v)) (\<lambda>pam_module. pam_open_session S pam_module user))
                   else ret ()) (\<lambda>_.
              bnd (become_user (cache_ops S) user gs) (\<lambda>_. ret ()))) (\<lambda>_.
     function msg)"

text \<open>
  The connector only matters for reporting an error, which is the parameter \<open>report\<close>: a line on the
  control channel, or, for a port forwarder, the end of the process.
\<close>

definition handle_with ::
    "(exn \<Rightarrow> unit tsi) \<Rightarrow> sys \<Rightarrow> bool \<Rightarrow> bool \<Rightarrow> (string \<Rightarrow> unit tsi) \<Rightarrow> string \<Rightarrow> string \<Rightarrow> unit tsi" where
  "handle_with report S switch_uid open_user_session function command msg =
     bnd (catch
       (bnd (request_identity switch_uid open_user_session msg) (\<lambda>who.
        bnd (catch (run_request S open_user_session who function msg) report) (\<lambda>_.
        ret True)))
       (\<lambda>e. bnd (report e) (\<lambda>_. ret False))) (\<lambda>bound.
     bnd (whenP (switch_uid \<and> command \<noteq> ''_START_FORWARDING'')
       (bnd restore_id (\<lambda>_.
        whenP open_user_session (if bound then pam_close_session S else throw UnboundLocalError)))) (\<lambda>_.
     if open_user_session then leave 0 else ret ()))"

definition handle_function_with :: "(exn \<Rightarrow> unit tsi) \<Rightarrow> sys \<Rightarrow> (string \<Rightarrow> unit tsi) \<Rightarrow> string \<Rightarrow> string \<Rightarrow> unit tsi" where
  "handle_function_with report S function command msg =
     bnd (cfg_get ''tsi.switch_uid'' (CBool True)) (\<lambda>sw.
     bnd (cfg_get ''tsi.open_user_sessions'' (CBool False)) (\<lambda>pam_enabled.
     let open_user_session = (truthy pam_enabled \<and> command \<in> set spawning_commands \<and> truthy sw) in
     if open_user_session \<and> command \<noteq> ''_START_FORWARDING''
     then fork_and_wait (handle_with report S (truthy sw) True function command msg)
     else handle_with report S (truthy sw) open_user_session function command msg))"

abbreviation handle_in_process :: "sys \<Rightarrow> bool \<Rightarrow> bool \<Rightarrow> (string \<Rightarrow> unit tsi) \<Rightarrow> string \<Rightarrow> string \<Rightarrow> unit tsi" where
  "handle_in_process S \<equiv> handle_with (report_error S) S"

abbreviation handle_function :: "sys \<Rightarrow> (string \<Rightarrow> unit tsi) \<Rightarrow> string \<Rightarrow> string \<Rightarrow> unit tsi" where
  "handle_function S \<equiv> handle_function_with (report_error S) S"

section \<open>The main loop\<close>

text \<open>The first command of the table with \<open>re.search(r".*#%s\n" % cmd, message, re.M)\<close>.\<close>

definition find_command :: "connector \<Rightarrow> sys \<Rightarrow> bss_kind \<Rightarrow> string \<Rightarrow> (string \<times> (string \<Rightarrow> unit tsi)) option" where
  "find_command C S k message =
     find (\<lambda>(cmd, _). re_search ([star dot] @ lit (''#'' @ cmd @ [NL])) message \<noteq> None) (init_functions C S k)"

definition process_request :: "connector \<Rightarrow> sys \<Rightarrow> bss_kind \<Rightarrow> string \<Rightarrow> unit tsi" where
  "process_request C S k message =
     bnd (cfg_str ''tsi.safe_dir'') (\<lambda>safe_dir.
     bnd (os_chdir safe_dir) (\<lambda>_.
     bnd (case find_command C S k message of
            None \<Rightarrow> failed (Some ''Unknown #TSI_* command'')
          | Some (command, function) \<Rightarrow>
              (if command = ''TSI_PING'' then ping else handle_function S function command message)) (\<lambda>_.
     write_message (Some ''ENDOFMESSAGE''))))"

definition next_message :: "connector \<Rightarrow> string option tsi" where
  "next_message C = catch (bnd (conn_read_message C) (\<lambda>m. ret (Some m))) (\<lambda>e. if only_oserror e then ret None else throw e)"

primrec process_loop :: "nat \<Rightarrow> connector \<Rightarrow> sys \<Rightarrow> bss_kind \<Rightarrow> bool \<Rightarrow> unit tsi" where
  "process_loop 0 = (\<lambda>C S k one_shot. diverge)"
| "process_loop (Suc n) = (\<lambda>C S k one_shot.
     bnd (cleanup S) (\<lambda>_.
     bnd (next_message C) (\<lambda>m.
     case m of
       None \<Rightarrow> ret ()
     | Some message \<Rightarrow>
         bnd (process_request C S k message) (\<lambda>_.
         bnd (cfg_get ''tsi.testing'' (CBool False)) (\<lambda>testing.
         if one_shot \<or> truthy testing then ret () else process_loop n C S k one_shot)))))"

text \<open>
  Every round over the sockets reads at least one character, so the length of the input bounds their number.
  Standard input is only served in one round; at its end a message is empty, never an error.
\<close>

definition process :: "connector \<Rightarrow> sys \<Rightarrow> bss_kind \<Rightarrow> bool \<Rightarrow> unit tsi" where
  "process C S k one_shot = (\<lambda>w. process_loop (length (ctl_in w) + 1) C S k one_shot w)"

section \<open>Giving the identity back\<close>

text \<open>Switching keeps the saved user id, whatever fails on the way; that is what lets the worker return.\<close>

definition saved :: "int \<Rightarrow> world \<Rightarrow> world \<Rightarrow> bool" where
  "saved eu w w' \<longleftrightarrow> (suid (cred w) = eu \<longrightarrow> suid (cred w') = eu) \<and> setid_caps (cred w') = setid_caps (cred w)"

interpretation saved: step_relation "saved eu" for eu
  by unfold_locales (auto simp: saved_def)

lemma saved_asked: "asked u w w' \<Longrightarrow> saved eu w w'"
  by (simp add: saved_def asked_def)

lemma saved_lookups:
  "within (saved eu) (op_uid (cache_ops S) u)" "within (saved eu) (op_gid (cache_ops S) u)"
  "within (saved eu) (op_gids (cache_ops S) u)" "within (saved eu) (op_home (cache_ops S) u)"
  "within (saved eu) (op_group (cache_ops S) g)"
  unfolding cache_ops_def user_ops.simps
  by (rule within_mono, rule asked_lookups, erule saved_asked)+

lemma saved_cfg: "within (saved eu) (cfg_sub k)"
  by (simp add: within_def cfg_sub_run saved.R_refl split: option.split)

lemma saved_calls:
  "within (saved eu) (os_call (k_setgid g))" "within (saved eu) (os_call (k_setgroups gs))"
  "within (saved eu) (os_call (k_setegid g))" "within (saved eu) (os_call (k_setresuid a b eu))"
  "within (saved eu) (set_environ k v)"
  by (auto simp: within_def os_call_def saved_def k_setgid_def k_setgroups_def k_setegid_def k_setresuid_def Let_def
      set_environ_def run_simps split: sum.split)

lemma as_int_CInt: "as_int (Some (CInt i)) = ret i"
  by (rule ext) (simp add: as_int_def run_simps)

lemmas saved_rules = saved.within_rules saved_lookups saved_cfg saved_calls

lemma saved_member: "within (saved eu) (check_membership (cache_ops S) g n u)"
  unfolding check_membership_def by (intro saved_rules)

lemma saved_loop: "within (saved eu) (supplementary_loop (cache_ops S) fail u added have1 gs)"
proof (induction gs arbitrary: added have1)
  case Nil
  show ?case by (simp add: saved.within_ret)
next
  case (Cons g gs)
  show ?case unfolding supplementary_loop.simps by (intro saved_rules saved_member Cons.IH)
qed

lemma saved_change: "within (saved eu) (change_identity (cache_ops S) u (Some (CInt eu)) a b gs)"
  unfolding change_identity_def as_int_CInt bnd_ret_left by (intro saved_rules)

lemma bnd_gets: "bnd (gets f) F w = F (f w) w"
  by (simp add: run_simps)

lemma within_at: "within R m \<Longrightarrow> R w (snd (m w))"
  by (simp add: within_def)

lemma become_user_saved:
  assumes "config w ''tsi.effective_uid'' = Some (CInt eu)"
  shows "saved eu w (snd (become_user (cache_ops S) u gs w))"
  unfolding become_user_def bnd_gets assms get_primary_group_def get_supplementary_groups_def
  by (rule within_at) (intro saved_rules saved_member saved_loop saved_change)

text \<open>The state of a worker between requests: its own identity, and a sound user cache.\<close>

definition worker_ok :: "sys \<Rightarrow> int \<Rightarrow> int \<Rightarrow> bool \<Rightarrow> bool \<Rightarrow> world \<Rightarrow> bool" where
  "worker_ok S eu eg enforce fail w \<longleftrightarrow> cache_inv S w \<and> id_config (config w) eu eg enforce fail \<and> privileged (cred w) \<and>
     ruid (cred w) = eu \<and> euid (cred w) = eu \<and> suid (cred w) = eu \<and> 0 \<le> eu \<and> 0 \<le> eg"

text \<open>While a request is handled, the worker may be someone else, but it can always come back.\<close>

definition can_return :: "sys \<Rightarrow> int \<Rightarrow> int \<Rightarrow> bool \<Rightarrow> bool \<Rightarrow> world \<Rightarrow> bool" where
  "can_return S eu eg enforce fail w \<longleftrightarrow> cache_inv S w \<and> id_config (config w) eu eg enforce fail \<and>
     suid (cred w) = eu \<and> (eu = 0 \<or> setid_caps (cred w)) \<and> 0 \<le> eu \<and> 0 \<le> eg"

lemma worker_can_return: "worker_ok S eu eg enforce fail w \<Longrightarrow> can_return S eu eg enforce fail w"
  by (auto simp: worker_ok_def can_return_def privileged_def)

lemma can_return_step:
  assumes "can_return S eu eg enforce fail w" and "config w' = config w" and "cache_inv S w'" and "saved eu w w'"
  shows "can_return S eu eg enforce fail w'"
  using assms by (simp add: can_return_def saved_def)

lemma restore_returns:
  assumes "can_return S eu eg enforce fail w"
  shows "restore_id w = (Ret (), w\<lparr>cred := own_identity eu eg (cred w), environ := harmless_env (environ w)\<rparr>)"
    "worker_ok S eu eg enforce fail (w\<lparr>cred := own_identity eu eg (cred w), environ := e\<rparr>)"
proof -
  show "restore_id w = (Ret (), w\<lparr>cred := own_identity eu eg (cred w), environ := harmless_env (environ w)\<rparr>)"
    using assms by (intro restore_id_run) (auto simp: can_return_def)
  show "worker_ok S eu eg enforce fail (w\<lparr>cred := own_identity eu eg (cred w), environ := e\<rparr>)"
    using assms by (auto simp: can_return_def worker_ok_def own_identity_def privileged_def cache_inv_def)
qed

lemma become_user_can_return:
  assumes "can_return S eu eg enforce fail w"
  shows "can_return S eu eg enforce fail (snd (become_user (cache_ops S) u gs w))"
proof (rule can_return_step [OF assms])
  let ?w = "snd (become_user (cache_ops S) u gs w)"
  have "switching S u w ?w" by (rule within_at) (rule switching_become_user)
  then show "config ?w = config w" "cache_inv S ?w" using assms by (simp_all add: switching_def same_io_def can_return_def)
  show "saved eu w ?w" by (rule become_user_saved) (use assms in \<open>simp add: can_return_def id_config_def\<close>)
qed

lemma confined_can_return:
  assumes "can_return S eu eg enforce fail w" and "stays S w w'"
  shows "can_return S eu eg enforce fail w'"
  using assms by (auto simp: can_return_def stays_def)

section \<open>The worker is itself again after every request\<close>

lemma report_error_run:
  "report_error S e w = (Ret (), w\<lparr>ctl_out := ctl_out w @ ''TSI_FAILED: '' @ map (\<lambda>c. if c = NL then CHR '':'' else c) (exn_str S e) @ [NL]\<rparr>)"
  by (simp add: report_error_def run_simps)

lemma request_identity_pure:
  obtains (Ok) who where "request_identity sw op msg w = (Ret who, w)"
  | (Err) e where "request_identity sw op msg w = (Exc e, w)"
proof -
  have "snd (request_identity sw op msg w) = w \<and> (\<exists>x. fst (request_identity sw op msg w) = Ret x \<or> (\<exists>e. fst (request_identity sw op msg w) = Exc e))"
    by (auto simp: request_identity_def run_simps pam_init_def split: option.split prod.split sum.split)
  then show thesis using that by (metis prod.collapse)
qed

lemma can_return_upd [simp]:
  "can_return S eu eg enforce fail (w\<lparr>ctl_out := x\<rparr>) = can_return S eu eg enforce fail w"
  "can_return S eu eg enforce fail (w\<lparr>pam_calls := y\<rparr>) = can_return S eu eg enforce fail w"
  by (simp_all add: can_return_def cache_inv_def)

text \<open>Opening a session, switching and running the handler.\<close>

definition switched :: "sys \<Rightarrow> bool \<Rightarrow> string \<Rightarrow> string list \<Rightarrow> unit tsi" where
  "switched S op u gs =
     bnd (if op then bnd (cfg_get ''tsi.pam_module'' (CStr ''unicore-tsi'')) (\<lambda>v.
              bnd (of_sum (as_str v)) (\<lambda>pam_module. pam_open_session S pam_module u)) else ret ()) (\<lambda>_.
     bnd (become_user (cache_ops S) u gs) (\<lambda>_. ret ()))"

lemma run_request_eq: "run_request S op who f msg =
    (case who of None \<Rightarrow> f msg | Some (u, gs) \<Rightarrow> bnd (switched S op u gs) (\<lambda>_. f msg))"
  by (cases who) (auto simp: run_request_def switched_def)

lemma open_part_run:
  obtains c r where "(if op then bnd (cfg_get ''tsi.pam_module'' (CStr ''unicore-tsi'')) (\<lambda>v.
        bnd (of_sum (as_str v)) (\<lambda>pam_module. pam_open_session S pam_module u)) else ret ()) w = (r, w\<lparr>pam_calls := c\<rparr>)"
    "r = Ret () \<or> (\<exists>e. r = Exc e)" "\<not> op \<Longrightarrow> c = pam_calls w \<and> r = Ret ()"
proof -
  let ?m = "if op then bnd (cfg_get ''tsi.pam_module'' (CStr ''unicore-tsi'')) (\<lambda>v.
        bnd (of_sum (as_str v)) (\<lambda>pam_module. pam_open_session S pam_module u)) else ret ()"
  have "\<exists>c r. ?m w = (r, w\<lparr>pam_calls := c\<rparr>) \<and> (r = Ret () \<or> (\<exists>e. r = Exc e)) \<and> (\<not> op \<longrightarrow> c = pam_calls w \<and> r = Ret ())"
  proof (cases op)
    case False
    then show ?thesis by (intro exI [of _ "pam_calls w"]) (simp add: run_simps)
  next
    case True
    obtain x where x: "(case config w ''tsi.pam_module'' of None \<Rightarrow> CStr ''unicore-tsi'' | Some v \<Rightarrow> v) = x" by blast
    show ?thesis
    proof (cases "as_str x")
      case (Inl e)
      with True x show ?thesis by (intro exI [of _ "pam_calls w"]) (simp add: run_simps)
    next
      case (Inr m)
      have same: "w = w\<lparr>pam_calls := pam_calls w\<rparr>" by simp
      from Inr True x same show ?thesis
        by (simp add: run_simps pam_open_session_run Let_def) (metis same)
    qed
  qed
  then show thesis using that by blast
qed

text \<open>What no request changes, and that output is only added.\<close>

definition kept :: "world \<Rightarrow> world \<Rightarrow> bool" where
  "kept w w' \<longleftrightarrow> config w' = config w \<and> length (ctl_in w') \<le> length (ctl_in w) \<and> now w' = now w \<and> wrote w w'"

lemma kept_refl [simp]: "kept w w"
  by (simp add: kept_def)

lemma kept_trans: "kept w v \<Longrightarrow> kept v x \<Longrightarrow> kept w x"
  using wrote_trans [of w v x] by (auto simp: kept_def)

lemma kept_upd [simp]:
  "kept w (w\<lparr>pam_calls := a\<rparr>)" "kept w (w\<lparr>ctl_out := ctl_out w @ out\<rparr>)" "kept w (w\<lparr>cwd := b\<rparr>)"
  "kept w (w\<lparr>cred := c, environ := e\<rparr>)"
  by (simp_all add: kept_def wrote_def)

lemma stays_kept: "stays S w w' \<Longrightarrow> kept w w'"
  by (simp add: stays_def kept_def)

lemma switching_kept: "switching S u w w' \<Longrightarrow> kept w w'"
  by (simp add: switching_def same_io_def kept_def wrote_def)

lemma switched_can_return:
  assumes "can_return S eu eg enforce fail w" and "switched S op u gs w = (r, w')"
  shows "can_return S eu eg enforce fail w' \<and> (\<forall>n. r \<noteq> Exit n) \<and> kept w w'"
proof -
  obtain c q where o: "(if op then bnd (cfg_get ''tsi.pam_module'' (CStr ''unicore-tsi'')) (\<lambda>v.
        bnd (of_sum (as_str v)) (\<lambda>pam_module. pam_open_session S pam_module u)) else ret ()) w = (q, w\<lparr>pam_calls := c\<rparr>)"
      "q = Ret () \<or> (\<exists>e. q = Exc e)"
    by (rule open_part_run)
  let ?v = "w\<lparr>pam_calls := c\<rparr>"
  obtain b v where b: "become_user (cache_ops S) u gs ?v = (b, v)" by fastforce
  have "can_return S eu eg enforce fail v" using become_user_can_return [of S eu eg enforce fail ?v u gs] b assms(1) by simp
  moreover have "switching S u ?v v" "\<forall>n. b \<noteq> Exit n"
    using within_run [OF switching_become_user b] within_no_exit [OF switching_become_user] b by blast+
  moreover have "kept w ?v" by simp
  ultimately show ?thesis using o b assms kept_trans [of w ?v v] switching_kept [of S u ?v v]
    by (auto simp: switched_def bnd_run ret_run split: outcome.splits)
qed

lemma run_request_can_return:
  assumes "can_return S eu eg enforce fail w" and "confined S (f msg)" and "run_request S op who f msg w = (r, w')"
  shows "can_return S eu eg enforce fail w' \<and> (\<forall>n. r \<noteq> Exit n) \<and> kept w w'"
proof -
  have f: "can_return S eu eg enforce fail x \<and> (\<forall>n. q \<noteq> Exit n) \<and> kept v x"
    if "can_return S eu eg enforce fail v" "f msg v = (q, x)" for q v x
    using within_run [OF assms(2) that(2)] within_no_exit [OF assms(2)] confined_can_return [OF that(1)] stays_kept that(2)
    by blast
  show ?thesis
  proof (cases who)
    case None
    then have "f msg w = (r, w')" using assms(3) by (simp add: run_request_eq)
    with f [OF assms(1)] show ?thesis by blast
  next
    case (Some p)
    obtain u gs where p: "p = (u, gs)" by fastforce
    obtain q v where s: "switched S op u gs w = (q, v)" by fastforce
    note sw = switched_can_return [OF assms(1) s]
    obtain q' x where x: "f msg v = (q', x)" by fastforce
    note fx = f [OF conjunct1 [OF sw] x]
    have "run_request S op who f msg w = bnd (switched S op u gs) (\<lambda>_. f msg) w" by (simp add: Some p run_request_eq)
    then have r: "(case q of Ret _ \<Rightarrow> (q', x) | Exc e \<Rightarrow> (Exc e, v) | Exit n \<Rightarrow> (Exit n, v) | Loops \<Rightarrow> (Loops, v)) = (r, w')"
      using s x assms(3) by (cases q) (simp_all add: bnd_run)
    with sw fx kept_trans [of w v x] show ?thesis by (cases q) auto
  qed
qed

text \<open>The \<open>try\<close> block: it ends normally unless the handler runs forever.\<close>

definition try_block :: "sys \<Rightarrow> bool \<Rightarrow> bool \<Rightarrow> (string \<Rightarrow> unit tsi) \<Rightarrow> string \<Rightarrow> bool tsi" where
  "try_block S sw op f msg =
     catch
       (bnd (request_identity sw op msg) (\<lambda>who.
        bnd (catch (run_request S op who f msg) (report_error S)) (\<lambda>_.
        ret True)))
       (\<lambda>e. bnd (report_error S e) (\<lambda>_. ret False))"

lemma try_block_run:
  assumes "can_return S eu eg enforce fail w" and "confined S (f msg)" and "try_block S sw op f msg w = (r, w')"
  shows "can_return S eu eg enforce fail w' \<and> (r \<noteq> Loops \<longrightarrow> (\<exists>b. r = Ret b)) \<and>
    kept w w'"
proof (cases rule: request_identity_pure [of sw op msg w])
  case (Err e)
  with assms show ?thesis by (auto simp: try_block_def catch_run bnd_run report_error_run ret_run)
next
  case (Ok who)
  obtain q v where q: "run_request S op who f msg w = (q, v)" by fastforce
  from run_request_can_return [OF assms(1,2) q] Ok q assms(3) kept_trans [OF _ kept_upd(2), of w v] show ?thesis
    by (auto simp: try_block_def catch_run bnd_run report_error_run ret_run split: outcome.splits)
qed

lemma handle_in_process_eq:
  "handle_in_process S sw op f command msg =
     bnd (try_block S sw op f msg) (\<lambda>bound.
     bnd (whenP (sw \<and> command \<noteq> ''_START_FORWARDING'')
       (bnd restore_id (\<lambda>_.
        whenP op (if bound then pam_close_session S else throw UnboundLocalError)))) (\<lambda>_.
     if op then leave 0 else ret ()))"
  by (simp add: handle_with_def try_block_def)

lemma handle_in_process_restores:
  assumes "can_return S eu eg enforce fail w" and "confined S (f msg)" and "command \<noteq> ''_START_FORWARDING''"
    and "handle_in_process S True False f command msg w = (r, w')" and "r \<noteq> Loops"
  shows "r = Ret () \<and> worker_ok S eu eg enforce fail w' \<and> kept w w'"
proof -
  obtain q v where q: "try_block S True False f msg w = (q, v)" by fastforce
  note t = try_block_run [OF assms(1,2) q]
  note v = restore_returns [OF conjunct1 [OF t]]
  from t q assms(3-5) v(1) v(2) [of "harmless_env (environ v)"] kept_trans [OF _ kept_upd(4), of w v] show ?thesis
    by (auto simp: handle_in_process_eq bnd_run ret_run whenP_def split: outcome.splits)
qed

lemma handle_in_process_env:
  assumes "can_return S eu eg enforce fail w" and "confined S (f msg)"
    and "handle_in_process S sw op f command msg w = (r, w')"
  shows "kept w w'"
proof -
  obtain q v where q: "try_block S sw op f msg w = (q, v)" by fastforce
  note t = try_block_run [OF assms(1,2) q]
  note v = restore_returns [OF conjunct1 [OF t]]
  have "kept w (v\<lparr>cred := own_identity eu eg (cred v), environ := harmless_env (environ v)\<rparr>)"
    using t kept_trans [OF _ kept_upd(4), of w v] by blast
  from t q assms(3) v(1) this kept_trans [OF this kept_upd(1)] show ?thesis
    by (auto simp: handle_in_process_eq bnd_run ret_run whenP_def throw_run leave_run pam_close_session_run
        split: outcome.splits if_splits)
qed

definition with_session :: "world \<Rightarrow> string \<Rightarrow> bool" where
  "with_session w command \<longleftrightarrow>
     (case config w ''tsi.open_user_sessions'' of None \<Rightarrow> False | Some v \<Rightarrow> truthy v) \<and> command \<in> set spawning_commands"

lemma not_forwarding: "(command, f) \<in> set (init_functions C S k) \<Longrightarrow> command \<noteq> ''_START_FORWARDING''"
  by (auto simp: init_functions_def)

lemma handle_function_run:
  assumes "id_config (config w) eu eg enforce fail" and "(command, f) \<in> set (init_functions C S k)"
  shows "handle_function S f command msg w =
    (if with_session w command then fork_and_wait (handle_in_process S True True f command msg) w
     else handle_in_process S True False f command msg w)"
  using assms(1) not_forwarding [OF assms(2)]
  by (auto simp: handle_function_with_def run_simps id_config_def with_session_def Let_def split: option.split)

lemma fork_and_wait_run:
  assumes "child w = (r, v)" and "r \<noteq> Loops"
  shows "fork_and_wait child w = (Ret (), v\<lparr>cred := cred w, config := config w, ucache := ucache w, environ := environ w,
      cwd := cwd w, child_pids := child_pids w\<rparr>)"
  using assms by (cases r) (simp_all add: fork_and_wait_def)

lemma worker_ok_fields:
  "cred w' = cred w \<Longrightarrow> config w' = config w \<Longrightarrow> ucache w' = ucache w \<Longrightarrow> now w' = now w \<Longrightarrow>
    worker_ok S eu eg enforce fail w' = worker_ok S eu eg enforce fail w"
  by (simp add: worker_ok_def cache_inv_def)

lemma handle_function_restores:
  assumes "worker_ok S eu eg enforce fail w" and "(command, f) \<in> set (init_functions C S k)"
    and "handle_function S f command msg w = (r, w')" and "r \<noteq> Loops"
  shows "r = Ret () \<and> worker_ok S eu eg enforce fail w' \<and> kept w w'"
proof -
  have f: "confined S (f msg)" by (rule init_functions_confined [OF assms(2)])
  have c: "id_config (config w) eu eg enforce fail" using assms(1) by (simp add: worker_ok_def)
  note w = worker_can_return [OF assms(1)]
  show ?thesis
  proof (cases "with_session w command")
    case False
    with assms(3) handle_function_run [OF c assms(2), of msg]
    have "handle_in_process S True False f command msg w = (r, w')" by simp
    from handle_in_process_restores [OF w f not_forwarding [OF assms(2)] this assms(4)] show ?thesis .
  next
    case True
    obtain q v where q: "handle_in_process S True True f command msg w = (q, v)" by fastforce
    have h: "fork_and_wait (handle_in_process S True True f command msg) w = (r, w')"
      using True assms(3) handle_function_run [OF c assms(2), of msg] by simp
    then have "q \<noteq> Loops" using q assms(4) by (auto simp: fork_and_wait_def)
    note fw = fork_and_wait_run [where child = "handle_in_process S True True f command msg", OF q this]
    from handle_in_process_env [OF w f q] fw h worker_ok_fields [of w' w] assms(1)
    show ?thesis by (auto simp: kept_def wrote_def)
  qed
qed

lemma find_command_in: "find_command C S k m = Some (c, f) \<Longrightarrow> (c, f) \<in> set (init_functions C S k)"
  unfolding find_command_def find_Some_iff by (metis nth_mem)

lemma worker_ok_upd [simp]:
  "worker_ok S eu eg enforce fail (w\<lparr>ctl_out := a\<rparr>) = worker_ok S eu eg enforce fail w"
  "worker_ok S eu eg enforce fail (w\<lparr>ctl_in := b\<rparr>) = worker_ok S eu eg enforce fail w"
  "worker_ok S eu eg enforce fail (w\<lparr>cwd := c\<rparr>) = worker_ok S eu eg enforce fail w"
  "worker_ok S eu eg enforce fail (w\<lparr>child_pids := d\<rparr>) = worker_ok S eu eg enforce fail w"
  by (simp_all add: worker_ok_def cache_inv_def)

definition dispatch :: "connector \<Rightarrow> sys \<Rightarrow> bss_kind \<Rightarrow> string \<Rightarrow> unit tsi" where
  "dispatch C S k message =
     (case find_command C S k message of
        None \<Rightarrow> failed (Some ''Unknown #TSI_* command'')
      | Some (command, function) \<Rightarrow>
          (if command = ''TSI_PING'' then ping else handle_function S function command message))"

lemma dispatch_restores:
  assumes "worker_ok S eu eg enforce fail w" and "dispatch C S k m w = (r, w')" and "r \<noteq> Loops"
  shows "r = Ret () \<and> worker_ok S eu eg enforce fail w' \<and> kept w w'"
proof (cases "find_command C S k m")
  case None
  with assms show ?thesis by (auto simp: dispatch_def run_simps)
next
  case (Some cf)
  obtain c f where cf: "cf = (c, f)" by fastforce
  show ?thesis
  proof (cases "c = ''TSI_PING''")
    case True
    with assms Some cf show ?thesis by (auto simp: dispatch_def ping_def run_simps)
  next
    case False
    with assms(2) Some cf have "handle_function S f c m w = (r, w')" by (simp add: dispatch_def)
    from handle_function_restores [OF assms(1) find_command_in this assms(3)] Some cf show ?thesis by blast
  qed
qed

lemma process_request_eq: "process_request C S k m = bnd (cfg_str ''tsi.safe_dir'') (\<lambda>d. bnd (os_chdir d) (\<lambda>_.
    bnd (dispatch C S k m) (\<lambda>_. write_message (Some ''ENDOFMESSAGE''))))"
  by (simp add: process_request_def dispatch_def)

lemma process_request_restores:
  assumes "worker_ok S eu eg enforce fail w" and "process_request C S k m w = (r, w')" and "r \<noteq> Loops"
  shows "(r = Ret () \<or> (\<exists>e. r = Exc e)) \<and> worker_ok S eu eg enforce fail w' \<and> kept w w'"
proof (cases "\<exists>d es me. cfg_str ''tsi.safe_dir'' w = (Ret d, w) \<and> files w (abs_path w d) = Some (FDir es me)")
  case False
  then have "r \<noteq> Loops \<and> (\<exists>e. r = Exc e) \<and> w' = w" using assms(2)
    by (auto simp: process_request_eq bnd_run cfg_str_run os_chdir_def split: option.splits sum.splits fnode.splits)
  with assms(1) show ?thesis by auto
next
  case True
  then obtain d es me where d: "cfg_str ''tsi.safe_dir'' w = (Ret d, w)" "files w (abs_path w d) = Some (FDir es me)" by blast
  let ?v = "w\<lparr>cwd := abs_path w d\<rparr>"
  obtain q x where q: "dispatch C S k m ?v = (q, x)" by fastforce
  have o: "os_chdir d w = (Ret (), ?v)" using d(2) by (simp add: os_chdir_def)
  have v: "worker_ok S eu eg enforce fail ?v" using assms(1) by simp
  have p: "process_request C S k m w = (case q of Ret _ \<Rightarrow> write_message (Some ''ENDOFMESSAGE'') x
      | Exc e \<Rightarrow> (Exc e, x) | Exit n \<Rightarrow> (Exit n, x) | Loops \<Rightarrow> (Loops, x))"
    by (simp add: process_request_eq bnd_run d(1) o q)
  have l: "q \<noteq> Loops" using assms(2,3) p by auto
  from dispatch_restores [OF v q l] p assms(2) show ?thesis
    by (auto simp: run_simps intro: kept_trans [OF kept_trans [OF kept_upd(3)] kept_upd(2)])
qed

section \<open>The loop\<close>

lemma read_lines_shape:
  "(\<exists>rest. read_lines m s = (Inl (OSError ''Socket closed''), rest)) \<or> (\<exists>m' rest. read_lines m s = (Inr m', rest) \<and> length rest < length s)"
proof (induction m s rule: read_lines.induct)
  case (1 m s)
  show ?case
  proof (cases "length (fst (readline s)) = 0 \<or> fst (readline s) = ''ENDOFMESSAGE'' @ [NL]")
    case True
    moreover have "length (snd (readline s)) < length s" if "fst (readline s) \<noteq> []"
      using that readline_empty_iff [of s] readline_shorter [of s] by blast
    ultimately show ?thesis by (subst (1 2) read_lines.simps) (auto simp: Let_def)
  next
    case False
    then have "length (snd (readline s)) < length s" using readline_empty_iff [of s] readline_shorter [of s] by simp
    moreover have "read_lines m s = read_lines (m @ fst (readline s)) (snd (readline s))"
      using False by (subst read_lines.simps) (simp add: Let_def)
    ultimately show ?thesis using 1 False by (metis less_trans)
  qed
qed

lemma next_message_cases:
  obtains (Closed) rest where "next_message C w = (Ret None, w\<lparr>ctl_in := rest\<rparr>)" "C = Sockets"
  | (Message) m rest where "next_message C w = (Ret (Some m), w\<lparr>ctl_in := rest\<rparr>)" "length rest \<le> length (ctl_in w)"
      "C = Sockets \<longrightarrow> length rest < length (ctl_in w)"
proof (cases C)
  case Sockets
  then show thesis using read_lines_shape [of "[]" "ctl_in w"] that
    by (auto simp: next_message_def read_message_def run_simps only_oserror_def)
next
  case Streams
  obtain m rest where "stream_read_message ''ENDOFMESSAGE'' w = (Ret m, w\<lparr>ctl_in := rest\<rparr>)" "length rest \<le> length (ctl_in w)"
    by (rule stream_read_message_run)
  with Streams show thesis by (intro Message [of m rest]) (auto simp: next_message_def run_simps)
qed

text \<open>One round of the loop, after the children were cleaned up.\<close>

lemma process_loop_Suc:
  "process_loop (Suc n) C S k o1 w =
    (let v = w\<lparr>child_pids := cleanup_loop (waitpid S (trace w)) 0 (child_pids w)\<rparr> in
     bnd (next_message C) (\<lambda>m. case m of
       None \<Rightarrow> ret ()
     | Some message \<Rightarrow>
         bnd (process_request C S k message) (\<lambda>_.
         bnd (cfg_get ''tsi.testing'' (CBool False)) (\<lambda>testing.
         if o1 \<or> truthy testing then ret () else process_loop n C S k o1))) v)"
  by (simp add: cleanup_def bnd_run [of "modify f" for f] modify_run Let_def del: bnd_run)

definition stop_after :: "bool \<Rightarrow> world \<Rightarrow> bool" where
  "stop_after o1 w \<longleftrightarrow> o1 \<or> truthy (case config w ''tsi.testing'' of None \<Rightarrow> CBool False | Some v \<Rightarrow> v)"

lemma process_loop_cases:
  obtains (Closed) c v where "process_loop (Suc n) C S k o1 w = (Ret (), v)" "next_message C (w\<lparr>child_pids := c\<rparr>) = (Ret None, v)"
      "c = cleanup_loop (waitpid S (trace w)) 0 (child_pids w)"
  | (Request) c m v where "next_message C (w\<lparr>child_pids := c\<rparr>) = (Ret (Some m), v)"
      "C = Sockets \<longrightarrow> length (ctl_in v) < length (ctl_in w)"
      "c = cleanup_loop (waitpid S (trace w)) 0 (child_pids w)" "v = w\<lparr>child_pids := c, ctl_in := ctl_in v\<rparr>"
      "process_loop (Suc n) C S k o1 w =
        (case process_request C S k m v of
           (Ret _, x) \<Rightarrow> if stop_after o1 x then (Ret (), x) else process_loop n C S k o1 x
         | (Exc e, x) \<Rightarrow> (Exc e, x) | (Exit j, x) \<Rightarrow> (Exit j, x) | (Loops, x) \<Rightarrow> (Loops, x))"
proof -
  define c where "c = cleanup_loop (waitpid S (trace w)) 0 (child_pids w)"
  show thesis
  proof (cases rule: next_message_cases [of C "w\<lparr>child_pids := c\<rparr>"])
    case (Closed rest)
    have "process_loop (Suc n) C S k o1 w = (Ret (), w\<lparr>child_pids := c, ctl_in := rest\<rparr>)"
      unfolding process_loop_Suc Let_def c_def [symmetric] bnd_step [where m = "next_message C", OF Closed(1)] option.case by (simp add: ret_run)
    then show thesis using Closed(1) by (rule that(1)) (simp add: c_def)
  next
    case (Message m rest)
    let ?v = "w\<lparr>child_pids := c, ctl_in := rest\<rparr>"
    have "process_loop (Suc n) C S k o1 w = bnd (process_request C S k m) (\<lambda>_.
         bnd (cfg_get ''tsi.testing'' (CBool False)) (\<lambda>testing.
         if o1 \<or> truthy testing then ret () else process_loop n C S k o1)) ?v"
      unfolding process_loop_Suc Let_def c_def [symmetric] bnd_step [where m = "next_message C", OF Message(1)] option.case by simp
    also have "\<dots> = (case process_request C S k m ?v of
           (Ret _, x) \<Rightarrow> if stop_after o1 x then (Ret (), x) else process_loop n C S k o1 x
         | (Exc e, x) \<Rightarrow> (Exc e, x) | (Exit j, x) \<Rightarrow> (Exit j, x) | (Loops, x) \<Rightarrow> (Loops, x))"
      unfolding bnd_run by (cases "process_request C S k m ?v") (simp add: cfg_get_run stop_after_def ret_run split: outcome.split)
    finally show thesis using that(2) [of c m ?v] Message by (simp add: c_def)
  qed
qed

lemma process_loop_restores:
  assumes "worker_ok S eu eg enforce fail w" and "process_loop n C S k o1 w = (r, w')" and "r \<noteq> Loops"
  shows "(r = Ret () \<or> (\<exists>e. r = Exc e)) \<and> worker_ok S eu eg enforce fail w' \<and> config w' = config w"
  using assms
proof (induction n arbitrary: w)
  case 0
  then show ?case by (simp add: diverge_def)
next
  case (Suc n)
  show ?case
  proof (cases rule: process_loop_cases [where n = n and C = C and S = S and k = k and ?o1.0 = o1 and w = w])
    case (Closed c v)
    from Closed(2) obtain rest where "v = w\<lparr>child_pids := c, ctl_in := rest\<rparr>"
      by (cases rule: next_message_cases [of C "w\<lparr>child_pids := c\<rparr>"]) auto
    with Closed Suc.prems show ?thesis by auto
  next
    case (Request c m v)
    obtain q x where q: "process_request C S k m v = (q, x)" by fastforce
    have v: "worker_ok S eu eg enforce fail v" "config v = config w" using Suc.prems(1) by (subst Request(4), simp)+
    have "q \<noteq> Loops" using Request(5) q Suc.prems(2,3) by auto
    note pr = process_request_restores [OF v(1) q this]
    then have cx: "config x = config w" using v(2) by (simp add: kept_def)
    show ?thesis
    proof (cases "\<exists>y. q = Ret y \<and> \<not> stop_after o1 x")
      case True
      then have "process_loop n C S k o1 x = (r, w')" using Request(5) q Suc.prems(2) by auto
      from Suc.IH [OF _ this Suc.prems(3)] pr cx show ?thesis by auto
    next
      case False
      then have "(r = Ret () \<or> (\<exists>e. r = Exc e)) \<and> w' = x" using Request(5) q Suc.prems(2) pr by (auto split: if_splits)
      with pr cx show ?thesis by auto
    qed
  qed
qed

section \<open>Who the commands of a request run as\<close>

definition runs_for :: "sys \<Rightarrow> world \<Rightarrow> bool \<Rightarrow> bool \<Rightarrow> string \<Rightarrow> cred \<Rightarrow> bool" where
  "runs_for S w enforce fail u c \<longleftrightarrow>
     user_answer S w u \<noteq> None \<and> ruid c = uid_of (user_answer S w u) \<and> euid c = uid_of (user_answer S w u) \<and> euid c \<noteq> 0 \<and>
     (enforce \<and> fail \<longrightarrow> rgid c \<in> own_groups (user_answer S w u) \<and> egid c \<in> own_groups (user_answer S w u) \<and>
        set (groups c) \<subseteq> own_groups (user_answer S w u))"

lemma become_user_runs_for:
  assumes "cache_inv S w" and "id_config (config w) eu eg enforce fail" and "become_user (cache_ops S) u gs w = (Ret b, w')"
  shows "runs_for S w enforce fail u (cred w')"
proof (rule cache.become_user_checked [OF assms])
  fix uid gid l
  assume p: "plan_identity enforce fail u (user_answer S w u) (group_answer S w) gs = Inr (uid, gid, l)"
    and c: "ruid (cred w') = uid" "euid (cred w') = uid" "rgid (cred w') = gid" "egid (cred w') = gid" "set (groups (cred w')) = set l"
  have "gid \<in> own_groups (user_answer S w u) \<and> set l \<subseteq> own_groups (user_answer S w u)" if "enforce \<and> fail"
    using that p plan_identity_own [of u "user_answer S w u" "group_answer S w" gs uid gid l] by auto
  with plan_identity_uid [OF p] c show ?thesis
    by (cases "user_answer S w u") (auto simp: runs_for_def uid_of_def)
qed

lemma user_answer_upd [simp]:
  "user_answer S (w\<lparr>pam_calls := c\<rparr>) = user_answer S w" "user_answer S (w\<lparr>cwd := d\<rparr>) = user_answer S w"
  by (rule ext, simp add: user_answer_def live_def fresh_entry_def fresh_gids_def cong: option.case_cong cval.case_cong)+

lemma runs_for_cwd [simp]: "runs_for S (w\<lparr>cwd := d\<rparr>) = runs_for S w"
  by (intro ext) (simp add: runs_for_def)

text \<open>The commands a request starts: lookups for the user, then commands with the identity of the user.\<close>

definition request_trace :: "sys \<Rightarrow> world \<Rightarrow> bool \<Rightarrow> bool \<Rightarrow> string \<Rightarrow> event list \<Rightarrow> bool" where
  "request_trace S w enforce fail msg l \<longleftrightarrow>
     (case identity_of msg of
        None \<Rightarrow> l = []
      | Some (u, _) \<Rightarrow> (\<exists>ids evs. l = ids @ evs \<and> (\<forall>e \<in> set ids. ev_argv e = id_argv u) \<and>
          (\<forall>e \<in> set evs. runs_for S w enforce fail u (ev_cred e))))"

lemma request_traceI:
  "identity_of msg = Some (u, g) \<Longrightarrow> \<forall>e \<in> set ids. ev_argv e = id_argv u \<Longrightarrow>
    \<forall>e \<in> set evs. runs_for S w enforce fail u (ev_cred e) \<Longrightarrow> request_trace S w enforce fail msg (ids @ evs)"
  by (auto simp: request_trace_def)

lemma request_trace_Nil: "request_trace S w enforce fail msg []"
  by (simp add: request_trace_def split: option.split)

lemma switched_trace:
  assumes "worker_ok S eu eg enforce fail w" and "switched S op u gs w = (q, v)"
  shows "\<exists>ids. trace v = trace w @ ids \<and> (\<forall>e \<in> set ids. ev_argv e = id_argv u) \<and>
    (\<forall>y. q = Ret y \<longrightarrow> runs_for S w enforce fail u (cred v))"
proof -
  obtain c p where o: "(if op then bnd (cfg_get ''tsi.pam_module'' (CStr ''unicore-tsi'')) (\<lambda>v.
        bnd (of_sum (as_str v)) (\<lambda>pam_module. pam_open_session S pam_module u)) else ret ()) w = (p, w\<lparr>pam_calls := c\<rparr>)"
      "p = Ret () \<or> (\<exists>e. p = Exc e)"
    by (rule open_part_run)
  let ?v = "w\<lparr>pam_calls := c\<rparr>"
  obtain b x where b: "become_user (cache_ops S) u gs ?v = (b, x)" by fastforce
  have "switching S u ?v x" using within_run [OF switching_become_user b] .
  then obtain ids where ids: "trace x = trace w @ ids" "\<forall>e \<in> set ids. ev_argv e = id_argv u" by (auto simp: switching_def)
  have inv: "cache_inv S ?v" "id_config (config ?v) eu eg enforce fail" using assms(1) by (simp_all add: worker_ok_def cache_inv_def)
  have r: "runs_for S w enforce fail u (cred x)" if "b = Ret y" for y
    using become_user_runs_for [OF inv b [unfolded that]] by (simp add: runs_for_def)
  show ?thesis
  proof (cases "p = Ret ()")
    case True
    with o b assms(2) have "v = x \<and> (\<forall>y. q = Ret y \<longrightarrow> (\<exists>z. b = Ret z))"
      by (auto simp: switched_def bnd_run ret_run split: outcome.splits)
    with ids r show ?thesis by auto
  next
    case False
    with o assms(2) have "trace v = trace w \<and> (\<forall>y. q \<noteq> Ret y)" by (auto simp: switched_def bnd_run)
    then show ?thesis by (intro exI [of _ "[]"]) simp
  qed
qed

lemma run_request_trace:
  assumes "worker_ok S eu eg enforce fail w" and "confined S (f msg)" and "identity_of msg = Some (u, g)"
    and "run_request S op (Some (u, gs)) f msg w = (r, w')"
  shows "\<exists>l. trace w' = trace w @ l \<and> request_trace S w enforce fail msg l"
proof -
  obtain q v where s: "switched S op u gs w = (q, v)" by fastforce
  obtain ids where ids: "trace v = trace w @ ids" "\<forall>e \<in> set ids. ev_argv e = id_argv u"
      "\<forall>y. q = Ret y \<longrightarrow> runs_for S w enforce fail u (cred v)"
    using switched_trace [OF assms(1) s] by blast
  show ?thesis
  proof (cases "\<exists>y. q = Ret y")
    case True
    then have "f msg v = (r, w')" using assms(4) s by (auto simp: run_request_eq bnd_run)
    then have "ran_as (cred v) v w'" using within_run [OF assms(2)] by (auto simp: stays_def)
    then obtain evs where "trace w' = trace v @ evs" "\<forall>e \<in> set evs. ev_cred e = cred v" by (auto simp: ran_as_def)
    with True ids assms(3) show ?thesis
      by (intro exI [of _ "ids @ evs"]) (auto intro!: request_traceI)
  next
    case False
    then have "w' = v" using assms(4) s by (cases q) (auto simp: run_request_eq bnd_run)
    with ids assms(3) show ?thesis
      using request_traceI [of msg u g ids "[]"] by (intro exI [of _ ids]) simp
  qed
qed

lemma try_block_trace:
  assumes "worker_ok S eu eg enforce fail w" and "confined S (f msg)" and "try_block S True op f msg w = (r, w')"
  shows "\<exists>l. trace w' = trace w @ l \<and> request_trace S w enforce fail msg l"
proof (cases rule: request_identity_pure [of True op msg w])
  case (Err e)
  with assms(3) have "trace w' = trace w" by (auto simp: try_block_def catch_run bnd_run report_error_run ret_run)
  then show ?thesis by (intro exI [of _ "[]"]) (simp add: request_trace_Nil)
next
  case (Ok who)
  then obtain u g where i: "identity_of msg = Some (u, g)" "who = Some (u, split_ch (CHR '':'') g)"
    by (cases "identity_of msg") (auto simp: request_identity_def run_simps split: outcome.splits prod.splits)
  obtain q v where q: "run_request S op who f msg w = (q, v)" by fastforce
  have "trace w' = trace v" using assms(3) Ok q
    by (auto simp: try_block_def catch_run bnd_run report_error_run ret_run split: outcome.splits)
  with run_request_trace [OF assms(1,2) i(1) q [unfolded i(2)]] show ?thesis by simp
qed

lemma handle_in_process_trace:
  assumes "worker_ok S eu eg enforce fail w" and "confined S (f msg)" and "handle_in_process S True op f command msg w = (r, w')"
  shows "\<exists>l. trace w' = trace w @ l \<and> request_trace S w enforce fail msg l"
proof -
  obtain q v where q: "try_block S True op f msg w = (q, v)" by fastforce
  note t = try_block_run [OF worker_can_return [OF assms(1)] assms(2) q]
  note v = restore_returns(1) [OF conjunct1 [OF t]]
  have "trace w' = trace v" using t q assms(3) v
    by (auto simp: handle_in_process_eq bnd_run ret_run whenP_def throw_run leave_run pam_close_session_run
        split: outcome.splits if_splits)
  with try_block_trace [OF assms(1,2) q] show ?thesis by simp
qed

lemma dispatch_trace:
  assumes "worker_ok S eu eg enforce fail w" and "dispatch C S k m w = (r, w')"
  shows "\<exists>l. trace w' = trace w @ l \<and> request_trace S w enforce fail m l"
proof (cases "find_command C S k m")
  case None
  with assms have "trace w' = trace w" by (auto simp: dispatch_def run_simps)
  then show ?thesis by (intro exI [of _ "[]"]) (simp add: request_trace_Nil)
next
  case (Some cf)
  obtain c f where cf: "cf = (c, f)" by fastforce
  then have tab: "(c, f) \<in> set (init_functions C S k)" using Some find_command_in by simp
  note f = init_functions_confined [OF tab, of m]
  have cfg: "id_config (config w) eu eg enforce fail" using assms(1) by (simp add: worker_ok_def)
  show ?thesis
  proof (cases "c = ''TSI_PING''")
    case True
    with assms Some cf have "trace w' = trace w" by (auto simp: dispatch_def ping_def run_simps)
    then show ?thesis by (intro exI [of _ "[]"]) (simp add: request_trace_Nil)
  next
    case False
    with assms(2) Some cf have h: "handle_function S f c m w = (r, w')" by (simp add: dispatch_def)
    obtain q v where q: "handle_in_process S True (with_session w c) f c m w = (q, v)" by fastforce
    then have "trace w' = trace v" using h handle_function_run [OF cfg tab, of m]
      by (cases "with_session w c"; cases q) (auto simp: fork_and_wait_def)
    with handle_in_process_trace [OF assms(1) f q] show ?thesis by simp
  qed
qed

lemma process_request_dispatch:
  obtains (Bad) e where "process_request C S k m w = (Exc e, w)"
  | (Run) d r x where "dispatch C S k m (w\<lparr>cwd := d\<rparr>) = (r, x)" "process_request C S k m w = (case r of
        Ret _ \<Rightarrow> (Ret (), x\<lparr>ctl_out := ctl_out x @ ''ENDOFMESSAGE'' @ [NL]\<rparr>)
      | Exc e \<Rightarrow> (Exc e, x) | Exit n \<Rightarrow> (Exit n, x) | Loops \<Rightarrow> (Loops, x))"
proof -
  obtain p v where p: "bnd (cfg_str ''tsi.safe_dir'') os_chdir w = (p, v)" by fastforce
  then have c: "(\<exists>e. p = Exc e \<and> v = w) \<or> (\<exists>d. p = Ret () \<and> v = w\<lparr>cwd := d\<rparr>)"
    by (auto simp: bnd_run cfg_str_run os_chdir_def split: option.splits sum.splits fnode.splits)
  have e: "process_request C S k m w = bnd (bnd (cfg_str ''tsi.safe_dir'') os_chdir) (\<lambda>_.
      bnd (dispatch C S k m) (\<lambda>_. write_message (Some ''ENDOFMESSAGE''))) w"
    by (simp add: process_request_eq bnd_assoc)
  show thesis
  proof (cases "p = Ret ()")
    case True
    with c obtain d where d: "v = w\<lparr>cwd := d\<rparr>" by auto
    obtain r x where r: "dispatch C S k m v = (r, x)" by fastforce
    have "process_request C S k m w = bnd (dispatch C S k m) (\<lambda>_. write_message (Some ''ENDOFMESSAGE'')) v"
      unfolding e using p True by (simp add: bnd_run [of "bnd a b" for a b])
    then show thesis using r d by (intro Run [of d r x]) (simp_all add: bnd_run write_message_run split: outcome.split)
  next
    case False
    with c p have "process_request C S k m w = (p, w)" unfolding e by (auto simp: bnd_run [of "bnd a b" for a b])
    with c False Bad show thesis by auto
  qed
qed

section \<open>Properties\<close>

subsection \<open>A sample worker\<close>

definition sample_request :: string where
  "sample_request = ''#TSI_EXECUTESCRIPT'' @ [NL] @ ''#TSI_IDENTITY alice hpc:DEFAULT_GID'' @ [NL]"

definition sample_worker :: "bool \<Rightarrow> string \<Rightarrow> world" where
  "sample_worker pam input = (sample_world True)\<lparr>
     config := (sample_config True)(''tsi.safe_dir'' \<mapsto> CStr ''/'', ''tsi.open_user_sessions'' \<mapsto> CBool pam),
     files := [''/'' \<mapsto> FDir [] \<lparr>st_mode = 16877, st_uid = 0, st_gid = 0, st_mtime = 0\<rparr>], ctl_in := input\<rparr>"

lemma sample_worker_ok: "worker_ok sample_sys 0 0 True True (sample_worker pam input)"
proof -
  have "cache_inv sample_sys (sample_worker pam input)" using sample_inv [of True]
    by (simp add: cache_inv_def sample_worker_def sample_world_def)
  moreover have "id_config (config (sample_worker pam input)) 0 0 True True" using sample_id_config [of True]
    by (simp add: id_config_def sample_worker_def sample_config_def)
  moreover have "cred (sample_worker pam input) = root_cred" by (simp add: sample_worker_def)
  ultimately show ?thesis by (simp add: worker_ok_def privileged_def root_cred_def)
qed

lemma sample_identity: "identity_of sample_request = Some (''alice'', ''hpc:DEFAULT_GID'')"
  by code_simp

lemma find_command_contains:
  "find_command C S k m = find (\<lambda>(cmd, _). contains m (''#'' @ cmd @ [NL])) (init_functions C S k)"
proof -
  have "(re_search ([star dot] @ lit w) m \<noteq> None) = contains m w" for w using re_search_dots_lit [of w m] by simp
  then show ?thesis by (simp only: find_command_def)
qed

lemma sample_command: "find_command C S k sample_request = Some (''TSI_EXECUTESCRIPT'', execute_script S)"
proof -
  have "\<not> contains sample_request (''#'' @ ''TSI_PING'' @ [NL])" "\<not> contains sample_request (''#'' @ ''TSI_PING_UID'' @ [NL])"
    "\<not> contains sample_request (''#'' @ ''TSI_GET_USER_INFO'' @ [NL])" "contains sample_request (''#'' @ ''TSI_EXECUTESCRIPT'' @ [NL])"
    by code_simp+
  then show ?thesis by (simp add: find_command_contains init_functions_def)
qed

subsection \<open>Identity\<close>

lemma process_request_trace:
  assumes "worker_ok S eu eg enforce fail w" and "process_request C S k m w = (r, w')"
  shows "\<exists>l. trace w' = trace w @ l \<and> request_trace S w enforce fail m l"
proof (cases rule: process_request_dispatch [of C S k m w])
  case (Bad e)
  with assms(2) show ?thesis by (intro exI [of _ "[]"]) (simp add: request_trace_Nil)
next
  case (Run d q x)
  have "worker_ok S eu eg enforce fail (w\<lparr>cwd := d\<rparr>)" using assms(1) by simp
  from dispatch_trace [OF this Run(1)] obtain l where l: "trace x = trace w @ l"
      "request_trace S (w\<lparr>cwd := d\<rparr>) enforce fail m l" by auto
  have "trace w' = trace x" using Run(2) assms(2) by (cases q) auto
  moreover have "request_trace S w enforce fail m l" using l(2) unfolding request_trace_def runs_for_cwd .
  ultimately show ?thesis using l(1) by auto
qed

text \<open>
  C3: No request makes a worker run a command with an identity that is not that of the requesting user.
  Whatever the request and however it ends, the commands started for it are lookups of the user's groups
  (\<open>id -G\<close>), followed only by commands whose real and effective user is the requested, known, non-root
  user, with sanctioned groups if the configuration enforces them; a request without an identity starts
  no command at all.
\<close>

theorem request_commands_run_as_user:
  assumes "worker_ok S eu eg enforce fail w" and "process_request C S k m w = (r, w')"
  shows "\<exists>l. trace w' = trace w @ l \<and> request_trace S w enforce fail m l"
  using assms by (rule process_request_trace)

theorem request_commands_run_as_user_witness:
  "\<exists>l. trace (snd (process_request Sockets sample_sys Slurm sample_request (sample_worker False []))) = l \<and>
     request_trace sample_sys (sample_worker False []) True True sample_request l"
proof -
  obtain r w' where r: "process_request Sockets sample_sys Slurm sample_request (sample_worker False []) = (r, w')" by fastforce
  from request_commands_run_as_user [OF sample_worker_ok this] r show ?thesis by (simp add: sample_worker_def)
qed



subsection \<open>Replies\<close>


text \<open>
  C28: A request that names none of the commands is refused with one error line; nothing else happens: no
  identity is taken on, no command is started, no file is touched.
\<close>

theorem unknown_command_refused:
  assumes "\<forall>c \<in> fst ` set (init_functions C S k). \<not> contains m (''#'' @ c @ [NL])"
    and "config w ''tsi.safe_dir'' = Some (CStr d)" and "files w (abs_path w d) = Some (FDir es me)"
  shows "process_request C S k m w = (Ret (), w\<lparr>cwd := abs_path w d,
    ctl_out := ctl_out w @ ''TSI_FAILED: Unknown #TSI_* command'' @ [NL] @ ''ENDOFMESSAGE'' @ [NL]\<rparr>)"
proof -
  have "find_command C S k m = None"
    using assms(1) unfolding find_command_contains find_None_iff by fastforce
  then show ?thesis using assms(2,3)
    by (simp add: process_request_def run_simps os_chdir_def)
qed

text \<open>The bound on the rounds: any two that exceed the length of the input agree.\<close>

lemma request_step:
  assumes "worker_ok S eu eg enforce fail w" and "v = w\<lparr>child_pids := c, ctl_in := ctl_in v\<rparr>"
    and "process_request C S k m v = (Ret y, x)"
  shows "worker_ok S eu eg enforce fail x \<and> length (ctl_in x) \<le> length (ctl_in v)"
proof -
  have "worker_ok S eu eg enforce fail v" using assms(1) by (subst assms(2)) simp
  from process_request_restores [OF this assms(3)] show ?thesis by (simp add: kept_def)
qed

lemma process_loop_bound:
  assumes "worker_ok S eu eg enforce fail w" and "length (ctl_in w) < n" and "length (ctl_in w) < j" and c1: "C = Sockets \<or> o1"
  shows "process_loop n C S k o1 w = process_loop j C S k o1 w"
  using assms(1-3)
proof (induction n arbitrary: w j)
  case 0
  then show ?case by simp
next
  case (Suc n)
  obtain j' where j: "j = Suc j'" using Suc.prems(3) by (cases j) auto
  define c where "c = cleanup_loop (waitpid S (trace w)) 0 (child_pids w)"
  have eq: "process_loop (Suc i) C S k o1 w = bnd (next_message C) (\<lambda>m. case m of None \<Rightarrow> ret () | Some message \<Rightarrow>
      bnd (process_request C S k message) (\<lambda>_. bnd (cfg_get ''tsi.testing'' (CBool False)) (\<lambda>testing.
      if o1 \<or> truthy testing then ret () else process_loop i C S k o1))) (w\<lparr>child_pids := c\<rparr>)" for i
    by (simp only: process_loop_Suc Let_def c_def)
  show ?case unfolding j
  proof (cases rule: process_loop_cases [where n = n and C = C and S = S and k = k and ?o1.0 = o1 and w = w])
    case (Closed c1 v)
    have "next_message C (w\<lparr>child_pids := c\<rparr>) = (Ret None, v)" using Closed(2,3) c_def by simp
    note st = bnd_step [where m = "next_message C", OF this]
    show "process_loop (Suc n) C S k o1 w = process_loop (Suc j') C S k o1 w"
      unfolding eq st option.case by (rule refl)
  next
    case (Request c1 m v)
    have "next_message C (w\<lparr>child_pids := c\<rparr>) = (Ret (Some m), v)" using Request(1,3) c_def by simp
    note st = bnd_step [where m = "next_message C", OF this]
    have IH: "\<not> o1 \<Longrightarrow> process_loop n C S k o1 x = process_loop j' C S k o1 x" if "process_request C S k m v = (Ret y, x)" for x y
      using c1 Suc.IH [of x j'] request_step [OF Suc.prems(1) Request(4) that] Request(2) Suc.prems(2,3) j by auto
    show "process_loop (Suc n) C S k o1 w = process_loop (Suc j') C S k o1 w"
      unfolding eq st option.case using IH by (cases "process_request C S k m v") (auto simp: bnd_run cfg_get_run ret_run split: outcome.split)
  qed
qed

lemma process_loop_Loops:
  assumes "worker_ok S eu eg enforce fail w" and "length (ctl_in w) < n" and "fst (process_loop n C S k o1 w) = Loops"
    and c1: "C = Sockets \<or> o1"
  shows "\<exists>m v. worker_ok S eu eg enforce fail v \<and> fst (process_request C S k m v) = Loops"
  using assms(1-3)
proof (induction n arbitrary: w)
  case 0
  then show ?case by simp
next
  case (Suc n)
  show ?case
  proof (cases rule: process_loop_cases [where n = n and C = C and S = S and k = k and ?o1.0 = o1 and w = w])
    case (Closed c v)
    with Suc.prems(3) show ?thesis by simp
  next
    case (Request c m v)
    have v: "worker_ok S eu eg enforce fail v" using Suc.prems(1) by (subst Request(4)) simp
    obtain q x where q: "process_request C S k m v = (q, x)" by fastforce
    show ?thesis
    proof (cases "\<exists>y. q = Ret y \<and> \<not> stop_after o1 x")
      case True
      then obtain y where y: "q = Ret y" by blast
      have so: "C = Sockets" using True c1 by (auto simp: stop_after_def)
      have "fst (process_loop n C S k o1 x) = Loops" using Request(5) q True Suc.prems(3) by auto
      with Suc.IH [of x] request_step [OF Suc.prems(1) Request(4) q [unfolded y]] Request(2) so Suc.prems(2)
      show ?thesis by simp
    next
      case False
      then have "q = Loops" using Request(5) q Suc.prems(3) by (cases q) auto
      with v q show ?thesis by (metis fst_conv)
    qed
  qed
qed

theorem unknown_command_refused_witness:
  "fst (process_request Sockets sample_sys Slurm ''#TSI_FOO'' (sample_worker False [])) = Ret () \<and>
   ctl_out (snd (process_request Sockets sample_sys Slurm ''#TSI_FOO'' (sample_worker False []))) =
     ''TSI_FAILED: Unknown #TSI_* command'' @ [NL] @ ''ENDOFMESSAGE'' @ [NL] \<and>
   trace (snd (process_request Sockets sample_sys Slurm ''#TSI_FOO'' (sample_worker False []))) = []"
proof -
  have "\<not> contains ''#TSI_FOO'' (''#'' @ c @ [NL])" for c
  proof
    assume "contains ''#TSI_FOO'' (''#'' @ c @ [NL])"
    then have "NL \<in> set ''#TSI_FOO''" unfolding contains_iff by fastforce
    then show False by simp
  qed
  then have n: "\<forall>c \<in> fst ` set (init_functions Sockets sample_sys Slurm). \<not> contains ''#TSI_FOO'' (''#'' @ c @ [NL])" by blast
  from unknown_command_refused [OF n, of "sample_worker False []" "''/''"] show ?thesis
    by (simp add: sample_worker_def abs_path_def)
qed

text \<open>
  C29: The command of a request is found by searching its whole text in the order of the table, so a
  request whose text contains the line end of \<open>#TSI_PING\<close> anywhere, such as in the job script it carries,
  is answered with the version and nothing else is done, whatever its other lines ask for.
\<close>

theorem ping_takes_precedence:
  assumes "contains m (''#TSI_PING'' @ [NL])"
    and "config w ''tsi.safe_dir'' = Some (CStr d)" and "files w (abs_path w d) = Some (FDir es me)"
  shows "process_request C S k m w = (Ret (), w\<lparr>cwd := abs_path w d,
    ctl_out := ctl_out w @ ''TSI_OK'' @ [NL] @ my_version @ [NL] @ ''ENDOFMESSAGE'' @ [NL]\<rparr>)"
proof -
  have "find_command C S k m = Some (''TSI_PING'', \<lambda>_. ping)"
    using assms(1) by (simp add: find_command_contains init_functions_def)
  then show ?thesis using assms(2,3)
    by (simp add: process_request_def run_simps os_chdir_def ping_def)
qed

theorem ping_takes_precedence_witness:
  "process_request Sockets sample_sys Slurm (sample_request @ ''echo #TSI_PING'' @ [NL]) (sample_worker False []) =
    (Ret (), (sample_worker False [])\<lparr>cwd := ''/'', ctl_out := ''TSI_OK'' @ [NL] @ my_version @ [NL] @ ''ENDOFMESSAGE'' @ [NL]\<rparr>)"
proof -
  have c: "contains (sample_request @ ''echo #TSI_PING'' @ [NL]) (''#TSI_PING'' @ [NL])" by code_simp
  from ping_takes_precedence [OF c, of "sample_worker False []" "''/''"] show ?thesis
    by (simp add: sample_worker_def abs_path_def)
qed


text \<open>
  C16: The loop of a worker ends. Each round takes at least one character from the control channel,
  and the one-shot program, which reads from standard input, makes one round only. So the bound on the
  number of rounds is never reached, and any larger bound gives the same result; a worker can only run
  forever inside one single request.
\<close>

theorem worker_loop_ends:
  assumes "worker_ok S eu eg enforce fail w" and "C = Sockets \<or> one_shot"
  shows "(length (ctl_in w) < n \<longrightarrow> process_loop n C S k one_shot w = process C S k one_shot w) \<and>
    (fst (process C S k one_shot w) = Loops \<longrightarrow> (\<exists>m v. worker_ok S eu eg enforce fail v \<and> fst (process_request C S k m v) = Loops))"
  using process_loop_bound [OF assms(1) _ _ assms(2), of n "length (ctl_in w) + 1" k]
    process_loop_Loops [OF assms(1) _ _ assms(2), of "length (ctl_in w) + 1" k] by (simp add: process_def del: process_loop.simps)

theorem worker_loop_ends_witness:
  "process_loop 7 Sockets sample_sys Slurm False (sample_worker False ''x'') = process Sockets sample_sys Slurm False (sample_worker False ''x'')"
proof -
  have "length (ctl_in (sample_worker False ''x'')) < 7" by (simp add: sample_worker_def)
  with worker_loop_ends [OF sample_worker_ok, of Sockets False False "''x''" 7 Slurm] show ?thesis by blast
qed

subsection \<open>Refused requests\<close>

lemma group_answer_cwd [simp]: "group_answer S (w\<lparr>cwd := d\<rparr>) = group_answer S w"
  by (rule ext) (simp add: group_answer_def live_def cong: option.case_cong cval.case_cong)

lemma with_session_cwd [simp]: "with_session (w\<lparr>cwd := d\<rparr>) c = with_session w c"
  by (simp add: with_session_def)

lemma try_block_refused:
  assumes "worker_ok S eu eg enforce fail w" and "identity_of m = Some (u, g)"
    and "plan_identity enforce fail u (user_answer S w u) (group_answer S w) (split_ch (CHR '':'') g) = Inl e"
  shows "\<exists>v. try_block S True False f m w = (Ret True, v\<lparr>ctl_out := ctl_out w @ ''TSI_FAILED: ''
      @ map (\<lambda>c. if c = NL then CHR '':'' else c) (exn_str S e) @ [NL]\<rparr>) \<and> switching S u w v"
proof -
  have inv: "cache_inv S w" "id_config (config w) eu eg enforce fail" using assms(1) by (simp_all add: worker_ok_def)
  obtain v where v: "become_user (cache_ops S) u (split_ch (CHR '':'') g) w = (Exc e, v)"
    by (rule cache.become_user_refused [OF inv assms(3)])
  have sw: "switching S u w v" by (rule within_run [OF switching_become_user v])
  have "run_request S False (Some (u, split_ch (CHR '':'') g)) f m w = (Exc e, v)"
    using v by (simp add: run_request_eq switched_def bnd_run)
  moreover have "request_identity True False m w = (Ret (Some (u, split_ch (CHR '':'') g)), w)"
    using assms(2) by (simp add: request_identity_def ret_run)
  ultimately have "try_block S True False f m w = (Ret True, v\<lparr>ctl_out := ctl_out v @ ''TSI_FAILED: ''
      @ map (\<lambda>c. if c = NL then CHR '':'' else c) (exn_str S e) @ [NL]\<rparr>)"
    by (simp add: try_block_def catch_run bnd_run report_error_run ret_run)
  with sw show ?thesis by (auto simp: switching_def same_io_def)
qed

text \<open>
  C11: A request the identity rules refuse (an unknown user, root, or a group that is unknown or foreign
  when that is configured to fail) is answered with exactly one error line that carries the reason, and
  no command of the request is run: only lookups of the user's groups are.
\<close>

theorem refused_request_reply:
  assumes "worker_ok S eu eg enforce fail w" and "find_command C S k m = Some (c, f)" and "c \<noteq> ''TSI_PING''"
    and "\<not> with_session w c" and "identity_of m = Some (u, g)"
    and "plan_identity enforce fail u (user_answer S w u) (group_answer S w) (split_ch (CHR '':'') g) = Inl e"
    and "config w ''tsi.safe_dir'' = Some (CStr d)" and "files w (abs_path w d) = Some (FDir es me)"
  shows "\<exists>w'. process_request C S k m w = (Ret (), w') \<and>
    ctl_out w' = ctl_out w @ ''TSI_FAILED: '' @ map (\<lambda>c. if c = NL then CHR '':'' else c) (exn_str S e) @ [NL]
      @ ''ENDOFMESSAGE'' @ [NL] \<and>
    (\<exists>ids. trace w' = trace w @ ids \<and> (\<forall>x \<in> set ids. ev_argv x = id_argv u)) \<and> files w' = files w"
proof -
  let ?w = "w\<lparr>cwd := abs_path w d\<rparr>"
  have tab: "(c, f) \<in> set (init_functions C S k)" by (rule find_command_in [OF assms(2)])
  have ok: "worker_ok S eu eg enforce fail ?w" using assms(1) by simp
  have cfg: "id_config (config ?w) eu eg enforce fail" using assms(1) by (simp add: worker_ok_def)
  obtain v where v: "try_block S True False f m ?w = (Ret True, v\<lparr>ctl_out := ctl_out w @ ''TSI_FAILED: ''
      @ map (\<lambda>c. if c = NL then CHR '':'' else c) (exn_str S e) @ [NL]\<rparr>)" (is "_ = (_, ?v)") "switching S u ?w v"
    using try_block_refused [OF ok assms(5), of e f] assms(6) by auto
  note r = try_block_run [OF worker_can_return [OF ok] init_functions_confined [OF tab] v(1)]
  have h: "handle_function S f c m ?w = (Ret (), ?v\<lparr>cred := own_identity eu eg (cred ?v), environ := harmless_env (environ ?v)\<rparr>)"
    using handle_function_run [OF cfg tab, of m] assms(4) not_forwarding [OF tab] restore_returns(1) [OF conjunct1 [OF r]] v(1)
    by (simp add: handle_in_process_eq bnd_run ret_run whenP_def)
  have "process_request C S k m w = bnd (handle_function S f c m) (\<lambda>_. write_message (Some ''ENDOFMESSAGE'')) ?w"
    using assms(2,3,7,8) by (simp add: process_request_def run_simps os_chdir_def)
  then show ?thesis using h v(2) by (auto simp: bnd_run write_message_run switching_def same_io_def)
qed

definition root_request :: string where
  "root_request = ''#TSI_EXECUTESCRIPT'' @ [NL] @ ''#TSI_IDENTITY root NONE'' @ [NL]"

theorem refused_request_reply_witness:
  "\<exists>w'. process_request Sockets sample_sys Slurm root_request (sample_worker False []) = (Ret (), w') \<and>
     ctl_out w' = ''TSI_FAILED: Attempted to run a command as root root'' @ [NL] @ ''ENDOFMESSAGE'' @ [NL]"
proof -
  let ?w = "sample_worker False []"
  have c: "find_command Sockets sample_sys Slurm root_request = Some (''TSI_EXECUTESCRIPT'', execute_script sample_sys)"
  proof -
    have "\<not> contains root_request (''#'' @ ''TSI_PING'' @ [NL])" "\<not> contains root_request (''#'' @ ''TSI_PING_UID'' @ [NL])"
      "\<not> contains root_request (''#'' @ ''TSI_GET_USER_INFO'' @ [NL])" "contains root_request (''#'' @ ''TSI_EXECUTESCRIPT'' @ [NL])"
      by code_simp+
    then show ?thesis by (simp add: find_command_contains init_functions_def)
  qed
  have i: "identity_of root_request = Some (''root'', ''NONE'')" by code_simp
  have s: "split_ch (CHR '':'') ''NONE'' = [''NONE'']" by code_simp
  have "user_answer sample_sys ?w ''root'' = Some \<lparr>e_uid = 0, e_gid = 0, e_gids = [0], e_home = ''/root''\<rparr>"
    by (simp add: user_answer_def sample_worker_def sample_world_def new_user_cache_def live_def fresh_entry_def
        fresh_gids_def sample_sys_def)
  then have p: "plan_identity True True ''root'' (user_answer sample_sys ?w ''root'') (group_answer sample_sys ?w)
      (split_ch (CHR '':'') ''NONE'') = Inl (RuntimeError ''Attempted to run a command as root root'')"
    by (simp add: s plan_identity_def uid_of_def)
  have n: "\<not> with_session ?w ''TSI_EXECUTESCRIPT''" by (simp add: with_session_def sample_worker_def)
  show ?thesis
    using refused_request_reply [OF sample_worker_ok c _ n i p, of "''/''"]
    by (simp add: sample_worker_def abs_path_def) blast
qed

subsection \<open>Login sessions\<close>

definition pam_module_of :: "world \<Rightarrow> exn + string" where
  "pam_module_of w = (case config w ''tsi.pam_module'' of None \<Rightarrow> Inr ''unicore-tsi'' | Some v \<Rightarrow> as_str v)"

lemma run_request_session:
  assumes "confined S (f m)" and "ascii u" and "pam_module_of w = Inr md"
    and "run_request S True (Some (u, gs)) f m w = (r, w')"
  shows "pam_calls w' = pam_calls w @ [PamStart md u, PamOpenSession]"
proof -
  let ?v = "w\<lparr>pam_calls := pam_calls w @ [PamStart md u, PamOpenSession]\<rparr>"
  obtain b x where b: "become_user (cache_ops S) u gs ?v = (b, x)" by fastforce
  obtain q y where y: "f m x = (q, y)" by fastforce
  have x: "pam_calls x = pam_calls ?v" using within_run [OF switching_become_user b] by (simp add: switching_def same_io_def)
  moreover have "pam_calls y = pam_calls x" using within_run [OF assms(1) y] by (simp add: stays_def)
  moreover obtain p where "pam_open_session S md u w = (p, ?v)" using assms(2)
    by (cases "pam_err S (pam_calls w @ [PamStart md u]) PamOpenSession = 0") (simp_all add: pam_open_session_run Let_def)
  moreover have "run_request S True (Some (u, gs)) f m w = bnd (bnd (pam_open_session S md u) (\<lambda>_.
      bnd (become_user (cache_ops S) u gs) (\<lambda>_. ret ()))) (\<lambda>_. f m) w"
    using assms(3) by (auto simp: run_request_eq switched_def pam_module_of_def bnd_run cfg_get_run of_sum_run
        split: option.splits sum.splits)
  ultimately show ?thesis using assms(4) b y
    by (cases p; cases b) (auto simp: bnd_run ret_run)
qed


lemma sample_worker_become:
  obtains v where "become_user (cache_ops sample_sys) ''alice'' [''hpc'', ''DEFAULT_GID''] ((sample_worker pam input)\<lparr>pam_calls := l\<rparr>) = (Ret True, v)"
proof -
  let ?w = "(sample_worker pam input)\<lparr>pam_calls := l\<rparr>"
  have c: "cache_inv sample_sys ?w" "id_config (config ?w) 0 0 True True"
    using sample_worker_ok [of pam input] by (simp_all add: worker_ok_def cache_inv_def)
  have "user_answer sample_sys ?w ''alice'' = user_answer sample_sys (sample_world True) ''alice''"
    by (simp add: user_answer_def sample_worker_def live_def fresh_entry_def fresh_gids_def sample_world_def new_user_cache_def)
  moreover have "group_answer sample_sys ?w = group_answer sample_sys (sample_world True)"
    by (rule ext) (simp add: group_answer_def sample_worker_def live_def sample_world_def new_user_cache_def)
  ultimately have p: "plan_identity True True ''alice'' (user_answer sample_sys ?w ''alice'') (group_answer sample_sys ?w)
      [''hpc'', ''DEFAULT_GID''] = Inr (1000, 200, [200, 100])" using sample_plan [of True] by simp
  have "privileged (cred ?w)" "ids_ok 1000 200 [200, 100]"
    by (simp_all add: sample_worker_def privileged_def root_cred_def ids_ok_def ngroups_max_def)
  from cache.become_user_granted [OF c p this] that show thesis by auto
qed

lemma sample_execute:
  obtains q x where "execute_script sample_sys msg v = (Ret q, x)"
proof -
  have "\<exists>q x. execute_script sample_sys msg v = (Ret q, x)"
    by (simp add: execute_script_def run_simps run_command_def Let_def log_event_def sample_sys_def ok_def failed_def)
  then show thesis using that by blast
qed


end
