(* ===== verification/Server.thy ===== *)
theory Server
  imports Config
begin

text \<open>
  \<open>lib/Server.py\<close> and \<open>lib/SSL.py\<close>: the TSI server. It accepts connections from UNICORE/X, checks the
  certificate and the address of the peer, reads one control command, calls UNICORE/X back from a local
  port of the configured range and forks a worker that is given the sockets. The state of the server
  process is a \<open>world\<close>; its attempts to connect are recorded in \<open>dials\<close> and what it writes to accepted
  connections in \<open>ctl_out\<close>. What arrives at the listening socket is a list of connections, with what
  the peer presents and sends; a worker is the copy of the process that \<open>connect\<close> returns in.
\<close>

section \<open>Sockets\<close>

text \<open>The TLS context that wraps a socket, and a connected socket with its options.\<close>

record tls =
  server_side :: bool
  cert_required :: bool
  check_hostname :: bool
  certfile :: "cval option"
  keyfile :: "cval option"
  key_password :: "cval option"
  cafile :: "cval option"

record sock =
  sk_target :: target
  sk_tls :: "tls option"
  sk_timeout :: "int option"
  sk_opts :: "(string \<times> int) list"

datatype family = AF_INET | AF_INET6 | AF_OTHER

text \<open>
  The network as the server sees it: the platform name, the address families of a host name (\<open>None\<close>
  when it cannot be resolved), the error of opening the listening socket, the port it gets when none is
  asked for, and the error of setting up TLS after some attempts to connect.
\<close>

record net =
  platform :: string
  families :: "string \<Rightarrow> int \<Rightarrow> family list option"
  listen_err :: "string \<Rightarrow> int \<Rightarrow> bool \<Rightarrow> exn option"
  bound_port :: int
  tls_err :: "dial list \<Rightarrow> tls \<Rightarrow> exn option"

definition configure_socket :: "net \<Rightarrow> sock \<Rightarrow> sock" where
  "configure_socket N s =
     (let after_idle = 5; interval = 1; max_fails = 3 in
      s\<lparr>sk_timeout := None,
        sk_opts := sk_opts s
          @ (if \<not> startswith (platform N) ''win'' then [(''SO_KEEPALIVE'', 1)] else [])
          @ (if startswith (platform N) ''darwin'' then [(''TCP_KEEPALIVE'', interval)] else [])
          @ (if startswith (platform N) ''linux''
             then [(''TCP_KEEPIDLE'', after_idle), (''TCP_KEEPINTVL'', interval), (''TCP_KEEPCNT'', max_fails)]
             else [])\<rparr>)"

text \<open>\<open>EnvironmentError\<close> is another name of \<open>OSError\<close>.\<close>

fun env_error :: "exn \<Rightarrow> bool" where
  "env_error (OSError m) = True"
| "env_error AddrInUse = True"
| "env_error e = False"

text \<open>\<open>int(v)\<close> of a configuration value.\<close>

fun int_of_cval :: "cval \<Rightarrow> exn + int" where
  "int_of_cval (CInt i) = Inr i"
| "int_of_cval (CBool b) = Inr (if b then 1 else 0)"
| "int_of_cval (CStr s) = (case py_int s of None \<Rightarrow> Inl ValueError | Some i \<Rightarrow> Inr i)"
| "int_of_cval v = Inl TypeError"

definition setup_ssl :: "net \<Rightarrow> bool \<Rightarrow> tls tsi" where
  "setup_ssl N server_mode = (\<lambda>w.
     let c = config w;
         context = \<lparr>server_side = server_mode, cert_required = True, check_hostname = False,
           certfile = c ''tsi.certificate'', keyfile = c ''tsi.keystore'', key_password = c ''tsi.keypass'',
           cafile = (case c ''tsi.truststore'' of None \<Rightarrow> None | Some t \<Rightarrow> if truthy t then Some t else None)\<rparr>
     in case tls_err N (dials w) context of None \<Rightarrow> (Ret context, w) | Some e \<Rightarrow> (Exc e, w))"

section \<open>Checking the peer\<close>

text \<open>
  A connection as the server sees it: the address of the peer, the subject of its certificate (with
  TLS), what reading its first message gives (an error, or the text), and the error of sending to it.
\<close>

record arrival =
  a_host :: string
  a_subject :: subject
  a_msg :: "exn + string"
  a_send :: "exn option"

definition verify_peer :: "subject \<Rightarrow> unit tsi" where
  "verify_peer subject =
     bnd (cfg_get ''tsi.allowed_dns'' (CDns [])) (\<lambda>v.
     bnd (case v of CDns acl \<Rightarrow> of_sum (check_access subject acl) | _ \<Rightarrow> throw TypeError) (\<lambda>accepted.
     if \<not> accepted then throw (OSError ''Connection not allowed by ACL'') else ret ()))"

definition verify_ip :: "string \<Rightarrow> unit tsi" where
  "verify_ip unicorex_host =
     bnd (gets config) (\<lambda>c.
     case c ''tsi.allowed_ips'' of
       None \<Rightarrow> ret ()
     | Some (CStrs allowed_ips) \<Rightarrow>
         (if unicorex_host \<in> set allowed_ips then ret ()
          else throw (OSError ''Connecting IP not in list of allowed IPs''))
     | Some _ \<Rightarrow> throw TypeError)"

section \<open>Calling back\<close>

text \<open>\<open>get_unicorex_port\<close>: the configured port, or the first word of the parameters.\<close>

definition get_unicorex_port :: "string \<Rightarrow> cval tsi" where
  "get_unicorex_port params =
     bnd (cfg_get ''tsi.unicorex_port'' CNone) (\<lambda>port.
     ret (if port = CNone then CStr (fst (split_once (CHR '' '') params)) else port))"

definition next_port :: "int \<Rightarrow> int \<Rightarrow> int \<Rightarrow> int" where
  "next_port lo up p = (if p + 1 > up then lo else p + 1)"

definition no_free_port :: "int \<Rightarrow> int \<Rightarrow> exn" where
  "no_free_port lo up =
     Exception (''Cannot connect - no free local ports in configured range ''
       @ show_int lo @ '':'' @ show_int up)"

text \<open>\<open>socket.create_connection\<close>: one attempt, which is recorded.\<close>

definition create_connection :: "sys \<Rightarrow> target \<Rightarrow> int \<Rightarrow> sock tsi" where
  "create_connection S t timeout = (\<lambda>w.
     let d = \<lparr>dl_cred = cred w, dl_target = t\<rparr>; w' = w\<lparr>dials := dials w @ [d]\<rparr>
     in case connect_res S (dials w) d of
          None \<Rightarrow> (Ret \<lparr>sk_target = t, sk_tls = None, sk_timeout = Some timeout, sk_opts = []\<rparr>, w')
        | Some e \<Rightarrow> (Exc e, w'))"

text \<open>The \<open>while\<close> loop; the first argument is the number of attempts that are left.\<close>

primrec connect_attempts :: "nat \<Rightarrow> sys \<Rightarrow> string \<Rightarrow> cval \<Rightarrow> int \<Rightarrow> bool \<Rightarrow> int \<Rightarrow> int \<Rightarrow> int \<Rightarrow> sock tsi" where
  "connect_attempts 0 = (\<lambda>S host port timeout use_port_range lo up local_port.
     throw (no_free_port lo up))"
| "connect_attempts (Suc n) = (\<lambda>S host port timeout use_port_range lo up local_port.
     catch
       (bnd (create_connection S (Tcp host port local_port) timeout) (\<lambda>s.
        bnd (whenP use_port_range
              (cfg_set ''tsi.local_portrange'' (CRange (next_port lo up local_port) lo up))) (\<lambda>_.
        ret s)))
       (\<lambda>e. if env_error e \<and> use_port_range \<and> e = AddrInUse
            then connect_attempts n S host port timeout use_port_range lo up (next_port lo up local_port)
            else throw e))"

definition open_connection :: "sys \<Rightarrow> string \<Rightarrow> cval \<Rightarrow> int \<Rightarrow> sock tsi" where
  "open_connection S host port timeout =
     bnd (cfg_sub ''tsi.local_portrange'') (\<lambda>port_range.
     case port_range of
       CRange local_port lo up \<Rightarrow>
         (let use_port_range = local_port > 0;
              max_attempts = (if use_port_range then up - lo + 1 else 1)
          in connect_attempts (nat max_attempts) S host port timeout use_port_range lo up local_port)
     | _ \<Rightarrow> throw TypeError)"

primrec open_sockets :: "nat \<Rightarrow> sys \<Rightarrow> net \<Rightarrow> bool \<Rightarrow> string \<Rightarrow> cval \<Rightarrow> sock list tsi" where
  "open_sockets 0 = (\<lambda>S N ssl_mode host port. ret [])"
| "open_sockets (Suc n) = (\<lambda>S N ssl_mode host port.
     bnd (open_connection S host port 10) (\<lambda>s.
     bnd (if ssl_mode then bnd (setup_ssl N False) (\<lambda>t. ret (s\<lparr>sk_tls := Some t\<rparr>)) else ret s) (\<lambda>s.
     bnd (open_sockets n S N ssl_mode host port) (\<lambda>rest.
     ret (configure_socket N s # rest)))))"

definition callback :: "sys \<Rightarrow> net \<Rightarrow> bool \<Rightarrow> arrival \<Rightarrow> string \<Rightarrow> nat \<Rightarrow> sock list tsi" where
  "callback S N ssl_mode a params num_conns =
     bnd (case a_send a of
            None \<Rightarrow> modify (\<lambda>w. w\<lparr>ctl_out := ctl_out w @ ''OK'' @ [NL]\<rparr>)
          | Some e \<Rightarrow> throw e) (\<lambda>_.
     bnd (get_unicorex_port params) (\<lambda>unicorex_port.
     if unicorex_port = CNone then throw (OSError ''Received invalid message'')
     else open_sockets num_conns S N ssl_mode (a_host a) unicorex_port))"

section \<open>One connection\<close>

text \<open>
  What becomes of an accepted connection: it is closed and the server waits for the next one, or a
  worker is forked with the command, its parameters, the number of the worker and its sockets.
\<close>

datatype served = Dropped | Forked string string int "sock list"

definition config_number :: "cval \<Rightarrow> exn + int" where
  "config_number v = (case v of CInt i \<Rightarrow> Inr i | CBool b \<Rightarrow> Inr (if b then 1 else 0) | _ \<Rightarrow> Inl TypeError)"

definition set_setting :: "string \<Rightarrow> unit tsi" where
  "set_setting params =
     bnd (cfg_get ''settings'' (CDict [])) (\<lambda>settings.
     case split_once (CHR '' '') params of
       (key, None) \<Rightarrow> throw ValueError
     | (key, Some value) \<Rightarrow>
         (case settings of
            CDict d \<Rightarrow> cfg_set ''settings'' (CDict (dict_set key value d))
          | _ \<Rightarrow> throw TypeError))"

text \<open>An \<open>EnvironmentError\<close> drops the connection; \<open>None\<close> stands for that.\<close>

definition drops :: "'a tsi \<Rightarrow> 'a option tsi" where
  "drops m = catch (bnd m (\<lambda>x. ret (Some x))) (\<lambda>e. if env_error e then ret None else throw e)"

definition start_worker :: "sys \<Rightarrow> net \<Rightarrow> bool \<Rightarrow> arrival \<Rightarrow> string \<Rightarrow> string \<Rightarrow> nat \<Rightarrow> served tsi" where
  "start_worker S N ssl_mode a cmd params num_conns =
     bnd (drops (callback S N ssl_mode a params num_conns)) (\<lambda>r.
     case r of
       None \<Rightarrow> ret Dropped
     | Some socks \<Rightarrow>
         bnd (cfg_get ''tsi.worker.id'' (CInt 1)) (\<lambda>v.
         bnd (of_sum (config_number v)) (\<lambda>worker_id.
         ret (Forked cmd params worker_id socks))))"

text \<open>The command word and its parameters; a message without a blank has none.\<close>

definition control_command :: "string \<Rightarrow> string \<times> string" where
  "control_command msg = (case split_once (CHR '' '') msg of (cmd, Some params) \<Rightarrow> (cmd, params) | _ \<Rightarrow> ([], []))"

definition handle_command :: "sys \<Rightarrow> net \<Rightarrow> bool \<Rightarrow> arrival \<Rightarrow> string \<Rightarrow> served tsi" where
  "handle_command S N ssl_mode a msg =
     (let (cmd, params) = control_command msg in
      if cmd = ''shutdown'' then leave 0
      else if cmd = ''start-forwarding'' then start_worker S N ssl_mode a cmd params 1
      else if cmd = ''newtsiprocess'' then start_worker S N ssl_mode a cmd params 2
      else if cmd = ''set'' then bnd (set_setting params) (\<lambda>_. ret Dropped)
      else ret Dropped)"

definition check_peer :: "bool \<Rightarrow> arrival \<Rightarrow> unit option tsi" where
  "check_peer ssl_mode a = (if ssl_mode then drops (verify_peer (a_subject a)) else ret (Some ()))"

definition serve_one :: "sys \<Rightarrow> net \<Rightarrow> bool \<Rightarrow> arrival \<Rightarrow> served tsi" where
  "serve_one S N ssl_mode a =
     bnd (check_peer ssl_mode a) (\<lambda>peer.
     case peer of
       None \<Rightarrow> ret Dropped
     | Some _ \<Rightarrow>
         bnd (drops (verify_ip (a_host a))) (\<lambda>ip.
         case ip of
           None \<Rightarrow> ret Dropped
         | Some _ \<Rightarrow>
             bnd (drops (of_sum (a_msg a))) (\<lambda>m.
             case m of
               None \<Rightarrow> ret Dropped
             | Some msg \<Rightarrow> handle_command S N ssl_mode a (strip msg))))"

section \<open>The server\<close>

text \<open>What \<open>connect\<close> returns in a worker: the sockets and, for port forwarding, a message.\<close>

definition worker_result :: "string \<Rightarrow> string \<Rightarrow> sock list \<Rightarrow> exn + sock \<times> sock option \<times> string option" where
  "worker_result cmd params socks =
     (if cmd = ''newtsiprocess'' then Inr (socks ! 0, Some (socks ! 1), None)
      else
        (case split_once (CHR '' '') params of
           (_, Some rest) \<Rightarrow>
             (case split_once (CHR '' '') rest of
                (service_spec, Some user_spec) \<Rightarrow>
                  Inr (socks ! 0, None, Some (''#TSI_FORWARDING_CONNECT_TO '' @ service_spec @ [NL]
                    @ ''#TSI_IDENTITY '' @ user_spec @ [NL]))
              | _ \<Rightarrow> Inl ValueError)
         | _ \<Rightarrow> Inl ValueError))"

record worker =
  wk_id :: int
  wk_world :: world
  wk_result :: "exn + sock \<times> sock option \<times> string option"

text \<open>
  The accept loop: the outcome of the server process, its state, and the workers in the order they were
  forked. \<open>None\<close> in the list is a failing \<open>accept\<close>, which makes \<open>connect\<close> return; at the end of the
  list the server waits for ever.
\<close>

fun serve :: "sys \<Rightarrow> net \<Rightarrow> bool \<Rightarrow> arrival option list \<Rightarrow> world \<Rightarrow> unit outcome \<times> world \<times> worker list" where
  "serve S N ssl_mode [] w = (Loops, w, [])"
| "serve S N ssl_mode (None # as) w = (Ret (), w, [])"
| "serve S N ssl_mode (Some a # as) w =
     (case serve_one S N ssl_mode a w of
        (Ret Dropped, v) \<Rightarrow> serve S N ssl_mode as v
      | (Ret (Forked cmd params worker_id socks), v) \<Rightarrow>
          (case serve S N ssl_mode as (v\<lparr>config := (config v)(''tsi.worker.id'' \<mapsto> CInt (worker_id + 1))\<rparr>) of
             (r, x, ws) \<Rightarrow>
               (r, x, \<lparr>wk_id = worker_id, wk_world = v, wk_result = worker_result cmd params socks\<rparr> # ws))
      | (Exc e, v) \<Rightarrow> (Exc e, v, [])
      | (Exit n, v) \<Rightarrow> (Exit n, v, [])
      | (Loops, v) \<Rightarrow> (Loops, v, []))"

definition check_ipv6_support :: "net \<Rightarrow> string \<Rightarrow> int \<Rightarrow> bool tsi" where
  "check_ipv6_support N host port =
     bnd (cfg_get ''tsi.disable_ipv6'' (CBool False)) (\<lambda>d.
     if truthy d then ret False
     else if length host = 0 \<or> host = ''*'' then ret True
     else bnd (of_opt (OSError host) (families N host port)) (\<lambda>fs. ret (AF_INET6 \<in> set fs)))"

definition create_server :: "net \<Rightarrow> string \<Rightarrow> int \<Rightarrow> bool tsi" where
  "create_server N host port =
     bnd (check_ipv6_support N host port) (\<lambda>dualstack_ipv6.
     case listen_err N host port dualstack_ipv6 of None \<Rightarrow> ret dualstack_ipv6 | Some e \<Rightarrow> throw e)"

text \<open>The part of \<open>connect\<close> before the loop; it returns whether TLS is used.\<close>

definition listen :: "net \<Rightarrow> bool tsi" where
  "listen N =
     bnd (cfg_str ''tsi.my_addr'') (\<lambda>host.
     bnd (bnd (cfg_sub ''tsi.my_port'') (\<lambda>v. of_sum (int_of_cval v))) (\<lambda>port.
     bnd (cfg_get ''tsi.keystore'' CNone) (\<lambda>keystore.
     let ssl_mode = (keystore \<noteq> CNone) in
     bnd (create_server N host port) (\<lambda>_.
     bnd (whenP (port = 0) (cfg_set ''tsi.my_port'' (CInt (bound_port N)))) (\<lambda>_.
     bnd (whenP ssl_mode (bnd (setup_ssl N True) (\<lambda>_. ret ()))) (\<lambda>_.
     ret ssl_mode))))))"

definition connect :: "sys \<Rightarrow> net \<Rightarrow> arrival option list \<Rightarrow> world \<Rightarrow> unit outcome \<times> world \<times> worker list" where
  "connect S N arrivals w =
     (case listen N w of
        (Ret ssl_mode, v) \<Rightarrow> serve S N ssl_mode arrivals v
      | (Exc e, v) \<Rightarrow> (Exc e, v, [])
      | (Exit n, v) \<Rightarrow> (Exit n, v, [])
      | (Loops, v) \<Rightarrow> (Loops, v, []))"

text \<open>
  The handler of \<open>SIGCHLD\<close>: \<open>os.wait3\<close> is called until it reports no finished child (0) or fails;
  the argument lists its results, the value the children that were collected.
\<close>

fun worker_completed :: "(exn + int) list \<Rightarrow> int list" where
  "worker_completed [] = []"
| "worker_completed (Inl e # rs) = []"
| "worker_completed (Inr pid # rs) = (if pid = 0 then [] else pid # worker_completed rs)"

section \<open>Local ports\<close>

text \<open>
  The \<open>i\<close>-th port that is tried starting from \<open>p\<close>, and the attempt made from it: the ports of the
  range in order, going round at its end.
\<close>

definition port_at :: "int \<Rightarrow> int \<Rightarrow> int \<Rightarrow> nat \<Rightarrow> int" where
  "port_at lo up p i = lo + (p - lo + int i) mod (up - lo + 1)"

definition attempt :: "cred \<Rightarrow> string \<Rightarrow> cval \<Rightarrow> int \<Rightarrow> int \<Rightarrow> int \<Rightarrow> nat \<Rightarrow> dial" where
  "attempt c host port lo up p i = \<lparr>dl_cred = c, dl_target = Tcp host port (port_at lo up p i)\<rparr>"

lemma port_at_range: "lo \<le> up \<Longrightarrow> lo \<le> port_at lo up p i \<and> port_at lo up p i \<le> up"
  using pos_mod_bound [of "up - lo + 1" "p - lo + int i"] by (simp add: port_at_def)

lemma port_at_0: "lo \<le> p \<Longrightarrow> p \<le> up \<Longrightarrow> port_at lo up p 0 = p"
  by (simp add: port_at_def)

lemma next_port_at: "lo \<le> p \<Longrightarrow> p \<le> up \<Longrightarrow> next_port lo up p = port_at lo up p (Suc 0)"
  by (auto simp: next_port_def port_at_def not_less)

lemma port_at_Suc: "lo \<le> up \<Longrightarrow> port_at lo up (port_at lo up p (Suc 0)) i = port_at lo up p (Suc i)"
  by (simp add: port_at_def mod_simps add.assoc)

lemma ports_distinct: "lo \<le> up \<Longrightarrow> distinct (map (port_at lo up p) [0..<nat (up - lo + 1)])"
proof -
  assume "lo \<le> up"
  have "inj_on (port_at lo up p) {0..<nat (up - lo + 1)}"
  proof (rule inj_onI)
    fix i j assume ij: "i \<in> {0..<nat (up - lo + 1)}" "j \<in> {0..<nat (up - lo + 1)}"
      and eq: "port_at lo up p i = port_at lo up p j"
    then have "(up - lo + 1) dvd int i - int j"
      by (simp add: port_at_def mod_eq_dvd_iff)
    moreover have "\<bar>int i - int j\<bar> < up - lo + 1" using ij \<open>lo \<le> up\<close> by auto
    ultimately show "i = j" using dvd_imp_le_int [of "int i - int j" "up - lo + 1"] \<open>lo \<le> up\<close> by auto
  qed
  then show ?thesis by (simp add: distinct_map)
qed

lemma attempts_Suc:
  "lo \<le> p \<Longrightarrow> p \<le> up \<Longrightarrow>
    map (attempt c h q lo up p) [0..<Suc k] =
    attempt c h q lo up p 0 # map (attempt c h q lo up (next_port lo up p)) [0..<k]"
  by (simp only: upt_conv_Cons zero_less_Suc map_Suc_upt [symmetric] list.map map_map o_def)
    (simp add: attempt_def next_port_at port_at_Suc)

text \<open>What a run of attempts does: the first attempt that does not find its port in use decides.\<close>

definition attempts_result ::
    "nat \<Rightarrow> sys \<Rightarrow> string \<Rightarrow> cval \<Rightarrow> int \<Rightarrow> int \<Rightarrow> int \<Rightarrow> world \<Rightarrow> sock outcome \<Rightarrow> world \<Rightarrow> bool" where
  "attempts_result n S host port lo up p w r w' \<longleftrightarrow>
     (let att = attempt (cred w) host port lo up p;
          res = (\<lambda>i. connect_res S (dials w @ map att [0..<i]) (att i))
      in (\<exists>k < n. (\<forall>i < k. res i = Some AddrInUse) \<and>
            (case res k of
               None \<Rightarrow> r = Ret \<lparr>sk_target = dl_target (att k), sk_tls = None, sk_timeout = Some 10, sk_opts = []\<rparr> \<and>
                 w' = w\<lparr>dials := dials w @ map att [0..<Suc k],
                        config := (config w)(''tsi.local_portrange'' \<mapsto> CRange (port_at lo up p (Suc k)) lo up)\<rparr>
             | Some e \<Rightarrow> e \<noteq> AddrInUse \<and> r = Exc e \<and> w' = w\<lparr>dials := dials w @ map att [0..<Suc k]\<rparr>))
       \<or> (\<forall>i < n. res i = Some AddrInUse) \<and> r = Exc (no_free_port lo up) \<and>
           w' = w\<lparr>dials := dials w @ map att [0..<n]\<rparr>)"

lemma attempts_result_Suc:
  assumes p: "lo \<le> p" "p \<le> up"
    and busy: "connect_res S (dials w) (attempt (cred w) host port lo up p 0) = Some AddrInUse"
    and rest: "attempts_result n S host port lo up (next_port lo up p)
      (w\<lparr>dials := dials w @ [attempt (cred w) host port lo up p 0]\<rparr>) r w'"
  shows "attempts_result (Suc n) S host port lo up p w r w'"
proof -
  let ?att = "attempt (cred w) host port lo up p"
  let ?q = "next_port lo up p"
  have list: "(dials w @ [?att 0]) @ map (attempt (cred w) host port lo up ?q) [0..<k] = dials w @ map ?att [0..<Suc k]" for k
    using attempts_Suc [OF p] by simp
  have step: "attempt (cred w) host port lo up ?q i = ?att (Suc i)" for i
    using p by (simp add: attempt_def next_port_at port_at_Suc)
  have nx: "port_at lo up ?q (Suc i) = port_at lo up p (Suc (Suc i))" for i
    using p by (simp add: next_port_at port_at_Suc)
  let ?v = "w\<lparr>dials := dials w @ [?att 0]\<rparr>"
  have v: "cred ?v = cred w" "dials ?v = dials w @ [?att 0]" "config ?v = config w"
    "?v\<lparr>dials := d\<rparr> = w\<lparr>dials := d\<rparr>" for d by simp_all
  from rest show ?thesis
    unfolding attempts_result_def Let_def v list nx step Ex_less_Suc2 All_less_Suc2
    using busy by (simp only: upt_0 list.map append_Nil2) blast
qed

lemma connect_attempts_result:
  assumes "lo \<le> p" "p \<le> up"
  shows "attempts_result n S host port lo up p w
           (fst (connect_attempts n S host port 10 True lo up p w)) (snd (connect_attempts n S host port 10 True lo up p w))"
  using assms
proof (induction n arbitrary: p w)
  case 0
  then show ?case by (simp add: attempts_result_def run_simps)
next
  case (Suc n)
  let ?att = "attempt (cred w) host port lo up p"
  have a0: "?att 0 = \<lparr>dl_cred = cred w, dl_target = Tcp host port p\<rparr>"
    using Suc.prems by (simp add: attempt_def port_at_0)
  show ?case
  proof (cases "connect_res S (dials w) (?att 0) = Some AddrInUse")
    case False
    show ?thesis
      unfolding attempts_result_def Let_def
      by (intro disjI1 exI [of _ 0] conjI)
        (use False Suc.prems in \<open>auto simp: a0 run_simps create_connection_def cfg_set_def next_port_at split: option.splits\<close>)
  next
    case True
    have q: "lo \<le> next_port lo up p" "next_port lo up p \<le> up" using Suc.prems by (auto simp: next_port_def)
    have "connect_attempts (Suc n) S host port 10 True lo up p w =
        connect_attempts n S host port 10 True lo up (next_port lo up p) (w\<lparr>dials := dials w @ [?att 0]\<rparr>)"
      using True by (simp add: run_simps create_connection_def a0)
    with attempts_result_Suc [OF Suc.prems True Suc.IH [OF q]] show ?thesis by simp
  qed
qed

text \<open>
  C13: With a port range configured, a connection is opened from the first free port of the range: the
  ports are tried one after the other from the current one on, each at most once and none outside the
  range, as long as they are in use. The next connection starts behind the port that was taken. Any
  other error is passed on at once, and only when every port of the range is in use does the call
  give up.
\<close>

theorem open_connection_ports:
  assumes "config w ''tsi.local_portrange'' = Some (CRange p lo up)" "0 < p" "lo \<le> p" "p \<le> up"
    and "open_connection S host port 10 w = (r, w')"
  shows "attempts_result (nat (up - lo + 1)) S host port lo up p w r w' \<and>
    distinct (map (port_at lo up p) [0..<nat (up - lo + 1)]) \<and>
    port_at lo up p ` {0..<nat (up - lo + 1)} = {lo..up}"
proof -
  let ?n = "nat (up - lo + 1)"
  have d: "distinct (map (port_at lo up p) [0..<?n])" using assms by (intro ports_distinct) simp
  have "port_at lo up p ` {0..<?n} \<subseteq> {lo..up}" using port_at_range assms by force
  moreover have "card (port_at lo up p ` {0..<?n}) = card {lo..up}"
    using d by (simp add: distinct_map card_image)
  ultimately have "port_at lo up p ` {0..<?n} = {lo..up}" by (simp add: card_subset_eq)
  moreover have "open_connection S host port 10 w = connect_attempts ?n S host port 10 True lo up p w"
    using assms(1,2) by (simp add: open_connection_def run_simps)
  ultimately show ?thesis
    using connect_attempts_result [of lo p up ?n S host port w] assms d by (metis fst_conv snd_conv)
qed

definition busy_ports :: "int set \<Rightarrow> dial list \<Rightarrow> dial \<Rightarrow> exn option" where
  "busy_ports B h d = (case dl_target d of Tcp _ _ l \<Rightarrow> if l \<in> B then Some AddrInUse else None | _ \<Rightarrow> None)"

theorem open_connection_ports_witness:
  "\<exists>w'. open_connection (sample_sys\<lparr>connect_res := busy_ports {50002, 50000}\<rparr>) ''10.0.0.1'' (CStr ''7654'') 10
      ((sample_world False)\<lparr>config := [''tsi.local_portrange'' \<mapsto> CRange 50002 50000 50002]\<rparr>) =
        (Ret \<lparr>sk_target = Tcp ''10.0.0.1'' (CStr ''7654'') 50001, sk_tls = None, sk_timeout = Some 10, sk_opts = []\<rparr>, w') \<and>
    config w' ''tsi.local_portrange'' = Some (CRange 50002 50000 50002) \<and>
    port_at 50000 50002 50002 ` {0..<3} = {50000..50002}"
proof -
  let ?S = "sample_sys\<lparr>connect_res := busy_ports {50002, 50000}\<rparr>"
  let ?w = "(sample_world False)\<lparr>config := [''tsi.local_portrange'' \<mapsto> CRange 50002 50000 50002]\<rparr>"
  obtain r w' where run: "open_connection ?S ''10.0.0.1'' (CStr ''7654'') 10 ?w = (r, w')" by force
  have "config ?w ''tsi.local_portrange'' = Some (CRange 50002 50000 50002)" by simp
  from open_connection_ports [OF this _ _ _ run] have
    "port_at 50000 50002 50002 ` {0..<3} = {50000..50002}" by simp
  then show ?thesis
    by (simp add: numeral_3_eq_3 open_connection_def run_simps create_connection_def busy_ports_def cfg_set_def next_port_def)
qed

section \<open>Only verified peers\<close>

text \<open>
  A peer is trusted if its certificate is accepted (with TLS) and its address is one of the allowed ones
  (where these are known).
\<close>

definition peer_ok :: "config \<Rightarrow> bool \<Rightarrow> arrival \<Rightarrow> bool" where
  "peer_ok c ssl_mode a \<longleftrightarrow>
     (ssl_mode \<longrightarrow> (\<exists>acl. c ''tsi.allowed_dns'' = Some (CDns acl) \<and> check_access (a_subject a) acl = Inr True))"

definition ip_ok :: "config \<Rightarrow> arrival \<Rightarrow> bool" where
  "ip_ok c a \<longleftrightarrow> (case c ''tsi.allowed_ips'' of None \<Rightarrow> True | Some v \<Rightarrow> \<exists>ips. v = CStrs ips \<and> a_host a \<in> set ips)"

definition trusted :: "config \<Rightarrow> bool \<Rightarrow> arrival \<Rightarrow> bool" where
  "trusted c ssl_mode a \<longleftrightarrow> peer_ok c ssl_mode a \<and> ip_ok c a"

definition calls :: "string \<Rightarrow> dial \<Rightarrow> bool" where
  "calls host d \<longleftrightarrow> (\<exists>port l. dl_target d = Tcp host port l)"

text \<open>The steps of the server on behalf of one peer: it only calls back that host, and it changes only two settings.\<close>

definition serves :: "string \<Rightarrow> world \<Rightarrow> world \<Rightarrow> bool" where
  "serves host w w' \<longleftrightarrow> cred w' = cred w \<and> ucache w' = ucache w \<and> now w' = now w \<and>
     (\<exists>ds. dials w' = dials w @ ds \<and> (\<forall>d \<in> set ds. calls host d)) \<and>
     (\<forall>k. k \<noteq> ''settings'' \<and> k \<noteq> ''tsi.local_portrange'' \<longrightarrow> config w' k = config w k)"

interpretation serves: step_relation "serves host" for host
proof unfold_locales
  show "serves host w w" for w by (simp add: serves_def)
  show "serves host w v \<Longrightarrow> serves host v x \<Longrightarrow> serves host w x" for w v x
    unfolding serves_def using grows_trans [of "dials v" "dials w" "calls host" "dials x"] by simp
qed

lemma serves_cfg: "within (serves h) (cfg_sub k)" "within (serves h) (cfg_get k d)"
  by (auto simp: within_def run_simps serves.R_refl split: option.splits)

lemma serves_cfg_set: "k = ''settings'' \<or> k = ''tsi.local_portrange'' \<Longrightarrow> within (serves h) (cfg_set k v)"
  by (auto simp: within_def run_simps cfg_set_def serves_def)

lemma serves_create_connection: "within (serves h) (create_connection S (Tcp h port l) timeout)"
  by (auto simp: within_def create_connection_def Let_def serves_def calls_def split: option.split)

lemma serves_setup_ssl: "within (serves h) (setup_ssl N b)"
  by (auto simp: within_def setup_ssl_def Let_def serves.R_refl split: option.split)

lemma serves_write: "within (serves h) (modify (\<lambda>w. w\<lparr>ctl_out := ctl_out w @ x\<rparr>))"
  by (auto simp: within_def run_simps serves_def)

lemma serves_connect_attempts:
  "within (serves h) (connect_attempts n S h port timeout u lo up l)"
proof (induction n arbitrary: l)
  case (Suc n)
  show ?case unfolding connect_attempts.simps
    by (intro serves.within_rules serves_create_connection serves_cfg_set Suc.IH) simp
qed (simp add: serves.within_throw)

lemma within_case_cval:
  "(\<And>a b c. within R (f a b c)) \<Longrightarrow> within R g \<Longrightarrow> within R (case v of CRange a b c \<Rightarrow> f a b c | _ \<Rightarrow> g)"
  by (simp split: cval.split)

lemma serves_open_connection: "within (serves h) (open_connection S h port timeout)"
  unfolding open_connection_def
  by (intro serves.within_rules serves_cfg within_case_cval serves_connect_attempts)

lemma serves_open_sockets: "within (serves h) (open_sockets n S N ssl_mode h port)"
  by (induction n) (auto intro!: serves.within_rules serves_open_connection serves_setup_ssl)

lemma serves_set_setting: "within (serves h) (set_setting params)"
  unfolding set_setting_def
proof (intro serves.within_bnd serves_cfg)
  fix v
  show "within (serves h) (case split_once (CHR '' '') params of
      (key, None) \<Rightarrow> throw ValueError
    | (key, Some value) \<Rightarrow>
        (case v of CDict d \<Rightarrow> cfg_set ''settings'' (CDict (dict_set key value d)) | _ \<Rightarrow> throw TypeError))"
    by (simp add: serves_cfg_set serves.within_throw split: cval.split option.split prod.split)
qed

lemma serves_get_unicorex_port: "within (serves h) (get_unicorex_port params)"
  unfolding get_unicorex_port_def by (intro serves.within_rules serves_cfg)

lemma serves_start_worker: "within (serves (a_host a)) (start_worker S N ssl_mode a cmd params n)"
  unfolding start_worker_def callback_def drops_def
  by (intro serves.within_rules serves_cfg serves_open_sockets serves_write serves_get_unicorex_port)

lemma serves_handle_command: "serves (a_host a) w (snd (handle_command S N ssl_mode a msg w))"
proof (cases "fst (control_command msg) = ''shutdown''")
  case True
  then show ?thesis by (simp add: handle_command_def case_prod_beta run_simps serves.R_refl)
next
  case False
  have "within (serves (a_host a)) (handle_command S N ssl_mode a msg)"
    unfolding handle_command_def case_prod_beta using False
    by (auto intro!: serves.within_rules serves_start_worker serves_set_setting)
  then show ?thesis by (simp add: within_def)
qed

lemma drops_run:
  "drops m w = (case m w of
      (Ret x, v) \<Rightarrow> (Ret (Some x), v)
    | (Exc e, v) \<Rightarrow> if env_error e then (Ret None, v) else (Exc e, v)
    | (Exit n, v) \<Rightarrow> (Exit n, v)
    | (Loops, v) \<Rightarrow> (Loops, v))"
  by (simp add: drops_def run_simps split: prod.split outcome.split)

lemma verify_peer_run:
  "verify_peer s w = (case config w ''tsi.allowed_dns'' of
      None \<Rightarrow> (Exc (OSError ''Connection not allowed by ACL''), w)
    | Some (CDns acl) \<Rightarrow>
        (case check_access s acl of
           Inl e \<Rightarrow> (Exc e, w)
         | Inr b \<Rightarrow> if b then (Ret (), w) else (Exc (OSError ''Connection not allowed by ACL''), w))
    | Some _ \<Rightarrow> (Exc TypeError, w))"
  by (simp add: verify_peer_def run_simps split: option.split cval.split sum.split)

lemma verify_ip_run:
  "verify_ip h w = (case config w ''tsi.allowed_ips'' of
      None \<Rightarrow> (Ret (), w)
    | Some (CStrs ips) \<Rightarrow>
        if h \<in> set ips then (Ret (), w) else (Exc (OSError ''Connecting IP not in list of allowed IPs''), w)
    | Some _ \<Rightarrow> (Exc TypeError, w))"
  by (simp add: verify_ip_def run_simps split: option.split cval.split)

lemma drops_Some: "drops m w = (Ret (Some x), v) \<longleftrightarrow> m w = (Ret x, v)"
  by (auto simp: drops_run split: prod.splits outcome.splits if_splits)

text \<open>A failed check drops the connection or, with an error that is not expected, stops the server.\<close>

definition refusal :: "'a option outcome \<Rightarrow> bool" where
  "refusal r \<longleftrightarrow> r = Ret None \<or> (\<exists>e. r = Exc e \<and> \<not> env_error e)"

lemma refusal_intro [simp]: "refusal (Ret None)" "refusal (Exc e) = (\<not> env_error e)" "\<not> refusal (Ret (Some x))"
  by (auto simp: refusal_def)

lemma check_peer_run:
  "snd (check_peer ssl_mode a w) = w"
  "if peer_ok (config w) ssl_mode a then fst (check_peer ssl_mode a w) = Ret (Some ())
   else refusal (fst (check_peer ssl_mode a w))"
  by (auto simp: check_peer_def peer_ok_def drops_run verify_peer_run run_simps split: option.splits cval.splits sum.splits)

lemma check_ip_run:
  "snd (drops (verify_ip h) w) = w"
  "if ip_ok (config w) a then fst (drops (verify_ip (a_host a)) w) = Ret (Some ())
   else refusal (fst (drops (verify_ip (a_host a)) w))"
  by (auto simp: ip_ok_def drops_run verify_ip_run split: option.splits cval.splits)

text \<open>The two checks together: what is left of \<open>serve_one\<close> for a trusted peer and for another one.\<close>

lemma serve_one_trusted:
  assumes "trusted (config w) ssl_mode a"
  shows "serve_one S N ssl_mode a w = (case a_msg a of
      Inl e \<Rightarrow> if env_error e then (Ret Dropped, w) else (Exc e, w)
    | Inr m \<Rightarrow> handle_command S N ssl_mode a (strip m) w)"
proof -
  have p: "check_peer ssl_mode a w = (Ret (Some ()), w)" and i: "drops (verify_ip (a_host a)) w = (Ret (Some ()), w)"
    using assms check_peer_run(1) [of ssl_mode a w] check_peer_run(2) [of w ssl_mode a] check_ip_run(1) [of "a_host a" w] check_ip_run(2) [of w a]
    by (simp_all add: trusted_def prod_eq_iff)
  show ?thesis unfolding serve_one_def
    by (simp add: bnd_step [where m = "check_peer ssl_mode a", OF p] bnd_step [where m = "drops (verify_ip (a_host a))", OF i])
      (simp add: run_simps drops_run split: sum.split)
qed

lemma serve_one_untrusted:
  assumes "\<not> trusted (config w) ssl_mode a"
  shows "serve_one S N ssl_mode a w = (Ret Dropped, w) \<or>
    (\<exists>e. serve_one S N ssl_mode a w = (Exc e, w) \<and> \<not> env_error e)"
proof -
  obtain r where p: "check_peer ssl_mode a w = (r, w)" "if peer_ok (config w) ssl_mode a then r = Ret (Some ()) else refusal r"
    using check_peer_run(1) [of ssl_mode a w] check_peer_run(2) [of w ssl_mode a] by (metis prod.collapse)
  obtain q where i: "drops (verify_ip (a_host a)) w = (q, w)" "if ip_ok (config w) a then q = Ret (Some ()) else refusal q"
    using check_ip_run(1) [of "a_host a" w] check_ip_run(2) [of w a] by (metis prod.collapse)
  show ?thesis
  proof (cases "peer_ok (config w) ssl_mode a")
    case True
    with p have "check_peer ssl_mode a w = (Ret (Some ()), w)" by simp
    moreover have "refusal q" using True assms i by (simp add: trusted_def)
    ultimately show ?thesis using i(1) by (auto simp: serve_one_def refusal_def bnd_def ret_def)
  next
    case False
    with p show ?thesis by (auto simp: serve_one_def refusal_def run_simps)
  qed
qed

lemma serves_serve_one: "serves (a_host a) w (snd (serve_one S N ssl_mode a w))"
proof (cases "trusted (config w) ssl_mode a")
  case True
  then show ?thesis by (auto simp: serve_one_trusted serves.R_refl serves_handle_command split: sum.split)
next
  case False
  then show ?thesis using serve_one_untrusted [OF False, of S N] by (auto simp: serves.R_refl)
qed

text \<open>The sockets a worker is given: connected to the host of its peer, with TLS and keep-alive.\<close>

definition worker_sock :: "net \<Rightarrow> bool \<Rightarrow> string \<Rightarrow> sock \<Rightarrow> bool" where
  "worker_sock N ssl_mode host s \<longleftrightarrow>
     (\<exists>port l. sk_target s = Tcp host port l) \<and>
     (ssl_mode \<longrightarrow> (\<exists>t. sk_tls s = Some t \<and> cert_required t \<and> \<not> server_side t)) \<and>
     (\<not> startswith (platform N) ''win'' \<longrightarrow> (''SO_KEEPALIVE'', 1) \<in> set (sk_opts s)) \<and> sk_timeout s = None"

lemma open_connection_target:
  "open_connection S host port timeout w = (Ret s, w') \<Longrightarrow> \<exists>l. sk_target s = Tcp host port l"
proof -
  have "connect_attempts n S host port timeout u lo up p v = (Ret s, w') \<Longrightarrow> \<exists>l. sk_target s = Tcp host port l"
    for n u lo up p v
    by (induction n arbitrary: p v)
      (auto simp: run_simps create_connection_def cfg_set_def Let_def split: option.splits if_splits)
  then show "open_connection S host port timeout w = (Ret s, w') \<Longrightarrow> ?thesis"
    by (auto simp: open_connection_def run_simps Let_def split: option.splits cval.splits)
qed

lemma setup_ssl_client: "setup_ssl N False w = (Ret t, w') \<Longrightarrow> cert_required t \<and> \<not> server_side t"
  by (auto simp: setup_ssl_def Let_def split: option.splits)

lemma open_sockets_good:
  "open_sockets n S N ssl_mode host port w = (Ret socks, w') \<Longrightarrow>
    length socks = n \<and> (\<forall>s \<in> set socks. worker_sock N ssl_mode host s)"
proof (induction n arbitrary: w socks)
  case 0
  then show ?case by (simp add: run_simps)
next
  case (Suc n)
  from Suc.prems obtain s v s' x rest where s: "open_connection S host port 10 w = (Ret s, v)"
    and t: "(if ssl_mode then bnd (setup_ssl N False) (\<lambda>t. ret (s\<lparr>sk_tls := Some t\<rparr>)) else ret s) v = (Ret s', x)"
    and r: "open_sockets n S N ssl_mode host port x = (Ret rest, w')" "socks = configure_socket N s' # rest"
    by (auto simp: bnd_Ret ret_Ret)
  obtain l where "sk_target s = Tcp host port l" using open_connection_target [OF s] by blast
  moreover have "sk_target s' = sk_target s" "ssl_mode \<Longrightarrow> \<exists>t. sk_tls s' = Some t \<and> cert_required t \<and> \<not> server_side t"
    using t by (auto simp: bnd_Ret ret_Ret dest: setup_ssl_client split: if_splits)
  ultimately have "worker_sock N ssl_mode host (configure_socket N s')"
    by (auto simp: worker_sock_def configure_socket_def Let_def)
  with Suc.IH [OF r(1)] r(2) show ?case by simp
qed

lemma handle_command_forked:
  assumes "handle_command S N ssl_mode a msg w = (Ret (Forked cmd params i socks), w')"
  shows "(cmd, params) = control_command msg \<and> cmd \<in> {''newtsiprocess'', ''start-forwarding''} \<and>
    length socks = (if cmd = ''newtsiprocess'' then 2 else 1) \<and>
    (\<forall>s \<in> set socks. worker_sock N ssl_mode (a_host a) s) \<and>
    config_number (case config w' ''tsi.worker.id'' of None \<Rightarrow> CInt 1 | Some v \<Rightarrow> v) = Inr i"
proof -
  have start: "c = cmd \<and> p = params \<and> length socks = n \<and> (\<forall>s \<in> set socks. worker_sock N ssl_mode (a_host a) s) \<and>
      config_number (case config w' ''tsi.worker.id'' of None \<Rightarrow> CInt 1 | Some v \<Rightarrow> v) = Inr i"
    if run: "start_worker S N ssl_mode a c p n w = (Ret (Forked cmd params i socks), w')" for c p n
  proof -
    from run obtain r v where r: "drops (callback S N ssl_mode a p n) w = (Ret r, v)"
      "(case r of None \<Rightarrow> ret Dropped | Some socks \<Rightarrow>
         bnd (cfg_get ''tsi.worker.id'' (CInt 1)) (\<lambda>v.
         bnd (of_sum (config_number v)) (\<lambda>worker_id. ret (Forked c p worker_id socks)))) v = (Ret (Forked cmd params i socks), w')"
      unfolding start_worker_def bnd_Ret by blast
    then have f: "r = Some socks" "v = w'" "c = cmd" "p = params"
      "config_number (case config w' ''tsi.worker.id'' of None \<Rightarrow> CInt 1 | Some v \<Rightarrow> v) = Inr i"
      by (cases r; simp add: run_simps split: sum.splits)+
    with r(1) have "callback S N ssl_mode a p n w = (Ret socks, w')" by (simp add: drops_Some)
    then obtain q x where "open_sockets n S N ssl_mode (a_host a) q x = (Ret socks, w')"
      by (auto simp: callback_def bnd_Ret throw_Ret split: if_splits)
    from open_sockets_good [OF this] f show ?thesis by simp
  qed
  show ?thesis
    using assms start by (auto simp: handle_command_def bnd_Ret ret_Ret leave_def split: prod.splits if_splits)
qed

lemma handle_command_exit:
  assumes "handle_command S N ssl_mode a msg w = (Exit n, v)"
  shows "n = 0"
proof (cases "fst (control_command msg) = ''shutdown''")
  case True
  then show ?thesis using assms by (simp add: handle_command_def case_prod_beta run_simps)
next
  case False
  have "within (serves (a_host a)) (handle_command S N ssl_mode a msg)"
    unfolding handle_command_def case_prod_beta using False
    by (auto intro!: serves.within_rules serves_start_worker serves_set_setting)
  then show ?thesis using assms by (metis within_def fst_conv)
qed

definition result_socks :: "exn + sock \<times> sock option \<times> string option \<Rightarrow> sock list" where
  "result_socks r = (case r of Inl e \<Rightarrow> [] | Inr (s, d, m) \<Rightarrow> s # (case d of None \<Rightarrow> [] | Some s' \<Rightarrow> [s']))"

lemma result_socks_worker:
  "length socks = (if cmd = ''newtsiprocess'' then 2 else 1) \<Longrightarrow> set (result_socks (worker_result cmd params socks)) \<subseteq> set socks"
  by (auto simp: result_socks_def worker_result_def split: prod.splits option.splits if_splits)

lemma serve_one_forked:
  assumes "serve_one S N ssl_mode a w = (Ret (Forked cmd params i socks), v)"
  shows "trusted (config w) ssl_mode a \<and>
    (\<forall>s \<in> set (result_socks (worker_result cmd params socks)). worker_sock N ssl_mode (a_host a) s) \<and>
    config_number (case config v ''tsi.worker.id'' of None \<Rightarrow> CInt 1 | Some v \<Rightarrow> v) = Inr i"
proof -
  have t: "trusted (config w) ssl_mode a" using serve_one_untrusted [of w ssl_mode a S N] assms by auto
  then obtain m where "handle_command S N ssl_mode a m w = (Ret (Forked cmd params i socks), v)"
    using assms by (auto simp: serve_one_trusted split: sum.splits if_splits)
  from handle_command_forked [OF this] t result_socks_worker [of socks cmd params] show ?thesis by blast
qed

lemma serve_one_exit:
  "serve_one S N ssl_mode a w = (Exit n, v) \<Longrightarrow> n = 0 \<and> trusted (config w) ssl_mode a"
  using serve_one_untrusted [of w ssl_mode a S N]
  by (cases "trusted (config w) ssl_mode a")
    (auto simp: serve_one_trusted dest: handle_command_exit split: sum.splits if_splits)

lemma serve_one_dials:
  assumes "serve_one S N ssl_mode a w = (q, v)"
  obtains ds where "dials v = dials w @ ds" "\<forall>d \<in> set ds. trusted (config w) ssl_mode a \<and> calls (a_host a) d"
proof (cases "trusted (config w) ssl_mode a")
  case True
  have "\<exists>ds. dials v = dials w @ ds \<and> (\<forall>d \<in> set ds. calls (a_host a) d)"
    using serves_serve_one [of a w S N ssl_mode] assms by (simp add: serves_def)
  with True that show ?thesis by blast
next
  case False
  then have "v = w" using serve_one_untrusted [OF False, of S N] assms by auto
  then show ?thesis using that [of "[]"] by simp
qed

lemma trusted_cong:
  "c ''tsi.allowed_dns'' = c' ''tsi.allowed_dns'' \<Longrightarrow> c ''tsi.allowed_ips'' = c' ''tsi.allowed_ips'' \<Longrightarrow>
    trusted c ssl_mode a = trusted c' ssl_mode a"
  by (simp add: trusted_def peer_ok_def ip_ok_def)

lemma serve_one_config:
  assumes "serve_one S N ssl_mode a w = (q, v)"
  shows "trusted (config v) ssl_mode b = trusted (config w) ssl_mode b"
    "config v ''tsi.worker.id'' = config w ''tsi.worker.id''"
    "trusted ((config v)(''tsi.worker.id'' \<mapsto> x)) ssl_mode b = trusted (config w) ssl_mode b"
proof -
  have "serves (a_host a) w v" using serves_serve_one [of a w S N ssl_mode] assms by simp
  then have "config v ''tsi.allowed_dns'' = config w ''tsi.allowed_dns''"
    "config v ''tsi.allowed_ips'' = config w ''tsi.allowed_ips''" and
    id: "config v ''tsi.worker.id'' = config w ''tsi.worker.id''"
    by (simp_all add: serves_def)
  then show "trusted (config v) ssl_mode b = trusted (config w) ssl_mode b"
    "trusted ((config v)(''tsi.worker.id'' \<mapsto> x)) ssl_mode b = trusted (config w) ssl_mode b"
    by (auto intro!: trusted_cong)
  show "config v ''tsi.worker.id'' = config w ''tsi.worker.id''" by (rule id)
qed

text \<open>What a run of the server may do, given the peers it trusts.\<close>

definition serves_trusted ::
    "net \<Rightarrow> bool \<Rightarrow> (arrival \<Rightarrow> bool) \<Rightarrow> world \<Rightarrow> unit outcome \<times> world \<times> worker list \<Rightarrow> bool" where
  "serves_trusted N ssl_mode T w run = (case run of (r, w', ws) \<Rightarrow>
     (\<exists>ds. dials w' = dials w @ ds \<and> (\<forall>d \<in> set ds. \<exists>a. T a \<and> calls (a_host a) d)) \<and>
     (\<forall>k \<in> set ws. \<exists>a. T a \<and> (\<forall>s \<in> set (result_socks (wk_result k)). worker_sock N ssl_mode (a_host a) s)) \<and>
     (\<forall>n. r = Exit n \<longrightarrow> n = 0 \<and> (\<exists>a. T a)))"

lemma serves_trusted_mono:
  "serves_trusted N ssl_mode T w run \<Longrightarrow> (\<And>a. T a \<Longrightarrow> U a) \<Longrightarrow> serves_trusted N ssl_mode U w run"
  unfolding serves_trusted_def by (cases run) (simp, blast)

lemma serves_trusted_after:
  assumes "serves_trusted N ssl_mode T v (r, w', ws)"
    and "dials v = dials w @ ds" "\<forall>d \<in> set ds. \<exists>a. T a \<and> calls (a_host a) d"
    and "\<forall>k \<in> set us. \<exists>a. T a \<and> (\<forall>s \<in> set (result_socks (wk_result k)). worker_sock N ssl_mode (a_host a) s)"
  shows "serves_trusted N ssl_mode T w (r, w', us @ ws)"
proof -
  have "\<exists>ds. dials v = dials w @ ds \<and> (\<forall>d \<in> set ds. \<exists>a. T a \<and> calls (a_host a) d)" using assms(2,3) by blast
  moreover have "\<exists>ds. dials w' = dials v @ ds \<and> (\<forall>d \<in> set ds. \<exists>a. T a \<and> calls (a_host a) d)"
    using assms(1) by (simp add: serves_trusted_def)
  ultimately have "\<exists>ds. dials w' = dials w @ ds \<and> (\<forall>d \<in> set ds. \<exists>a. T a \<and> calls (a_host a) d)"
    by (rule grows_trans)
  then show ?thesis using assms(1,4) by (simp add: serves_trusted_def ball_Un)
qed

lemma serve_trusts:
  "serves_trusted N ssl_mode (\<lambda>a. Some a \<in> set as \<and> trusted (config w) ssl_mode a) w (serve S N ssl_mode as w)"
proof (induction as arbitrary: w)
  case Nil
  then show ?case by (simp add: serves_trusted_def)
next
  case (Cons x as)
  let ?T = "\<lambda>a. Some a \<in> set (x # as) \<and> trusted (config w) ssl_mode a"
  show ?case
  proof (cases x)
    case None
    then show ?thesis by (simp add: serves_trusted_def)
  next
    case (Some a)
    obtain q v where run: "serve_one S N ssl_mode a w = (q, v)" by force
    obtain ds where ds: "dials v = dials w @ ds" "\<forall>d \<in> set ds. \<exists>b. ?T b \<and> calls (a_host b) d"
      using serve_one_dials [OF run] Some by (metis list.set_intros(1))
    have next_ok: "serves_trusted N ssl_mode ?T y (serve S N ssl_mode as y)"
      if "\<And>b. trusted (config y) ssl_mode b = trusted (config w) ssl_mode b" for y
      by (rule serves_trusted_mono [OF Cons.IH [of y]]) (simp add: that)
    have stop: "serves_trusted N ssl_mode ?T w (o', v, [])" if "\<And>n. o' = Exit n \<Longrightarrow> n = 0 \<and> ?T a" for o'
      using ds that unfolding serves_trusted_def prod.case list.set(1) by blast
    show ?thesis
    proof (cases q)
      case (Ret res)
      show ?thesis
      proof (cases res)
        case Dropped
        obtain r w' ws where s: "serve S N ssl_mode as v = (r, w', ws)" by (metis prod_cases3)
        from next_ok [of v] serve_one_config(1) [OF run] s have ok: "serves_trusted N ssl_mode ?T v (r, w', ws)" by simp
        from serves_trusted_after [OF ok ds, of "[]"] show ?thesis using Ret Dropped Some run s by simp
      next
        case (Forked cmd params i socks)
        let ?v = "v\<lparr>config := (config v)(''tsi.worker.id'' \<mapsto> CInt (i + 1))\<rparr>"
        let ?k = "\<lparr>wk_id = i, wk_world = v, wk_result = worker_result cmd params socks\<rparr>"
        obtain r w' ws where s: "serve S N ssl_mode as ?v = (r, w', ws)" by (metis prod_cases3)
        have "trusted (config ?v) ssl_mode b = trusted (config w) ssl_mode b" for b
          using serve_one_config(3) [OF run] by simp
        from next_ok [of ?v, OF this] s have ok: "serves_trusted N ssl_mode ?T ?v (r, w', ws)" by simp
        have new: "\<forall>k \<in> set [?k]. \<exists>b. ?T b \<and> (\<forall>s \<in> set (result_socks (wk_result k)). worker_sock N ssl_mode (a_host b) s)"
          using serve_one_forked [of S N ssl_mode a w cmd params i socks v] run Ret Forked Some by auto
        have "dials ?v = dials w @ ds" using ds by simp
        from serves_trusted_after [OF ok this ds(2) new] show ?thesis using Ret Forked Some run s by simp
      qed
    next
      case (Exit n)
      then show ?thesis using stop [of "Exit n"] serve_one_exit [of S N ssl_mode a w n v] run Some by simp
    next
      case (Exc e)
      then show ?thesis using stop [of "Exc e"] run Some by simp
    next
      case Loops
      then show ?thesis using stop [of Loops] run Some by simp
    qed
  qed
qed

text \<open>
  C5: The server deals only with peers it trusts. Whatever arrives at its port, every connection it opens
  goes to the host of an arrived peer whose certificate (with TLS) and address were accepted; every
  worker holds only sockets that are connected to such a host, and these have keep-alive switched on
  and, with TLS, check the certificate of the other side; and only such a peer can shut the server down.
\<close>

theorem connect_only_trusted:
  assumes "listen N w = (Ret ssl_mode, v)"
  shows "serves_trusted N ssl_mode (\<lambda>a. Some a \<in> set arrivals \<and> trusted (config v) ssl_mode a) v (connect S N arrivals w)"
  using serve_trusts assms by (simp add: connect_def)

text \<open>A server without TLS: one unknown host, one worker and one shutdown command.\<close>

definition sample_net :: net where
  "sample_net = \<lparr>platform = ''linux'', families = (\<lambda>h p. Some [AF_INET]), listen_err = (\<lambda>h p b. None),
     bound_port = 4433, tls_err = (\<lambda>h t. None)\<rparr>"

definition sample_server :: world where
  "sample_server = (sample_world False)\<lparr>config := [''tsi.my_addr'' \<mapsto> CStr ''localhost'', ''tsi.my_port'' \<mapsto> CStr ''4433'',
     ''tsi.allowed_ips'' \<mapsto> CStrs [''10.0.0.1''], ''tsi.worker.id'' \<mapsto> CInt 1,
     ''tsi.local_portrange'' \<mapsto> CRange 50000 50000 50002]\<rparr>"

definition arrives :: "string \<Rightarrow> string \<Rightarrow> arrival" where
  "arrives host msg = \<lparr>a_host = host, a_subject = [], a_msg = Inr msg, a_send = None\<rparr>"

definition sample_arrivals :: "arrival option list" where
  "sample_arrivals = [Some (arrives ''192.168.0.9'' ''newtsiprocess 7654''),
     Some (arrives ''10.0.0.1'' ''newtsiprocess 7654''),
     Some (arrives ''10.0.0.1'' ''start-forwarding 7654 db:5432 alice hpc''),
     Some (arrives ''10.0.0.1'' ''shutdown now'')]"

lemma sample_listen: "listen sample_net sample_server = (Ret False, sample_server)"
proof -
  have "py_int ''4433'' = Some 4433" by code_simp
  then show ?thesis
    by (simp add: listen_def create_server_def check_ipv6_support_def run_simps sample_server_def sample_net_def)
qed

theorem connect_only_trusted_witness:
  "serves_trusted sample_net False (\<lambda>a. Some a \<in> set sample_arrivals \<and> a_host a = ''10.0.0.1'') sample_server
     (connect sample_sys sample_net sample_arrivals sample_server)"
proof -
  have "trusted (config sample_server) False a \<longleftrightarrow> a_host a = ''10.0.0.1''" for a
    by (simp add: trusted_def peer_ok_def ip_ok_def sample_server_def)
  then show ?thesis using connect_only_trusted [OF sample_listen, of sample_arrivals sample_sys] by simp
qed

section \<open>Numbering of the workers\<close>

lemma serve_numbers:
  "config w ''tsi.worker.id'' = Some (CInt i) \<Longrightarrow>
    map wk_id (snd (snd (serve S N ssl_mode as w))) = map (\<lambda>j. i + int j) [0..<length (snd (snd (serve S N ssl_mode as w)))]"
proof (induction as arbitrary: w i)
  case (Cons x as)
  show ?case
  proof (cases x)
    case (Some a)
    obtain q v where run: "serve_one S N ssl_mode a w = (q, v)" by force
    have v: "config v ''tsi.worker.id'' = Some (CInt i)" using serve_one_config(2) [OF run] Cons.prems by simp
    show ?thesis
    proof (cases "\<exists>cmd params k socks. q = Ret (Forked cmd params k socks)")
      case True
      then obtain cmd params k socks where q: "q = Ret (Forked cmd params k socks)" by blast
      have "config_number (CInt i) = Inr k"
        using serve_one_forked [OF run [unfolded q]] v by simp
      then have k: "k = i" by (simp add: config_number_def)
      let ?v = "v\<lparr>config := (config v)(''tsi.worker.id'' \<mapsto> CInt (i + 1))\<rparr>"
      obtain r w' ws where s: "serve S N ssl_mode as ?v = (r, w', ws)" by (metis prod_cases3)
      have "map wk_id ws = map (\<lambda>j. i + 1 + int j) [0..<length ws]"
        using Cons.IH [of ?v "i + 1"] s by simp
      also have "\<dots> = map (\<lambda>j. i + int j) (map Suc [0..<length ws])" by (simp add: o_def ac_simps)
      finally show ?thesis using Some run q k s by (simp only: map_Suc_upt upt_conv_Cons list.size prod.sel serve.simps
          prod.case outcome.case served.case list.map worker.simps zero_less_Suc) simp
    next
      case False
      then show ?thesis using Some run Cons.IH [OF v] by (cases q; simp) (auto split: served.split)
    qed
  qed simp
qed simp

text \<open>
  C38: The workers are numbered one after the other from the configured number on, whatever connections
  arrive in between and are refused or fail, so no two workers of a server share a number.
\<close>

theorem workers_numbered:
  assumes "serve S N ssl_mode as w = (r, w', ws)" and "config w ''tsi.worker.id'' = Some (CInt i)"
  shows "map wk_id ws = map (\<lambda>j. i + int j) [0..<length ws] \<and> distinct (map wk_id ws)"
proof -
  have "map wk_id ws = map (\<lambda>j. i + int j) [0..<length ws]"
    using serve_numbers [OF assms(2), of S N ssl_mode as] assms(1) by simp
  then show ?thesis by (simp add: distinct_map inj_on_def)
qed

text \<open>The sample run: the unknown host is refused, the two workers are given their sockets, the server exits.\<close>

lemma sample_strip: "strip ''newtsiprocess 7654'' = ''newtsiprocess 7654''"
    "strip ''start-forwarding 7654 db:5432 alice hpc'' = ''start-forwarding 7654 db:5432 alice hpc''"
    "strip ''shutdown now'' = ''shutdown now''"
    "control_command ''newtsiprocess 7654'' = (''newtsiprocess'', ''7654'')"
    "control_command ''start-forwarding 7654 db:5432 alice hpc'' = (''start-forwarding'', ''7654 db:5432 alice hpc'')"
    "control_command ''shutdown now'' = (''shutdown'', ''now'')"
    "split_once (CHR '' '') ''7654'' = (''7654'', None)"
    "split_once (CHR '' '') ''7654 db:5432 alice hpc'' = (''7654'', Some ''db:5432 alice hpc'')"
    "split_once (CHR '' '') ''db:5432 alice hpc'' = (''db:5432'', Some ''alice hpc'')"
  by code_simp+

definition sample_worker_sock :: "int \<Rightarrow> sock" where
  "sample_worker_sock l = \<lparr>sk_target = Tcp ''10.0.0.1'' (CStr ''7654'') l, sk_tls = None, sk_timeout = None,
     sk_opts = [(''SO_KEEPALIVE'', 1), (''TCP_KEEPIDLE'', 5), (''TCP_KEEPINTVL'', 1), (''TCP_KEEPCNT'', 3)]\<rparr>"

lemma sample_trusted: "trusted (c(''settings'' := x, ''tsi.local_portrange'' := y, ''tsi.worker.id'' := z)) False a = trusted c False a"
  by (intro trusted_cong) simp_all

definition at_port :: "int \<Rightarrow> nat \<Rightarrow> world \<Rightarrow> bool" where
  "at_port p i w \<longleftrightarrow> config w ''tsi.local_portrange'' = Some (CRange p 50000 50002) \<and> p \<in> {50000..50002} \<and>
     config w ''tsi.allowed_ips'' = Some (CStrs [''10.0.0.1'']) \<and> config w ''tsi.unicorex_port'' = None \<and>
     config w ''tsi.worker.id'' = Some (CInt (int i))"

lemma sample_socket:
  assumes "at_port p i w"
  obtains w' where "open_connection sample_sys h q 10 w =
      (Ret \<lparr>sk_target = Tcp h q p, sk_tls = None, sk_timeout = Some 10, sk_opts = []\<rparr>, w')"
    "at_port (next_port 50000 50002 p) i w'"
proof -
  have "connect_res sample_sys x d = None" for x d by (simp add: sample_sys_def)
  then show ?thesis
    using assms that unfolding at_port_def
    by (auto simp: open_connection_def run_simps create_connection_def cfg_set_def next_port_def Let_def numeral_3_eq_3)
qed

lemma sample_start:
  assumes w: "at_port p i w" and "n = 1 \<and> ps = [p] \<or> n = 2 \<and> ps = [p, next_port 50000 50002 p]"
    and params: "fst (split_once (CHR '' '') params) = ''7654''"
  obtains w' where "start_worker sample_sys sample_net False (arrives ''10.0.0.1'' m) cmd params n w =
      (Ret (Forked cmd params (int i) (map sample_worker_sock ps)), w')" "at_port (next_port 50000 50002 (last ps)) i w'"
proof -
  let ?v = "w\<lparr>ctl_out := ctl_out w @ [CHR ''O'', CHR ''K'', NL]\<rparr>"
  have v: "at_port p i ?v" using w by (simp add: at_port_def)
  obtain x where x: "open_connection sample_sys ''10.0.0.1'' (CStr ''7654'') 10 ?v =
      (Ret \<lparr>sk_target = Tcp ''10.0.0.1'' (CStr ''7654'') p, sk_tls = None, sk_timeout = Some 10, sk_opts = []\<rparr>, x)"
    "at_port (next_port 50000 50002 p) i x"
    by (rule sample_socket [OF v])
  obtain y where y: "open_connection sample_sys ''10.0.0.1'' (CStr ''7654'') 10 x =
      (Ret \<lparr>sk_target = Tcp ''10.0.0.1'' (CStr ''7654'') (next_port 50000 50002 p), sk_tls = None, sk_timeout = Some 10, sk_opts = []\<rparr>, y)"
    "at_port (next_port 50000 50002 (next_port 50000 50002 p)) i y"
    by (rule sample_socket [OF x(2)])
  have conf: "configure_socket sample_net \<lparr>sk_target = Tcp ''10.0.0.1'' (CStr ''7654'') l, sk_tls = None,
      sk_timeout = Some 10, sk_opts = []\<rparr> = sample_worker_sock l" for l
    by (simp add: configure_socket_def sample_net_def sample_worker_sock_def Let_def startswith_def)
  define z where "z = (if n = 1 then x else y)"
  have "callback sample_sys sample_net False (arrives ''10.0.0.1'' m) params n w = (Ret (map sample_worker_sock ps), z)"
    using assms(2) w params unfolding callback_def at_port_def
    by (auto simp: arrives_def run_simps get_unicorex_port_def eval_nat_numeral x y conf z_def)
  moreover have "at_port (next_port 50000 50002 (last ps)) i z" using x y assms(2) by (auto simp: z_def)
  ultimately show ?thesis
    using that [of z] unfolding start_worker_def at_port_def
    by (auto simp: run_simps drops_run config_number_def)
qed

lemma sample_one:
  assumes "at_port p i w" "control_command (strip m) = (cmd, params)"
  shows "serve_one S N False (arrives ''10.0.0.1'' m) w = handle_command S N False (arrives ''10.0.0.1'' m) (strip m) w"
proof -
  have "trusted (config w) False (arrives ''10.0.0.1'' m)"
    using assms by (simp add: trusted_def peer_ok_def ip_ok_def at_port_def arrives_def)
  then show ?thesis by (simp add: serve_one_trusted arrives_def)
qed

lemma sample_fork: "at_port p i w \<Longrightarrow> at_port p (Suc i) (w\<lparr>config := (config w)(''tsi.worker.id'' \<mapsto> CInt (int i + 1))\<rparr>)"
  by (simp add: at_port_def)

lemma sample_run:
  obtains w' ws where "serve sample_sys sample_net False sample_arrivals sample_server = (Exit 0, w', ws)"
    "map wk_result ws = [Inr (sample_worker_sock 50000, Some (sample_worker_sock 50001), None),
       Inr (sample_worker_sock 50002, None, Some (''#TSI_FORWARDING_CONNECT_TO db:5432'' @ [NL] @ ''#TSI_IDENTITY alice hpc'' @ [NL]))]"
proof -
  have w: "at_port 50000 1 sample_server" by (simp add: at_port_def sample_server_def)
  have r: "serve_one sample_sys sample_net False (arrives ''192.168.0.9'' ''newtsiprocess 7654'') sample_server = (Ret Dropped, sample_server)"
    by (simp add: serve_one_def check_peer_def run_simps drops_run verify_ip_run sample_server_def arrives_def)
  obtain x where x: "start_worker sample_sys sample_net False (arrives ''10.0.0.1'' ''newtsiprocess 7654'')
      ''newtsiprocess'' ''7654'' 2 sample_server =
        (Ret (Forked ''newtsiprocess'' ''7654'' (int 1) (map sample_worker_sock [50000, 50001])), x)"
    "at_port (next_port 50000 50002 (last [50000, 50001])) 1 x"
    by (rule sample_start [OF w, of 2 "[50000, 50001]" "''7654''"]) (simp_all add: sample_strip next_port_def)
  define v where "v = x\<lparr>config := (config x)(''tsi.worker.id'' \<mapsto> CInt (int 1 + 1))\<rparr>"
  have v: "at_port 50002 2 v" using sample_fork [OF x(2)] by (simp add: v_def next_port_def numeral_2_eq_2)
  obtain y where y: "start_worker sample_sys sample_net False (arrives ''10.0.0.1'' ''start-forwarding 7654 db:5432 alice hpc'')
      ''start-forwarding'' ''7654 db:5432 alice hpc'' 1 v =
        (Ret (Forked ''start-forwarding'' ''7654 db:5432 alice hpc'' (int 2) (map sample_worker_sock [50002])), y)"
    "at_port (next_port 50000 50002 (last [50002])) 2 y"
    by (rule sample_start [OF v, of 1 "[50002]" "''7654 db:5432 alice hpc''"]) (simp_all add: sample_strip)
  define z where "z = y\<lparr>config := (config y)(''tsi.worker.id'' \<mapsto> CInt (int 2 + 1))\<rparr>"
  have z: "at_port 50000 3 z" using sample_fork [OF y(2)] by (simp add: z_def next_port_def numeral_2_eq_2 numeral_3_eq_3)
  have c: "serve_one sample_sys sample_net False (arrives ''10.0.0.1'' ''newtsiprocess 7654'') sample_server =
      (Ret (Forked ''newtsiprocess'' ''7654'' 1 (map sample_worker_sock [50000, 50001])), x)"
    "serve_one sample_sys sample_net False (arrives ''10.0.0.1'' ''start-forwarding 7654 db:5432 alice hpc'') v =
      (Ret (Forked ''start-forwarding'' ''7654 db:5432 alice hpc'' 2 (map sample_worker_sock [50002])), y)"
    "serve_one sample_sys sample_net False (arrives ''10.0.0.1'' ''shutdown now'') z = (Exit 0, z)"
    using x(1) y(1) by (simp_all add: sample_one [OF w] sample_one [OF v] sample_one [OF z] sample_strip handle_command_def leave_def)
  have e: "x\<lparr>config := (config x)(''tsi.worker.id'' \<mapsto> CInt (1 + 1))\<rparr> = v" "y\<lparr>config := (config y)(''tsi.worker.id'' \<mapsto> CInt (2 + 1))\<rparr> = z"
    by (simp_all add: v_def z_def)
  have "serve sample_sys sample_net False sample_arrivals sample_server = (Exit 0, z,
      [\<lparr>wk_id = 1, wk_world = x, wk_result = worker_result ''newtsiprocess'' ''7654'' (map sample_worker_sock [50000, 50001])\<rparr>,
       \<lparr>wk_id = 2, wk_world = y,
         wk_result = worker_result ''start-forwarding'' ''7654 db:5432 alice hpc'' (map sample_worker_sock [50002])\<rparr>])"
    unfolding sample_arrivals_def by (simp only: serve.simps r c e prod.case outcome.case served.case)
  from that [OF this] show ?thesis by (simp add: worker_result_def sample_strip)
qed

theorem workers_numbered_witness:
  "\<exists>w' ws. serve sample_sys sample_net False sample_arrivals sample_server = (Exit 0, w', ws) \<and> map wk_id ws = [1, 2]"
proof -
  obtain w' ws where run: "serve sample_sys sample_net False sample_arrivals sample_server = (Exit 0, w', ws)"
    and "map wk_result ws = [Inr (sample_worker_sock 50000, Some (sample_worker_sock 50001), None),
       Inr (sample_worker_sock 50002, None, Some (''#TSI_FORWARDING_CONNECT_TO db:5432'' @ [NL] @ ''#TSI_IDENTITY alice hpc'' @ [NL]))]"
    by (rule sample_run)
  then have n: "length ws = Suc (Suc 0)" by (metis length_map list.size(3,4) One_nat_def add_Suc_right add_0_right)
  have "config sample_server ''tsi.worker.id'' = Some (CInt 1)" by (simp add: sample_server_def)
  from workers_numbered [OF run this] run n show ?thesis by auto
qed

section \<open>Messages the server does not survive or understand\<close>

text \<open>The command \<open>shutdown\<close> on its own is not understood: the parameters are missing.\<close>

lemma shutdown_alone_dropped:
  assumes "trusted (config w) ssl_mode a" "a_msg a = Inr (''shutdown'' @ [NL])"
  shows "serve_one S N ssl_mode a w = (Ret Dropped, w)"
proof -
  have "control_command (strip (''shutdown'' @ [NL])) = ([], [])" by code_simp
  then show ?thesis using assms by (simp add: serve_one_trusted handle_command_def run_simps)
qed

text \<open>A setting in the documented form \<open>key=value\<close> stops the server.\<close>

lemma set_as_documented_stops:
  assumes "trusted (config w) ssl_mode a" "a_msg a = Inr (''set a=b'' @ [NL])"
  shows "serve_one S N ssl_mode a w = (Exc ValueError, w)"
proof -
  have "control_command (strip (''set a=b'' @ [NL])) = (''set'', ''a=b'')" "split_once (CHR '' '') ''a=b'' = (''a=b'', None)"
    by code_simp+
  then show ?thesis using assms by (simp add: serve_one_trusted handle_command_def set_setting_def run_simps)
qed

text \<open>So does a range of ports that is used up: its error is not an \<open>EnvironmentError\<close>.\<close>

lemma no_free_port_not_caught: "\<not> env_error (no_free_port lo up)"
  by (simp add: no_free_port_def)

section \<open>What the workers inherit\<close>

text \<open>
  A property of the process that the server keeps, whatever it does for a peer and however it numbers its
  workers, holds for the server and every worker it forks.
\<close>

definition inherited :: "(world \<Rightarrow> bool) \<Rightarrow> bool" where
  "inherited J \<longleftrightarrow> (\<forall>h v v'. J v \<longrightarrow> serves h v v' \<longrightarrow> J v') \<and>
     (\<forall>v i. J v \<longrightarrow> J (v\<lparr>config := (config v)(''tsi.worker.id'' \<mapsto> i)\<rparr>))"

lemma serve_inherits:
  assumes J: "inherited J"
  shows "J w \<Longrightarrow> serve S N ssl_mode as w = (r, w', ws) \<Longrightarrow> J w' \<and> (\<forall>k \<in> set ws. J (wk_world k))"
proof (induction as arbitrary: w r w' ws)
  case (Cons x as)
  show ?case
  proof (cases x)
    case (Some a)
    obtain q v where run: "serve_one S N ssl_mode a w = (q, v)" by force
    have v: "J v" using serves_serve_one [of a w S N ssl_mode] run Cons.prems(1) J
      by (simp add: inherited_def)
    show ?thesis
    proof (cases "\<exists>cmd params i socks. q = Ret (Forked cmd params i socks)")
      case True
      then obtain cmd params i socks where q: "q = Ret (Forked cmd params i socks)" by blast
      let ?v = "v\<lparr>config := (config v)(''tsi.worker.id'' \<mapsto> CInt (i + 1))\<rparr>"
      obtain r' x' us where s: "serve S N ssl_mode as ?v = (r', x', us)" by (metis prod_cases3)
      have "J ?v" using v J by (simp add: inherited_def)
      from Cons.IH [OF this s] show ?thesis using Cons.prems(2) Some run q s v by auto
    next
      case False
      then show ?thesis using Cons.prems(2) Some run Cons.IH [OF v, of r w' ws] v
        by (cases q) (auto split: served.splits)
    qed
  qed (use Cons.prems in auto)
qed simp

end
