(* ===== verification/Forwarding.thy ===== *)
theory Forwarding
  imports Dispatch Server PyFloat
begin

text \<open>
  Port forwarding: class \<open>Forwarder\<close> of \<open>lib/Connector.py\<close>, and the part of \<open>TSI.main\<close> and
  \<open>TSI.handle_function\<close> that runs it. A forwarding worker has one socket to UNICORE/X; it takes on the
  identity of the user, connects to the service and copies bytes between the two sockets in two threads
  until one side closes. An error ends the process.
\<close>

section \<open>Connecting to the service\<close>

text \<open>\<open>close(status)\<close> closes both sockets, which ends with the process anyway, and exits.\<close>

definition close_forwarder :: "int \<Rightarrow> 'a tsi" where
  "close_forwarder status = leave status"

definition forwarder_failed :: "exn \<Rightarrow> unit tsi" where
  "forwarder_failed e = close_forwarder 1"

definition forwarder_rate_limit :: "int tsi" where
  "forwarder_rate_limit = bnd (cfg_get ''tsi.port_forwarding.rate_limit'' (CInt 0)) (\<lambda>v. of_sum (int_of_cval v))"

definition connect_service :: "sys \<Rightarrow> net \<Rightarrow> string \<Rightarrow> sock tsi" where
  "connect_service S N message =
     (case extract_parameter message ''FORWARDING_CONNECT_TO'' None of
        None \<Rightarrow> close_forwarder 1
      | Some service \<Rightarrow>
          (if startswith service ''file:'' then
             bnd (create_connection S (Unix (drop 5 service)) 0) (\<lambda>s. ret (s\<lparr>sk_timeout := None\<rparr>))
           else
             (case split_ch (CHR '':'') service of
                [service_host, service_port] \<Rightarrow>
                  bnd (open_connection S service_host (CStr service_port) 10) (\<lambda>s. ret (configure_socket N s))
              | _ \<Rightarrow> throw ValueError)))"

definition start_forwarding :: "sys \<Rightarrow> net \<Rightarrow> string \<Rightarrow> unit tsi" where
  "start_forwarding S N message = bnd (connect_service S N message) (\<lambda>_. ret ())"

text \<open>The last branch of \<open>TSI.main\<close>; it returns the limit of the rate for the threads.\<close>

definition forwarding_worker :: "sys \<Rightarrow> net \<Rightarrow> string \<Rightarrow> int tsi" where
  "forwarding_worker S N msg =
     bnd forwarder_rate_limit (\<lambda>limit.
     bnd (handle_function_with forwarder_failed S (start_forwarding S N) ''_START_FORWARDING'' msg) (\<lambda>_.
     ret limit))"

section \<open>Copying\<close>

text \<open>
  One direction. \<open>recv\<close> gives some bytes (none at the end of the stream) or fails; \<open>send\<close> takes all or
  only some of the bytes, or fails. The list holds what the calls of \<open>recv\<close> give, \<open>accepts i b\<close> how many
  bytes of \<open>b\<close> the \<open>i\<close>-th \<open>send\<close> takes, \<open>elapsed i\<close> the milliseconds since the start, as the thread
  computes them after it. The result: the bytes passed on, the pauses, and how the thread ends.
\<close>

datatype received = Data string | RecvFails

datatype thread_end = Stopped | ThreadDies exn | Waits

definition too_fast :: "int \<Rightarrow> nat \<Rightarrow> int \<Rightarrow> bool" where
  "too_fast limit t interval \<longleftrightarrow> interval > 0 \<and> int (float_trunc (1000 * t) (nat interval)) \<ge> limit"

fun transfer :: "int \<Rightarrow> (nat \<Rightarrow> string \<Rightarrow> nat option) \<Rightarrow> (nat \<Rightarrow> int) \<Rightarrow> nat \<Rightarrow> nat \<Rightarrow> nat \<Rightarrow> received list
    \<Rightarrow> string \<times> nat list \<times> thread_end" where
  "transfer limit accepts elapsed i t sleep_time [] = ([], [], Waits)"
| "transfer limit accepts elapsed i t sleep_time (RecvFails # rs) = ([], [], Stopped)"
| "transfer limit accepts elapsed i t sleep_time (Data buffer # rs) =
     (if buffer = [] then ([], [], Stopped)
      else
        (case accepts i buffer of
           None \<Rightarrow> ([], [], Stopped)
         | Some n \<Rightarrow>
             (let sent = take n buffer; t' = t + length buffer in
              if limit > 0 then
                (let interval = elapsed i + 1 in
                 if interval = 0 then (sent, [], ThreadDies ZeroDivisionError)
                 else if \<not> too_fast limit t' interval then
                   (let (out, pauses, e) = transfer limit accepts elapsed (Suc i) t' (sleep_time div 2) rs
                    in (sent @ out, pauses, e))
                 else
                   (let (out, pauses, e) = transfer limit accepts elapsed (Suc i) t' (sleep_time + 5) rs
                    in (sent @ out, (sleep_time + 5) # pauses, e)))
              else
                (let (out, pauses, e) = transfer limit accepts elapsed (Suc i) t' sleep_time rs
                 in (sent @ out, pauses, e)))))"

section \<open>Who connects to the service\<close>

text \<open>Steps that open connections with the credentials of the process, which they keep, and start no command.\<close>

definition dials_own :: "world \<Rightarrow> world \<Rightarrow> bool" where
  "dials_own w w' \<longleftrightarrow> cred w' = cred w \<and> trace w' = trace w \<and> (\<exists>ds. dials w' = dials w @ ds \<and> (\<forall>d \<in> set ds. dl_cred d = cred w))"

interpretation dials_own: step_relation dials_own
proof unfold_locales
  show "dials_own w w" for w by (simp add: dials_own_def)
  show "dials_own w v \<Longrightarrow> dials_own v x \<Longrightarrow> dials_own w x" for w v x
    unfolding dials_own_def using grows_trans [of "dials v" "dials w" "\<lambda>d. dl_cred d = cred w" "dials x"] by simp
qed

lemma dials_own_connection: "within dials_own (create_connection S t n)"
  by (simp add: within_def create_connection_def Let_def dials_own_def split: option.split)

lemma dials_own_cfg: "within dials_own (cfg_set k v)" "within dials_own (cfg_sub k)" "within dials_own (cfg_get k d)"
  by (simp_all add: within_def cfg_set_def run_simps dials_own_def split: option.split)

lemma dials_own_attempts: "within dials_own (connect_attempts n S h q t u lo up p)"
  by (induction n arbitrary: p)
    (auto intro!: dials_own.within_rules dials_own_connection dials_own_cfg)

lemma dials_own_open: "within dials_own (open_connection S h q t)"
  unfolding open_connection_def
  by (intro dials_own.within_rules dials_own_cfg within_case_cval dials_own_attempts)

lemma connect_service_own: "dials_own w (snd (connect_service S N m w))"
proof (cases "extract_parameter m ''FORWARDING_CONNECT_TO'' None")
  case None
  then show ?thesis by (simp add: connect_service_def close_forwarder_def run_simps dials_own.R_refl)
next
  case (Some service)
  have "within dials_own (connect_service S N m)"
    unfolding connect_service_def Some option.case
    by (intro dials_own.within_rules dials_own_connection dials_own_open)
  then show ?thesis by (simp add: within_def)
qed

lemma start_forwarding_own: "start_forwarding S N m w = (r, w') \<Longrightarrow> dials_own w w'"
  using connect_service_own [of w S N m]
  by (auto simp: start_forwarding_def run_simps split: prod.splits outcome.splits)

text \<open>What \<open>handle_function\<close> does for a forwarder: no session, no way back, and an error ends the process.\<close>

lemma handle_forwarding:
  assumes "id_config (config w) eu eg enforce fail"
  shows "handle_function_with forwarder_failed S f ''_START_FORWARDING'' msg w =
    (case identity_of msg of
       None \<Rightarrow> (Exit 1, w)
     | Some (u, g) \<Rightarrow>
         (case bnd (become_user (cache_ops S) u (split_ch (CHR '':'') g)) (\<lambda>_. f msg) w of
            (Exc e, v) \<Rightarrow> (Exit 1, v)
          | (Ret x, v) \<Rightarrow> (Ret (), v)
          | (Exit n, v) \<Rightarrow> (Exit n, v)
          | (Loops, v) \<Rightarrow> (Loops, v)))"
proof -
  have "handle_function_with forwarder_failed S f ''_START_FORWARDING'' msg w =
      handle_with forwarder_failed S True False f ''_START_FORWARDING'' msg w"
    using assms by (auto simp: handle_function_with_def run_simps id_config_def spawning_commands_def split: option.split)
  also have "\<dots> = (case identity_of msg of
       None \<Rightarrow> (Exit 1, w)
     | Some (u, g) \<Rightarrow>
         (case bnd (become_user (cache_ops S) u (split_ch (CHR '':'') g)) (\<lambda>_. f msg) w of
            (Exc e, v) \<Rightarrow> (Exit 1, v)
          | (Ret x, v) \<Rightarrow> (Ret (), v)
          | (Exit n, v) \<Rightarrow> (Exit n, v)
          | (Loops, v) \<Rightarrow> (Loops, v)))"
    by (cases "identity_of msg")
      (auto simp: handle_with_def request_identity_def run_request_def run_simps forwarder_failed_def close_forwarder_def
        bnd_assoc split: prod.split outcome.split)
  finally show ?thesis .
qed

lemma forwarding_run:
  assumes "worker_ok S eu eg enforce fail w" and "forwarding_worker S N msg w = (r, w')"
  shows "((dials w' = dials w \<and> (\<forall>l. r \<noteq> Ret l)) \<or>
    (\<exists>u g c ds. identity_of msg = Some (u, g) \<and> runs_for S w enforce fail u c \<and> cred w' = c \<and>
       dials w' = dials w @ ds \<and> (\<forall>d \<in> set ds. dl_cred d = c))) \<and>
    (\<exists>evs. trace w' = trace w @ evs \<and> (\<forall>e \<in> set evs. \<exists>u. ev_argv e = id_argv u))"
proof -
  have id: "id_config (config w) eu eg enforce fail" and inv: "cache_inv S w" using assms(1) by (auto simp: worker_ok_def)
  have limit: "forwarder_rate_limit w = (q, w) \<and> (\<forall>n. q \<noteq> Exit n)" if "forwarder_rate_limit w = (q, x)" for q x
    using that by (auto simp: forwarder_rate_limit_def run_simps split: option.splits sum.splits)
  obtain q where q: "forwarder_rate_limit w = (q, w)" using limit by (metis prod.collapse)
  show ?thesis
  proof (cases "\<exists>l. q = Ret l")
    case False
    with assms(2) q show ?thesis by (cases q) (auto simp: forwarding_worker_def run_simps)
  next
    case True
    then obtain l where l: "forwarder_rate_limit w = (Ret l, w)" using q by blast
    obtain t x where h: "handle_function_with forwarder_failed S (start_forwarding S N) ''_START_FORWARDING'' msg w = (t, x)"
      by force
    have r: "w' = x \<and> ((\<exists>y. r = Ret y) \<longrightarrow> t = Ret ())"
      using assms(2) l h by (cases t) (auto simp: forwarding_worker_def run_simps)
    show ?thesis
    proof (cases "identity_of msg")
      case None
      with h r show ?thesis by (auto simp: handle_forwarding [OF id])
    next
      case (Some ug)
      obtain u g where ug: "identity_of msg = Some (u, g)" using Some by (cases ug) simp
      obtain b v where b: "become_user (cache_ops S) u (split_ch (CHR '':'') g) w = (b, v)" by force
      have v: "dials v = dials w" and tr: "\<exists>evs. trace v = trace w @ evs \<and> (\<forall>e \<in> set evs. \<exists>u. ev_argv e = id_argv u)"
        using within_run [OF switching_become_user b] by (auto simp: switching_def same_io_def)
      show ?thesis
      proof (cases "\<exists>y. b = Ret y")
        case False
        then have "x = v \<and> (\<forall>y. t \<noteq> Ret y)" using h ug b by (cases b) (auto simp: handle_forwarding [OF id] run_simps)
        with r v tr show ?thesis by auto
      next
        case True
        then obtain y where y: "b = Ret y" ..
        obtain p z where s: "start_forwarding S N msg v = (p, z)" by force
        have "x = z" using h ug b y s by (cases p) (auto simp: handle_forwarding [OF id] run_simps)
        moreover have "dials_own v z" by (rule start_forwarding_own [OF s])
        moreover have "runs_for S w enforce fail u (cred v)"
          by (rule become_user_runs_for [OF inv id b [unfolded y]])
        ultimately show ?thesis using r ug v tr by (auto simp: dials_own_def)
      qed
    qed
  qed
qed

text \<open>
  C8: A port forwarder connects to the service only as the user named in the request: every connection it
  opens is made with the ids of that user, who is known to the system and not root (and whose groups
  are his own when foreign ones are refused). If there is no identity in the request or the switch
  fails, the process ends with an error before any connection is opened.
\<close>

theorem forwarding_as_user:
  assumes "worker_ok S eu eg enforce fail w" and "forwarding_worker S N msg w = (r, w')"
  shows "(dials w' = dials w \<and> (\<forall>l. r \<noteq> Ret l)) \<or>
    (\<exists>u g c ds. identity_of msg = Some (u, g) \<and> runs_for S w enforce fail u c \<and> cred w' = c \<and>
       dials w' = dials w @ ds \<and> (\<forall>d \<in> set ds. dl_cred d = c))"
  using forwarding_run [OF assms] by blast

definition sample_forwarder :: world where
  "sample_forwarder = (sample_world True)\<lparr>
     config := (sample_config True)(''tsi.local_portrange'' \<mapsto> CRange 0 (-1) (-1))\<rparr>"

definition sample_forwarding :: string where
  "sample_forwarding = ''#TSI_FORWARDING_CONNECT_TO db:5432'' @ [NL] @ ''#TSI_IDENTITY alice hpc:DEFAULT_GID'' @ [NL]"

lemma sample_forwarder_ok: "worker_ok sample_sys 0 0 True True sample_forwarder"
proof -
  have "cache_inv sample_sys sample_forwarder" using sample_inv [of True]
    by (simp add: cache_inv_def sample_forwarder_def)
  moreover have "id_config (config sample_forwarder) 0 0 True True" using sample_id_config [of True]
    by (simp add: id_config_def sample_forwarder_def sample_config_def)
  ultimately show ?thesis by (simp add: worker_ok_def privileged_def root_cred_def sample_forwarder_def)
qed

lemma sample_forwarder_become:
  obtains v where "become_user (cache_ops sample_sys) ''alice'' [''hpc'', ''DEFAULT_GID''] sample_forwarder = (Ret True, v)"
    and "config v = config sample_forwarder" "cred v = taken_on root_cred 0 1000 200 [200, 100]"
proof -
  have c: "cache_inv sample_sys sample_forwarder" "id_config (config sample_forwarder) 0 0 True True"
    using sample_forwarder_ok by (simp_all add: worker_ok_def)
  have "user_answer sample_sys sample_forwarder ''alice'' = user_answer sample_sys (sample_world True) ''alice''"
    by (simp add: user_answer_def sample_forwarder_def live_def fresh_entry_def fresh_gids_def sample_world_def new_user_cache_def)
  moreover have "group_answer sample_sys sample_forwarder = group_answer sample_sys (sample_world True)"
    by (rule ext) (simp add: group_answer_def sample_forwarder_def live_def sample_world_def new_user_cache_def)
  ultimately have p: "plan_identity True True ''alice'' (user_answer sample_sys sample_forwarder ''alice'')
      (group_answer sample_sys sample_forwarder) [''hpc'', ''DEFAULT_GID''] = Inr (1000, 200, [200, 100])"
    using sample_plan [of True] by simp
  have "privileged (cred sample_forwarder)" "ids_ok 1000 200 [200, 100]"
    by (simp_all add: sample_forwarder_def privileged_def root_cred_def ids_ok_def ngroups_max_def)
  from cache.become_user_granted [OF c p this] that show thesis
    by (auto simp: sample_forwarder_def)
qed

lemma sample_forwarding_run:
  obtains w' where "forwarding_worker sample_sys sample_net sample_forwarding sample_forwarder = (Ret 0, w')"
    "map dl_target (dials w') = [Tcp ''db'' (CStr ''5432'') 0]"
proof -
  obtain v where v: "become_user (cache_ops sample_sys) ''alice'' [''hpc'', ''DEFAULT_GID''] sample_forwarder = (Ret True, v)"
    "config v = config sample_forwarder" "cred v = taken_on root_cred 0 1000 200 [200, 100]"
    by (rule sample_forwarder_become)
  have d: "dials v = []" using within_run [OF switching_become_user v(1)]
    by (simp add: switching_def same_io_def sample_forwarder_def sample_world_def)
  have i: "identity_of sample_forwarding = Some (''alice'', ''hpc:DEFAULT_GID'')"
    "split_ch (CHR '':'') ''hpc:DEFAULT_GID'' = [''hpc'', ''DEFAULT_GID'']"
    "extract_parameter sample_forwarding ''FORWARDING_CONNECT_TO'' None = Some ''db:5432''"
    "split_ch (CHR '':'') ''db:5432'' = [''db'', ''5432'']" "startswith ''db:5432'' ''file:'' = False"
    by code_simp+
  let ?d = "\<lparr>dl_cred = cred v, dl_target = Tcp ''db'' (CStr ''5432'') 0\<rparr>"
  have s: "start_forwarding sample_sys sample_net sample_forwarding v = (Ret (), v\<lparr>dials := [?d]\<rparr>)"
    using v(2) d
    by (simp add: start_forwarding_def connect_service_def i open_connection_def run_simps create_connection_def
        sample_forwarder_def sample_sys_def)
  have id: "id_config (config sample_forwarder) 0 0 True True" using sample_forwarder_ok by (simp add: worker_ok_def)
  have "forwarder_rate_limit sample_forwarder = (Ret 0, sample_forwarder)"
    by (simp add: forwarder_rate_limit_def run_simps sample_forwarder_def sample_config_def)
  moreover have "handle_function_with forwarder_failed sample_sys (start_forwarding sample_sys sample_net) ''_START_FORWARDING''
      sample_forwarding sample_forwarder = (Ret (), v\<lparr>dials := [?d]\<rparr>)"
    using v(1) s by (simp add: handle_forwarding [OF id] i bnd_def)
  ultimately have "forwarding_worker sample_sys sample_net sample_forwarding sample_forwarder = (Ret 0, v\<lparr>dials := [?d]\<rparr>)"
    by (simp add: forwarding_worker_def bnd_run ret_run)
  then show ?thesis using that by simp
qed

theorem forwarding_as_user_witness:
  "\<exists>w' c. forwarding_worker sample_sys sample_net sample_forwarding sample_forwarder = (Ret 0, w') \<and>
     dials w' = [\<lparr>dl_cred = c, dl_target = Tcp ''db'' (CStr ''5432'') 0\<rparr>] \<and>
     runs_for sample_sys sample_forwarder True True ''alice'' c"
proof -
  obtain w' where r: "forwarding_worker sample_sys sample_net sample_forwarding sample_forwarder = (Ret 0, w')"
    and t: "map dl_target (dials w') = [Tcp ''db'' (CStr ''5432'') 0]"
    by (rule sample_forwarding_run)
  have i: "identity_of sample_forwarding = Some (''alice'', ''hpc:DEFAULT_GID'')" by code_simp
  have "dials sample_forwarder = []" by (simp add: sample_forwarder_def sample_world_def)
  with forwarding_as_user [OF sample_forwarder_ok r] t i obtain c where
    c: "runs_for sample_sys sample_forwarder True True ''alice'' c" "\<forall>d \<in> set (dials w'). dl_cred d = c" by auto
  from t obtain d where "dials w' = [d]" "dl_target d = Tcp ''db'' (CStr ''5432'') 0" by auto
  with c r show ?thesis by (cases d) auto
qed

section \<open>What the threads copy\<close>

lemma transfer_all:
  assumes "\<forall>i b. accepts i b = Some (length b)" and "\<forall>i. 0 \<le> elapsed i" and "[] \<notin> set bs"
  shows "fst (transfer limit accepts elapsed i t s (map Data bs @ [Data []])) = concat bs \<and>
    snd (snd (transfer limit accepts elapsed i t s (map Data bs @ [Data []]))) = Stopped"
  using assms(3)
proof (induction bs arbitrary: i t s)
  case (Cons b bs)
  then have b: "b \<noteq> []" and ih: "fst (transfer limit accepts elapsed j u r (map Data bs @ [Data []])) = concat bs"
    "snd (snd (transfer limit accepts elapsed j u r (map Data bs @ [Data []]))) = Stopped" for j u r by auto
  have "elapsed i + 1 \<noteq> 0" using assms(2) by (metis add_less_same_cancel2 less_add_one not_less zless_add1_eq)
  moreover have "accepts i b = Some (length b)" using assms(1) by blast
  ultimately show ?case using b ih by (simp add: case_prod_beta Let_def)
qed simp

text \<open>
  C40: One direction of a port forwarder passes on exactly the bytes it receives, in order, and stops when
  the sender closes its side, whatever the limit of the rate, provided that every \<open>send\<close> takes all of
  the bytes it is given.
\<close>

theorem transfer_copies:
  assumes "\<forall>i b. accepts i b = Some (length b)" and "\<forall>i. 0 \<le> elapsed i" and "[] \<notin> set bs"
    and "transfer limit accepts elapsed 0 0 0 (map Data bs @ [Data []]) = (out, pauses, e)"
  shows "out = concat bs \<and> e = Stopped"
  using transfer_all [OF assms(1-3), of limit 0 0 0] assms(4) by simp

theorem transfer_copies_witness:
  "\<exists>pauses. transfer 2000 (\<lambda>i b. Some (length b)) (\<lambda>i. int i * 10) 0 0 0 (map Data [''SELECT '', ''1;''] @ [Data []]) =
     (''SELECT 1;'', pauses, Stopped)"
proof -
  obtain out pauses e where
    t: "transfer 2000 (\<lambda>i b. Some (length b)) (\<lambda>i. int i * 10) 0 0 0 (map Data [''SELECT '', ''1;''] @ [Data []]) = (out, pauses, e)"
    by (metis prod_cases3)
  from transfer_copies [OF _ _ _ t] have "out = ''SELECT 1;''" "e = Stopped" by simp_all
  with t show ?thesis by auto
qed

text \<open>
  A \<open>send\<close> that takes only a part of the buffer (which a socket may do) makes the forwarder drop the
  rest: it is never sent, and the transfer goes on with the next bytes as if nothing was missing.
\<close>

theorem transfer_drops_unsent:
  assumes "b \<noteq> []" and "accepts 0 b = Some n" and "n < length b" and "limit \<le> 0"
  shows "\<exists>pauses e. transfer limit accepts elapsed 0 0 0 (Data b # rs) =
    (take n b @ fst (transfer limit accepts elapsed 1 (length b) 0 rs), pauses, e)"
  using assms by (auto simp: case_prod_beta Let_def)

theorem transfer_drops_unsent_witness:
  "fst (transfer 0 (\<lambda>i b. Some (min 4 (length b))) (\<lambda>i. 0) 0 0 0 [Data ''SELECT '', Data ''1;'', Data []]) = ''SELE1;''"
proof -
  have "''SELECT '' \<noteq> []" "(\<lambda>i b. Some (min 4 (length b))) 0 ''SELECT '' = Some 4" "4 < length ''SELECT ''" "(0::int) \<le> 0"
    by simp_all
  from transfer_drops_unsent [of "''SELECT ''" "\<lambda>i b. Some (min 4 (length b))" 4 0 "\<lambda>i. 0" "[Data ''1;'', Data []]", OF this]
  show ?thesis by auto
qed

end
