(* ===== verification/Startup.thy ===== *)
theory Startup
  imports Dispatch Forwarding
begin

text \<open>
  \<open>TSI.main\<close>: from the command line and the configuration file to the workers. The set-up reads the
  configuration, prepares the user cache and the batch system, and starts the server; a worker runs the
  main loop or a port forwarder. The theorems join the components: the values of a configuration that was
  read have the types the components rely on, every worker starts in the state in which the theorems
  about requests hold, and what a worker runs is run as a user.
\<close>

section \<open>The program\<close>

definition required_version :: "nat list" where
  "required_version = [3, 9, 0]"

text \<open>Tuples are compared from left to right.\<close>

fun tuple_ge :: "nat list \<Rightarrow> nat list \<Rightarrow> bool" where
  "tuple_ge xs [] = True"
| "tuple_ge [] (y # ys) = False"
| "tuple_ge (x # xs) (y # ys) = (y < x \<or> x = y \<and> tuple_ge xs ys)"

definition assert_version :: "nat list \<Rightarrow> bool" where
  "assert_version version_info = tuple_ge version_info required_version"

definition bss_init :: "sys \<Rightarrow> bss_kind \<Rightarrow> unit tsi" where
  "bss_init S k = (if k = Lsf then lsf_init S (bss_of k) else init_base S (bss_of k))"

text \<open>
  \<open>main\<close> up to the start of the server: the version of Python, the arguments, what the files contain and
  what host names resolve to are parameters.
\<close>

definition set_config :: "exn + config \<Rightarrow> unit tsi" where
  "set_config r = bnd (of_sum r) (\<lambda>c. modify (\<lambda>w. w\<lparr>config := c\<rparr>))"

definition tsi_setup ::
    "sys \<Rightarrow> bss_kind \<Rightarrow> nat list \<Rightarrow> (string \<Rightarrow> string option) \<Rightarrow> (string \<Rightarrow> string list option) \<Rightarrow> string list \<Rightarrow> unit tsi" where
  "tsi_setup S k version_info contents getaddrinfo argv =
     (if \<not> assert_version version_info then
        throw (RuntimeError ''Unsupported version of Python! Must be (3, 9, 0) or later.'')
      else if length argv < 2 then throw (RuntimeError ''Please specify the config file!'')
      else
        bnd (set_config (read_config_file contents (argv ! 1))) (\<lambda>_.
        bnd (cfg_sub ''tsi.debug'') (\<lambda>verbose.
        bnd (cfg_sub ''tsi.use_syslog'') (\<lambda>use_syslog.
        bnd (cfg_sub ''tsi.open_user_sessions'') (\<lambda>_.
        bnd (gets config) (\<lambda>c.
        bnd (set_config (finish_setup getaddrinfo c)) (\<lambda>_.
        bnd initialize (\<lambda>_.
        bnd (bnd (cfg_str ''tsi.safe_dir'') os_chdir) (\<lambda>_.
        bss_init S k)))))))))"

text \<open>
  The server process and its workers. When \<open>connect\<close> comes back in the server process it returns nothing,
  which the assignment in \<open>main\<close> cannot unpack.
\<close>

definition tsi_main ::
    "sys \<Rightarrow> net \<Rightarrow> bss_kind \<Rightarrow> nat list \<Rightarrow> (string \<Rightarrow> string option) \<Rightarrow> (string \<Rightarrow> string list option) \<Rightarrow> string list
      \<Rightarrow> arrival option list \<Rightarrow> world \<Rightarrow> unit outcome \<times> world \<times> worker list" where
  "tsi_main S N k version_info contents getaddrinfo argv arrivals w =
     (case tsi_setup S k version_info contents getaddrinfo argv w of
        (Ret _, v) \<Rightarrow>
          (case connect S N arrivals v of
             (r, x, ws) \<Rightarrow> ((case r of Ret _ \<Rightarrow> Exc TypeError | _ \<Rightarrow> r), x, ws))
      | (Exc e, v) \<Rightarrow> (Exc e, v, [])
      | (Exit n, v) \<Rightarrow> (Exit n, v, [])
      | (Loops, v) \<Rightarrow> (Loops, v, []))"

text \<open>
  The rest of \<open>main\<close> in a worker, with all that the peer sends on the control and data connections.
\<close>

definition worker_main :: "sys \<Rightarrow> net \<Rightarrow> bss_kind \<Rightarrow> string \<Rightarrow> string \<Rightarrow> worker \<Rightarrow> unit outcome \<times> world" where
  "worker_main S N k control data wk =
     (let w = (wk_world wk)\<lparr>ctl_in := control, ctl_out := [], dat_in := data, dat_out := []\<rparr> in
      case wk_result wk of
        Inl e \<Rightarrow> (Exc e, w)
      | Inr (socket1, socket2, None) \<Rightarrow>
          (case socket2 of None \<Rightarrow> (Exc AttributeError, w) | Some _ \<Rightarrow> process Sockets S k False w)
      | Inr (socket1, socket2, Some msg) \<Rightarrow> bnd (forwarding_worker S N msg) (\<lambda>_. ret ()) w)"

section \<open>The types of the configuration\<close>

text \<open>
  The type of each setting: the switches are truth values (the debug level may also be the default 0), the
  ACL table, the key files and the DNs are structured, a few settings have a number by default, and all
  others are text.
\<close>

definition has_type :: "string \<Rightarrow> cval \<Rightarrow> bool" where
  "has_type k v \<longleftrightarrow>
     (if k \<in> set boolean_keys then (\<exists>b. v = CBool b) \<or> k = ''tsi.debug'' \<and> v = CInt 0
      else if k = ''tsi.acl'' then \<exists>d. v = CDict d
      else if k = ''tsi.keyfiles'' then \<exists>ks. v = CStrs ks
      else if k = ''tsi.allowed_dns'' then (\<exists>ds. v = CDns ds) \<or> (\<exists>s. v = CStr s)
      else if k = ''tsi.allowed_ips'' then (\<exists>ips. v = CStrs ips) \<or> (\<exists>s. v = CStr s)
      else if k = ''tsi.local_portrange'' then v = CNone \<or> (\<exists>s. v = CStr s) \<or> (\<exists>f l u. v = CRange f l u)
      else if k \<in> {''tsi.userCacheTtl'', ''tsi.worker.id'', ''tsi.my_port''} then (\<exists>i. v = CInt i) \<or> (\<exists>s. v = CStr s)
      else if k \<in> {''tsi.testing'', ''tsi.posixacl_enabled'', ''tsi.nfsacl_enabled''} then (\<exists>b. v = CBool b) \<or> (\<exists>s. v = CStr s)
      else \<exists>s. v = CStr s)"

definition typed :: "config \<Rightarrow> bool" where
  "typed c \<longleftrightarrow> (\<forall>k v. c k = Some v \<longrightarrow> has_type k v)"

lemma typed_empty: "typed Map.empty"
  by (simp add: typed_def)

lemma typed_upd: "typed c \<Longrightarrow> has_type k v \<Longrightarrow> typed (c(k \<mapsto> v))"
  by (simp add: typed_def)

lemma default_typed: "typed get_default_config"
  unfolding get_default_config_def
  by (intro typed_upd typed_empty) (auto simp: has_type_def boolean_keys_def)

lemma process_value_typed:
  assumes "typed c" and "process_config_value key value c = Inr c'"
  shows "typed c'"
proof (cases "key \<in> set boolean_keys \<or> startswith key ''tsi.acl'' \<or> key = ''tsi.keyfiles''")
  case True
  with assms show ?thesis
    by (auto simp: process_config_value_def has_type_def boolean_keys_def startswith_def
        intro!: typed_upd split: if_splits option.splits cval.splits)
next
  case False
  have acl: "key \<noteq> ''tsi.acl''" using False by (auto simp: startswith_def)
  have str: "has_type key (CStr v)" for v using False acl by (simp add: has_type_def)
  have legacy: "has_type ''tsi_unicorex_machine'' (CStr v)" "has_type ''tsi_unicorex_port'' (CStr v)"
    "has_type ''tsi.allowed_dns'' (CDns ds)" for v ds
    by (simp_all add: has_type_def boolean_keys_def)
  show ?thesis
    using False assms str legacy
    by (auto simp: process_config_value_def sbind_def
        intro!: typed_upd split: if_splits option.splits cval.splits sum.splits)
qed

lemma config_lines_induct:
  assumes step: "\<And>key value c c'. P c \<Longrightarrow> process_config_value key value c = Inr c' \<Longrightarrow> P c'"
  shows "P c \<Longrightarrow> config_lines ls c = Inr c' \<Longrightarrow> P c'"
proof (induction ls arbitrary: c)
  case (Cons l ls)
  show ?case
  proof (cases "config_line l")
    case None
    with Cons show ?thesis by simp
  next
    case (Some kv)
    then obtain v where "process_config_value (fst kv) (snd kv) c = Inr v" "config_lines ls v = Inr c'"
      using Cons.prems(2) by (cases kv) (auto simp: sbind_def split: sum.splits)
    with step [OF Cons.prems(1)] Cons.IH show ?thesis by blast
  qed
qed simp

lemma config_lines_typed: "typed c \<Longrightarrow> config_lines ls c = Inr c' \<Longrightarrow> typed c'"
  by (rule config_lines_induct [where P = typed]) (rule process_value_typed)

lemma process_value_keeps:
  "process_config_value key value c = Inr c' \<Longrightarrow> dom c \<subseteq> dom c'"
  by (auto simp: process_config_value_def sbind_def split: if_splits option.splits cval.splits sum.splits)

lemma config_lines_keeps: "config_lines ls c = Inr c' \<Longrightarrow> dom c \<subseteq> dom c'"
  by (rule config_lines_induct [where P = "\<lambda>x. dom c \<subseteq> dom x"]) (blast dest: process_value_keeps, simp_all)

lemma read_config_typed:
  assumes "read_config_file contents f = Inr c"
  shows "typed c" "dom get_default_config \<subseteq> dom c"
  using assms by (auto simp: read_config_file_def split: option.splits
      dest: config_lines_typed [OF default_typed] config_lines_keeps)

lemma resolve_typed: "setup_allowed_ips g c = Inr c' \<Longrightarrow> \<exists>ips. c' = c(''tsi.allowed_ips'' \<mapsto> CStrs ips)"
  by (auto simp: setup_allowed_ips_def split: option.splits cval.splits)

lemma portrange_typed:
  assumes "setup_portrange c = Inr c'"
  obtains p lo up where "c' = c(''tsi.local_portrange'' \<mapsto> CRange p lo up)" "p = 0 \<or> p = lo \<and> lo < up"
  using assms that unfolding setup_portrange_def
  by (auto split: option.splits cval.splits list.splits if_splits)

lemma finish_setup_result:
  assumes "finish_setup g c = Inr c'"
  obtains b1 b2 ips p lo up where
    "c' = c(''tsi.posixacl_enabled'' \<mapsto> CBool b1, ''tsi.nfsacl_enabled'' \<mapsto> CBool b2,
       ''tsi.allowed_ips'' \<mapsto> CStrs ips, ''tsi.local_portrange'' \<mapsto> CRange p lo up)"
    "p = 0 \<or> p = lo \<and> lo < up"
proof -
  obtain b1 b2 where a: "setup_acl c = c(''tsi.posixacl_enabled'' \<mapsto> CBool b1, ''tsi.nfsacl_enabled'' \<mapsto> CBool b2)"
    by (auto simp: setup_acl_def Let_def)
  obtain d where d: "setup_allowed_ips g (setup_acl c) = Inr d" "setup_portrange d = Inr c'"
    using assms by (auto simp: finish_setup_def sbind_def split: sum.splits)
  obtain ips where "d = (setup_acl c)(''tsi.allowed_ips'' \<mapsto> CStrs ips)" using resolve_typed [OF d(1)] by blast
  moreover obtain p lo up where "c' = d(''tsi.local_portrange'' \<mapsto> CRange p lo up)" "p = 0 \<or> p = lo \<and> lo < up"
    by (rule portrange_typed [OF d(2)])
  ultimately show thesis using that [of b1 b2 ips p lo up] a by simp
qed


definition sample_file :: string where
  "sample_file = ''tsi.switch_uid=true'' @ [NL] @ ''tsi.fail_on_invalid_gids=1'' @ [NL] @ ''tsi.local_portrange=50000:50002'' @ [NL]
     @ ''tsi.unicorex_machine=hpc-ux'' @ [NL] @ ''tsi.my_port=4433'' @ [NL]"

lemma sample_file_lines: "map config_line (readlines sample_file) =
    [Some (''tsi.switch_uid'', ''true''), Some (''tsi.fail_on_invalid_gids'', ''1''), Some (''tsi.local_portrange'', ''50000:50002''),
     Some (''tsi.unicorex_machine'', ''hpc-ux''), Some (''tsi.my_port'', ''4433'')]"
  by code_simp

definition sample_settings :: config where
  "sample_settings = get_default_config(''tsi.switch_uid'' \<mapsto> CBool True, ''tsi.fail_on_invalid_gids'' \<mapsto> CBool True,
     ''tsi.local_portrange'' \<mapsto> CStr ''50000:50002'', ''tsi.unicorex_machine'' \<mapsto> CStr ''hpc-ux'', ''tsi.my_port'' \<mapsto> CStr ''4433'')"

lemma sample_read: "read_config_file [''tsi.properties'' \<mapsto> sample_file] ''tsi.properties'' = Inr sample_settings"
proof -
  obtain l1 l2 l3 l4 l5 where l: "readlines sample_file = [l1, l2, l3, l4, l5]"
    "config_line l1 = Some (''tsi.switch_uid'', ''true'')" "config_line l2 = Some (''tsi.fail_on_invalid_gids'', ''1'')"
    "config_line l3 = Some (''tsi.local_portrange'', ''50000:50002'')" "config_line l4 = Some (''tsi.unicorex_machine'', ''hpc-ux'')"
    "config_line l5 = Some (''tsi.my_port'', ''4433'')"
    using sample_file_lines by (auto simp: map_eq_Cons_conv)
  have "lower ''true'' = ''true''" "lower ''1'' = ''1''" by code_simp+
  then show ?thesis
    by (simp add: read_config_file_def l process_config_value_def boolean_keys_def startswith_def sample_settings_def)
qed

definition sample_hosts :: "string \<Rightarrow> string list option" where
  "sample_hosts = [''hpc-ux'' \<mapsto> [''10.0.0.1'']]"

definition sample_setup :: config where
  "sample_setup = sample_settings(''tsi.posixacl_enabled'' \<mapsto> CBool False, ''tsi.nfsacl_enabled'' \<mapsto> CBool False,
     ''tsi.allowed_ips'' \<mapsto> CStrs [''10.0.0.1''], ''tsi.local_portrange'' \<mapsto> CRange 50000 50000 50002)"

lemma sample_finish: "finish_setup sample_hosts sample_settings = Inr sample_setup"
proof -
  have split: "split_ch (CHR '','') ''hpc-ux'' = [''hpc-ux'']" "strip ''hpc-ux'' = ''hpc-ux''"
    "split_ch (CHR '':'') (strip ''50000:50002'') = [''50000'', ''50002'']"
    by code_simp+
  have "show_int 50000 = ''50000''" "show_int 50002 = ''50002''"
    by (simp_all add: show_int_def show_nat.simps digit_char_def char_of_def bit_Suc_0_iff)
  then have port: "py_int ''50000'' = Some 50000" "py_int ''50002'' = Some 50002" by (metis py_int_show_int)+
  note parsed = split port
  have look: "sample_settings ''tsi.getfacl_cmd'' = None" "sample_settings ''tsi.nfs_getfacl_cmd'' = None"
    "sample_settings ''tsi.unicorex_machine'' = Some (CStr ''hpc-ux'')" "sample_settings ''tsi.local_portrange'' = Some (CStr ''50000:50002'')"
    by code_simp+
  let ?a = "sample_settings(''tsi.posixacl_enabled'' \<mapsto> CBool False, ''tsi.nfsacl_enabled'' \<mapsto> CBool False)"
  have "setup_acl sample_settings = ?a" by (simp add: setup_acl_def is_set_def look)
  moreover have "setup_allowed_ips sample_hosts ?a = Inr (?a(''tsi.allowed_ips'' \<mapsto> CStrs [''10.0.0.1'']))"
    by (simp add: setup_allowed_ips_def look parsed sample_hosts_def)
  moreover have "setup_portrange (?a(''tsi.allowed_ips'' \<mapsto> CStrs [''10.0.0.1''])) = Inr sample_setup"
    by (simp add: setup_portrange_def look parsed sample_setup_def)
  ultimately show ?thesis by (simp add: finish_setup_def)
qed


section \<open>Every worker starts as itself\<close>

text \<open>
  Setting up the batch system: it starts commands and fills in settings that are missing, but what is set
  stays as it is (except the submit command).
\<close>

definition completes :: "world \<Rightarrow> world \<Rightarrow> bool" where
  "completes w w' \<longleftrightarrow> cred w' = cred w \<and> ucache w' = ucache w \<and> now w' = now w \<and>
     (\<forall>k v. k \<noteq> ''tsi.submit_cmd'' \<longrightarrow> config w k = Some v \<longrightarrow> v \<noteq> CNone \<longrightarrow> config w' k = Some v)"

interpretation completes: step_relation completes
proof unfold_locales
  show "completes w w" for w by (simp add: completes_def)
  show "completes w v \<Longrightarrow> completes v x \<Longrightarrow> completes w x" for w v x by (simp add: completes_def)
qed

lemma set_defaults_keeps: "c k = Some v \<Longrightarrow> v \<noteq> CNone \<Longrightarrow> set_defaults d c k = Some v"
proof (induction d arbitrary: c)
  case (Cons x d)
  obtain k' v' where x: "x = (k', v')" by force
  have "(if c k' = None \<or> c k' = Some CNone then c(k' \<mapsto> CStr v') else c) k = Some v" using Cons.prems by auto
  then show ?case unfolding x set_defaults.simps using Cons.prems(2) by (rule Cons.IH)
qed simp

lemma completes_defaults: "within completes (modify (\<lambda>w. w\<lparr>config := set_defaults d (config w)\<rparr>))"
  by (simp add: within_def run_simps completes_def set_defaults_keeps)

lemma completes_run: "within completes (run_command S c d t l)"
  by (rule withinI) (auto simp: run_command_def Let_def run_simps log_event_def completes_def split: exec_result.split)

lemma completes_cfg: "within completes (cfg_sub k)" "within completes (cfg_str k)" "within completes use_login_shell"
  "within completes (cfg_set ''tsi.submit_cmd'' x)" "within completes (os_chdir p)"
  by (auto simp: within_def run_simps completes_def use_login_shell_def cfg_set_def os_chdir_def
      split: option.split sum.split fnode.split)

lemma completes_bss_init: "within completes (bss_init S k)"
  unfolding bss_init_def lsf_init_def init_base_def
  by (intro completes.within_rules completes_defaults completes_run completes_cfg)

lemma completes_listen: "listen N w = (Ret b, v) \<Longrightarrow> v = w \<or> (\<exists>p. v = w\<lparr>config := (config w)(''tsi.my_port'' \<mapsto> p)\<rparr>)"
  by (auto simp: listen_def create_server_def check_ipv6_support_def setup_ssl_def run_simps cfg_set_def Let_def
      split: option.splits sum.splits if_splits)

text \<open>What is known of the state when the server starts.\<close>

lemma initialize_run:
  assumes "config w ''tsi.switch_uid'' = Some sw" "config w ''tsi.enforce_os_gids'' = Some e"
    and "config w ''tsi.userCacheTtl'' = Some ttl" "config w ''tsi.use_id_to_resolve_gids'' = Some i"
  shows "initialize w = (Ret (), w\<lparr>config := (config w)(''tsi.effective_uid'' \<mapsto> CInt (euid (cred w)),
      ''tsi.effective_gid'' \<mapsto> CInt (egid (cred w)), ''tsi.switch_uid'' \<mapsto> CBool (truthy sw \<or> euid (cred w) = 0)),
      ucache := new_user_cache ttl (truthy i)\<rparr>)"
  using assms by (simp add: initialize_def run_simps cfg_set_def)

definition ready :: "world \<Rightarrow> bool \<Rightarrow> bool \<Rightarrow> int \<Rightarrow> world \<Rightarrow> bool" where
  "ready w enforce fail n v \<longleftrightarrow> cred v = cred w \<and> (\<exists>b. ucache v = new_user_cache (CInt n) b) \<and>
     id_config (config v) (euid (cred w)) (egid (cred w)) enforce fail"

lemma ready_inherited: "inherited (ready w enforce fail n)"
  unfolding inherited_def ready_def by (auto simp: serves_def id_config_def)

lemma ready_completes: "ready w enforce fail n v \<Longrightarrow> completes v x \<Longrightarrow> ready w enforce fail n x"
  by (auto simp: ready_def completes_def id_config_def)

lemma setup_ready:
  assumes "tsi_setup S k version_info contents getaddrinfo argv w = (Ret (), v)"
    and c: "read_config_file contents (argv ! 1) = Inr c" "c ''tsi.userCacheTtl'' = Some (CInt n)"
    and root: "euid (cred w) = 0 \<or> c ''tsi.switch_uid'' = Some (CBool True)"
  obtains enforce fail where "ready w enforce fail n v"
proof -
  let ?w1 = "w\<lparr>config := c\<rparr>"
  have "c k \<noteq> None" if "k \<in> {''tsi.debug'', ''tsi.use_syslog'', ''tsi.open_user_sessions''}" for k
    using read_config_typed(2) [OF c(1)] that by (auto simp: get_default_config_def)
  then obtain x y z where xyz: "c ''tsi.debug'' = Some x" "c ''tsi.use_syslog'' = Some y" "c ''tsi.open_user_sessions'' = Some z"
    by (metis insertCI not_None_eq)
  have "tsi_setup S k version_info contents getaddrinfo argv w =
      bnd (set_config (finish_setup getaddrinfo c)) (\<lambda>_.
      bnd initialize (\<lambda>_.
      bnd (bnd (cfg_str ''tsi.safe_dir'') os_chdir) (\<lambda>_.
      bss_init S k))) ?w1"
    using assms(1) c(1) xyz by (auto simp: tsi_setup_def set_config_def run_simps split: if_splits)
  with assms(1) obtain c' where f: "finish_setup getaddrinfo c = Inr c'"
    and rest: "bnd initialize (\<lambda>_. bnd (bnd (cfg_str ''tsi.safe_dir'') os_chdir) (\<lambda>_. bss_init S k)) (w\<lparr>config := c'\<rparr>) = (Ret (), v)"
    by (auto simp: set_config_def run_simps split: sum.splits)
  obtain b1 b2 ips p lo up where c': "c' = c(''tsi.posixacl_enabled'' \<mapsto> CBool b1, ''tsi.nfsacl_enabled'' \<mapsto> CBool b2,
       ''tsi.allowed_ips'' \<mapsto> CStrs ips, ''tsi.local_portrange'' \<mapsto> CRange p lo up)"
    by (rule finish_setup_result [OF f])
  have bool: "\<exists>b. c k = Some (CBool b)" if k: "k \<in> {''tsi.switch_uid'', ''tsi.enforce_os_gids'', ''tsi.fail_on_invalid_gids'',
      ''tsi.use_id_to_resolve_gids''}" for k
  proof -
    have "k \<in> dom c" using read_config_typed(2) [OF c(1)] k by (auto simp: get_default_config_def)
    then obtain v where "c k = Some v" by blast
    moreover have "has_type k v" using read_config_typed(1) [OF c(1)] calculation by (simp add: typed_def)
    ultimately show ?thesis using k by (auto simp: has_type_def boolean_keys_def)
  qed
  obtain sw where sw: "c ''tsi.switch_uid'' = Some (CBool sw)" using bool by blast
  obtain en where en: "c ''tsi.enforce_os_gids'' = Some (CBool en)" using bool by blast
  obtain fl where fl: "c ''tsi.fail_on_invalid_gids'' = Some (CBool fl)" using bool by blast
  obtain ui where ui: "c ''tsi.use_id_to_resolve_gids'' = Some (CBool ui)" using bool by blast
  let ?i = "w\<lparr>config := c'(''tsi.effective_uid'' \<mapsto> CInt (euid (cred w)), ''tsi.effective_gid'' \<mapsto> CInt (egid (cred w)),
      ''tsi.switch_uid'' \<mapsto> CBool (truthy (CBool sw) \<or> euid (cred w) = 0)), ucache := new_user_cache (CInt n) (truthy (CBool ui))\<rparr>"
  have i: "initialize (w\<lparr>config := c'\<rparr>) = (Ret (), ?i)"
  proof -
    have "config (w\<lparr>config := c'\<rparr>) ''tsi.switch_uid'' = Some (CBool sw)" "config (w\<lparr>config := c'\<rparr>) ''tsi.enforce_os_gids'' = Some (CBool en)"
      "config (w\<lparr>config := c'\<rparr>) ''tsi.userCacheTtl'' = Some (CInt n)"
      "config (w\<lparr>config := c'\<rparr>) ''tsi.use_id_to_resolve_gids'' = Some (CBool ui)"
      by (simp_all add: c' sw en ui c(2))
    from initialize_run [OF this] show ?thesis by simp
  qed
  have "ready w en fl n ?i" using root sw by (auto simp: ready_def id_config_def c' en fl)
  moreover have "within completes (bnd (bnd (cfg_str ''tsi.safe_dir'') os_chdir) (\<lambda>_. bss_init S k))"
    by (intro completes.within_rules completes_cfg completes_bss_init)
  then have "completes ?i v" using rest unfolding bnd_step [where m = initialize, OF i] by (rule within_run)
  ultimately show thesis using that ready_completes by blast
qed

lemma ready_worker_ok:
  assumes "ready w enforce fail n v" and "id_prints_numbers S" and "0 \<le> n" and "privileged (cred w)"
    and "ruid (cred w) = euid (cred w)" "suid (cred w) = euid (cred w)" "0 \<le> euid (cred w)" "0 \<le> egid (cred w)"
  shows "worker_ok S (euid (cred w)) (egid (cred w)) enforce fail v"
  using assms by (auto simp: worker_ok_def ready_def cache_inv_def new_user_cache_def)

lemma main_workers:
  assumes "tsi_main S N k version_info contents getaddrinfo argv arrivals w = (r, w', ws)"
    and "read_config_file contents (argv ! 1) = Inr c" and "c ''tsi.userCacheTtl'' = Some (CInt n)" and "0 \<le> n"
    and "euid (cred w) = 0 \<or> c ''tsi.switch_uid'' = Some (CBool True)"
    and "id_prints_numbers S" and "privileged (cred w)"
    and "ruid (cred w) = euid (cred w)" and "suid (cred w) = euid (cred w)" and "0 \<le> euid (cred w)" and "0 \<le> egid (cred w)"
  shows "\<exists>enforce fail. \<forall>wk \<in> set ws. ready w enforce fail n (wk_world wk) \<and> worker_ok S (euid (cred w)) (egid (cred w)) enforce fail (wk_world wk)"
proof -
  obtain q v where q: "tsi_setup S k version_info contents getaddrinfo argv w = (q, v)" by force
  show ?thesis
  proof (cases "q = Ret ()")
    case True
    obtain enforce fail where rd: "ready w enforce fail n v"
      by (rule setup_ready [OF q [unfolded True] assms(2,3,5)])
    obtain l x where l: "listen N v = (l, x)" by force
    have "\<forall>wk \<in> set ws. ready w enforce fail n (wk_world wk)"
    proof (cases "\<exists>b. l = Ret b")
      case True
      then obtain b where b: "l = Ret b" ..
      then have x: "ready w enforce fail n x" using completes_listen [of N v b x] l rd
        by (auto simp: ready_def id_config_def)
      obtain r' y us where s: "serve S N b arrivals x = (r', y, us)" by (metis prod_cases3)
      then have "us = ws" using assms(1) q \<open>q = Ret ()\<close> l b by (simp add: tsi_main_def connect_def)
      with serve_inherits [OF ready_inherited x s] show ?thesis by simp
    next
      case False
      then have "ws = []" using assms(1) q \<open>q = Ret ()\<close> l by (cases l) (auto simp: tsi_main_def connect_def)
      then show ?thesis by simp
    qed
    with ready_worker_ok assms(4,6-11) show ?thesis by blast
  next
    case False
    then have "ws = []" using assms(1) q by (cases q) (auto simp: tsi_main_def)
    then show ?thesis by simp
  qed
qed

text \<open>
  C2: Every worker starts in the state that the theorems about requests assume. If the TSI is started with
  the right to change its ids (as root, or with the capabilities and with switching configured), then in
  every worker the server forks, whatever connections arrive before, the process has its own identity,
  this identity and switching are in the configuration, and the user cache is new.
\<close>

theorem main_workers_ok:
  assumes "tsi_main S N k version_info contents getaddrinfo argv arrivals w = (r, w', ws)"
    and "read_config_file contents (argv ! 1) = Inr c" and "c ''tsi.userCacheTtl'' = Some (CInt n)" and "0 \<le> n"
    and "euid (cred w) = 0 \<or> c ''tsi.switch_uid'' = Some (CBool True)"
    and "id_prints_numbers S" and "privileged (cred w)"
    and "ruid (cred w) = euid (cred w)" and "suid (cred w) = euid (cred w)" and "0 \<le> euid (cred w)" and "0 \<le> egid (cred w)"
  shows "\<exists>enforce fail. \<forall>wk \<in> set ws. worker_ok S (euid (cred w)) (egid (cred w)) enforce fail (wk_world wk)"
  using main_workers [OF assms] by blast

section \<open>What a worker runs\<close>

text \<open>A command of a worker: a lookup of a user's groups, or a command run as a known user who is not root.\<close>

definition user_event :: "sys \<Rightarrow> bool \<Rightarrow> bool \<Rightarrow> event \<Rightarrow> bool" where
  "user_event S enforce fail e \<longleftrightarrow> (\<exists>u. ev_argv e = id_argv u) \<or>
     (\<exists>u v. cache_inv S v \<and> runs_for S v enforce fail u (ev_cred e))"

lemma user_event_intro:
  "ev_argv e = id_argv u \<Longrightarrow> user_event S enforce fail e"
  "cache_inv S v \<Longrightarrow> runs_for S v enforce fail u (ev_cred e) \<Longrightarrow> user_event S enforce fail e"
  by (auto simp: user_event_def)

lemma request_trace_events:
  assumes "cache_inv S v" and "request_trace S v enforce fail m l"
  shows "\<forall>e \<in> set l. user_event S enforce fail e"
proof (cases "identity_of m")
  case (Some ug)
  obtain u g where ug: "identity_of m = Some (u, g)" using Some by (cases ug) simp
  from assms(2) obtain ids evs where l: "l = ids @ evs" "\<forall>e \<in> set ids. ev_argv e = id_argv u"
      "\<forall>e \<in> set evs. runs_for S v enforce fail u (ev_cred e)"
    unfolding request_trace_def ug option.case prod.case by (elim exE conjE)
  show ?thesis
  proof
    fix e assume "e \<in> set l"
    then consider "e \<in> set ids" | "e \<in> set evs" using l(1) by auto
    then show "user_event S enforce fail e"
    proof cases
      case 1
      with l(2) have "ev_argv e = id_argv u" by simp
      then show ?thesis by (rule user_event_intro(1))
    next
      case 2
      with l(3) have "runs_for S v enforce fail u (ev_cred e)" by simp
      with assms(1) show ?thesis by (rule user_event_intro(2))
    qed
  qed
qed (use assms(2) in \<open>simp add: request_trace_def\<close>)

lemma process_loop_trace:
  assumes "worker_ok S eu eg enforce fail w" and "process_loop n C S k o1 w = (r, w')"
  shows "\<exists>evs. trace w' = trace w @ evs \<and> (\<forall>e \<in> set evs. user_event S enforce fail e)"
  using assms
proof (induction n arbitrary: w)
  case 0
  then show ?case by (simp add: diverge_def)
next
  case (Suc n)
  show ?case
  proof (cases rule: process_loop_cases [where n = n and C = C and S = S and k = k and ?o1.0 = o1 and w = w])
    case (Closed c v)
    from Closed(2) obtain rest where "v = w\<lparr>child_pids := c, ctl_in := rest\<rparr>"
      by (cases rule: next_message_cases [of C "w\<lparr>child_pids := c\<rparr>"]) auto
    then have "trace v = trace w" by simp
    moreover have "w' = v" using Closed(1) Suc.prems(2) by (simp only: prod.inject)
    ultimately show ?thesis by auto
  next
    case (Request c m v)
    obtain q x where q: "process_request C S k m v = (q, x)" by fastforce
    have v: "worker_ok S eu eg enforce fail v" "trace v = trace w" using Suc.prems(1) by (subst Request(4), simp)+
    obtain l where l: "trace x = trace w @ l" "request_trace S v enforce fail m l"
      using process_request_trace [OF v(1) q] v(2) by auto
    have "cache_inv S v" using v(1) by (simp add: worker_ok_def)
    then have ev: "\<forall>e \<in> set l. user_event S enforce fail e" by (rule request_trace_events [OF _ l(2)])
    show ?thesis
    proof (cases "\<exists>y. q = Ret y \<and> \<not> stop_after o1 x")
      case True
      then have "process_loop n C S k o1 x = (r, w')" using Request(5) q Suc.prems(2) by auto
      moreover have "worker_ok S eu eg enforce fail x" using process_request_restores [OF v(1) q] True by auto
      ultimately have ih: "\<exists>evs. trace w' = trace x @ evs \<and> (\<forall>e \<in> set evs. user_event S enforce fail e)"
        by (intro Suc.IH)
      have "\<exists>evs. trace x = trace w @ evs \<and> (\<forall>e \<in> set evs. user_event S enforce fail e)"
        by (intro exI [of _ l] conjI l(1) ev)
      then show ?thesis using ih by (rule grows_trans)
    next
      case False
      then have "w' = x" using Request(5) q Suc.prems(2) by (cases q) (auto split: if_splits)
      with l(1) ev show ?thesis by auto
    qed
  qed
qed

lemma worker_main_trace:
  assumes "worker_ok S eu eg enforce fail (wk_world wk)" and "worker_main S N k control data wk = (r, w')"
  shows "\<exists>evs. trace w' = trace (wk_world wk) @ evs \<and> (\<forall>e \<in> set evs. user_event S enforce fail e)"
proof -
  let ?w = "(wk_world wk)\<lparr>ctl_in := control, ctl_out := [], dat_in := data, dat_out := []\<rparr>"
  have w: "worker_ok S eu eg enforce fail ?w" using assms(1) by (simp add: worker_ok_def cache_inv_def)
  consider (idle) "w' = ?w"
    | (process) "process Sockets S k False ?w = (r, w')"
    | (forward) msg q where "forwarding_worker S N msg ?w = (q, w')"
    using assms(2) by (auto simp: worker_main_def Let_def run_simps split: sum.splits prod.splits option.splits outcome.splits)
  then show ?thesis
  proof cases
    case process
    from process_loop_trace [OF w process [unfolded process_def]] show ?thesis by simp
  next
    case forward
    with forwarding_run [OF w forward] show ?thesis by (auto simp: user_event_def)
  qed simp
qed


section \<open>A sample run of the program\<close>

definition fresh_process :: world where
  "fresh_process = (sample_world True)\<lparr>config := Map.empty,
     files := [''/tmp'' \<mapsto> FDir [] \<lparr>st_mode = 17407, st_uid = 0, st_gid = 0, st_mtime = 0\<rparr>]\<rparr>"

lemma set_defaults_other: "k \<notin> fst ` set d \<Longrightarrow> set_defaults d c k = c k"
proof (induction d arbitrary: c)
  case (Cons x d)
  then show ?case by (cases x) simp
qed simp

lemma sample_init_base:
  assumes "config w ''tsi.use_login_shell'' = Some (CBool b)" "config w ''tsi.testing'' = Some (CBool False)"
    and "config w ''tsi.qstat_cmd'' = None"
  obtains v where "bss_init sample_sys Nobatch w = (Ret (), v)" "v = w\<lparr>config := config v, trace := trace v\<rparr>"
    "\<forall>k. k \<notin> {''tsi.qstat_cmd'', ''tsi.abort_cmd'', ''tsi.get_processes_cmd'', ''tsi.get_partitions_cmd''} \<longrightarrow> config v k = config w k"
proof -
  have c: "map fst (dict_update base_defaults (defaults nobatch)) =
      [''tsi.qstat_cmd'', ''tsi.abort_cmd'', ''tsi.get_processes_cmd'', ''tsi.get_partitions_cmd'']"
    by (simp add: base_defaults_def nobatch_def)
  let ?d = "dict_update base_defaults (defaults nobatch)"
  let ?v = "w\<lparr>config := set_defaults ?d (config w)\<rparr>"
  have keys: "fst ` set ?d = {''tsi.qstat_cmd'', ''tsi.abort_cmd'', ''tsi.get_processes_cmd'', ''tsi.get_partitions_cmd''}"
    by (simp only: set_map [symmetric] c list.set)
  have other: "set_defaults ?d (config w) k = config w k"
    if "k \<notin> {''tsi.qstat_cmd'', ''tsi.abort_cmd'', ''tsi.get_processes_cmd'', ''tsi.get_partitions_cmd''}" for k
    by (rule set_defaults_other) (use that keys in simp)
  have q: "\<exists>x. set_defaults ?d (config w) ''tsi.qstat_cmd'' = Some (CStr x)"
    using assms(3) by (simp add: base_defaults_def nobatch_def) 
  from q obtain x where x: "config ?v ''tsi.qstat_cmd'' = Some (CStr x)" by auto
  have l: "config ?v ''tsi.use_login_shell'' = Some (CBool b)" "config ?v ''tsi.testing'' = Some (CBool False)"
    using other assms(1,2) by simp_all
  have "\<exists>y t. run_command sample_sys x False False b ?v = (Ret y, ?v\<lparr>trace := t\<rparr>)"
    by (simp add: run_command_def log_event_def run_simps sample_sys_def Let_def) blast
  then obtain y t where y: "run_command sample_sys x False False b ?v = (Ret y, ?v\<lparr>trace := t\<rparr>)" by blast
  have m: "modify (\<lambda>w. w\<lparr>config := set_defaults ?d (config w)\<rparr>) w = (Ret (), ?v)" by (simp add: run_simps)
  have u: "use_login_shell ?v = (Ret b, ?v)" using l by (simp add: use_login_shell_def bnd_run cfg_sub_run ret_run)
  have s: "cfg_sub ''tsi.testing'' ?v = (Ret (CBool False), ?v)" "cfg_str ''tsi.qstat_cmd'' ?v = (Ret x, ?v)"
    by (simp_all only: cfg_sub_run cfg_str_run l x option.case as_str.simps sum.case)
  have "init_base sample_sys nobatch w = (Ret (), ?v\<lparr>trace := t\<rparr>)"
    unfolding init_base_def bnd_run m prod.case outcome.case u s
    by (simp add: when_run bnd_run s(2) y ret_run del: set_defaults.simps)
  then have "bss_init sample_sys Nobatch w = (Ret (), ?v\<lparr>trace := t\<rparr>)" by (simp add: bss_init_def)
  then show thesis by (rule that) (use other in simp_all)
qed

lemma sample_tsi_setup:
  obtains v where "tsi_setup sample_sys Nobatch [3, 12, 1] [''tsi.properties'' \<mapsto> sample_file] sample_hosts
      [''TSI.py'', ''tsi.properties''] fresh_process = (Ret (), v)"
    "config v ''tsi.my_addr'' = Some (CStr [])" "config v ''tsi.my_port'' = Some (CStr ''4433'')"
    "config v ''tsi.keystore'' = None" "config v ''tsi.disable_ipv6'' = Some (CBool False)" "at_port 50000 1 v"
proof -
  let ?w = "fresh_process\<lparr>config := sample_setup\<rparr>"
  let ?i = "fresh_process\<lparr>config := sample_setup(''tsi.effective_uid'' \<mapsto> CInt 0, ''tsi.effective_gid'' \<mapsto> CInt 0,
      ''tsi.switch_uid'' \<mapsto> CBool True), ucache := new_user_cache (CInt 600) True\<rparr>"
  have look: "sample_setup ''tsi.switch_uid'' = Some (CBool True)" "sample_setup ''tsi.enforce_os_gids'' = Some (CBool True)"
    "sample_setup ''tsi.userCacheTtl'' = Some (CInt 600)" "sample_setup ''tsi.use_id_to_resolve_gids'' = Some (CBool True)"
    "sample_setup ''tsi.safe_dir'' = Some (CStr ''/tmp'')" "sample_setup ''tsi.use_login_shell'' = Some (CBool True)"
    "sample_setup ''tsi.testing'' = Some (CBool False)" "sample_setup ''tsi.qstat_cmd'' = None"
    "sample_setup ''tsi.my_addr'' = Some (CStr [])" "sample_setup ''tsi.my_port'' = Some (CStr ''4433'')"
    "sample_setup ''tsi.keystore'' = None" "sample_setup ''tsi.disable_ipv6'' = Some (CBool False)"
    "sample_setup ''tsi.allowed_ips'' = Some (CStrs [''10.0.0.1''])" "sample_setup ''tsi.unicorex_port'' = None"
    "sample_setup ''tsi.worker.id'' = Some (CInt 1)" "sample_setup ''tsi.local_portrange'' = Some (CRange 50000 50000 50002)"
    "sample_settings ''tsi.debug'' = Some (CInt 0)" "sample_settings ''tsi.use_syslog'' = Some (CBool False)"
    "sample_settings ''tsi.open_user_sessions'' = Some (CBool False)"
    by code_simp+
  have i: "initialize ?w = (Ret (), ?i)"
    using initialize_run [of ?w "CBool True" "CBool True" "CInt 600" "CBool True"]
    by (simp add: look fresh_process_def root_cred_def)
  let ?d = "?i\<lparr>cwd := ''/tmp''\<rparr>"
  have d: "cfg_str ''tsi.safe_dir'' ?i = (Ret ''/tmp'', ?i)" "os_chdir ''/tmp'' ?i = (Ret (), ?d)"
    by (simp_all add: run_simps look os_chdir_def abs_path_def startswith_def fresh_process_def)
  have b: "config ?d ''tsi.use_login_shell'' = Some (CBool True)" "config ?d ''tsi.testing'' = Some (CBool False)"
    "config ?d ''tsi.qstat_cmd'' = None" by (simp_all add: look)
  obtain v where v: "bss_init sample_sys Nobatch ?d = (Ret (), v)"
    "\<forall>k. k \<notin> {''tsi.qstat_cmd'', ''tsi.abort_cmd'', ''tsi.get_processes_cmd'', ''tsi.get_partitions_cmd''} \<longrightarrow> config v k = config ?d k"
    by (rule sample_init_base [OF b])
  have ver: "assert_version [3, 12, 1]" by code_simp
  have c: "set_config (read_config_file [''tsi.properties'' \<mapsto> sample_file] ''tsi.properties'') fresh_process
      = (Ret (), fresh_process\<lparr>config := sample_settings\<rparr>)"
    by (simp add: set_config_def sample_read run_simps)
  have f: "set_config (finish_setup sample_hosts sample_settings) (fresh_process\<lparr>config := sample_settings\<rparr>) = (Ret (), ?w)"
    by (simp add: set_config_def sample_finish run_simps)
  have "tsi_setup sample_sys Nobatch [3, 12, 1] [''tsi.properties'' \<mapsto> sample_file] sample_hosts
      [''TSI.py'', ''tsi.properties''] fresh_process = (Ret (), v)"
    unfolding tsi_setup_def
    by (simp add: ver [simplified] bnd_run c cfg_sub_run look gets_run f i d v(1))
  moreover have "at_port 50000 1 v" using v(2) by (simp add: at_port_def look)
  ultimately show thesis using that v(2) by (simp add: look)
qed

lemma sample_tsi_main:
  obtains v wk where "tsi_main sample_sys sample_net Nobatch [3, 12, 1] [''tsi.properties'' \<mapsto> sample_file] sample_hosts
      [''TSI.py'', ''tsi.properties''] [Some (arrives ''10.0.0.1'' ''newtsiprocess 7654'')] fresh_process = (Loops, v, [wk])"
    "wk_id wk = 1" "wk_result wk = Inr (sample_worker_sock 50000, Some (sample_worker_sock 50001), None)"
proof -
  obtain v where v: "tsi_setup sample_sys Nobatch [3, 12, 1] [''tsi.properties'' \<mapsto> sample_file] sample_hosts
      [''TSI.py'', ''tsi.properties''] fresh_process = (Ret (), v)"
    "config v ''tsi.my_addr'' = Some (CStr [])" "config v ''tsi.my_port'' = Some (CStr ''4433'')"
    "config v ''tsi.keystore'' = None" "config v ''tsi.disable_ipv6'' = Some (CBool False)" "at_port 50000 1 v"
    by (rule sample_tsi_setup)
  have "py_int ''4433'' = Some 4433" by code_simp
  then have l: "listen sample_net v = (Ret False, v)"
    by (simp add: listen_def create_server_def check_ipv6_support_def run_simps v sample_net_def)
  let ?a = "arrives ''10.0.0.1'' ''newtsiprocess 7654''"
  obtain x where x: "start_worker sample_sys sample_net False ?a ''newtsiprocess'' ''7654'' 2 v =
        (Ret (Forked ''newtsiprocess'' ''7654'' (int 1) (map sample_worker_sock [50000, 50001])), x)"
    by (rule sample_start [OF v(6), of 2 "[50000, 50001]" "''7654''"]) (simp_all add: sample_strip next_port_def)
  have "serve_one sample_sys sample_net False ?a v =
      (Ret (Forked ''newtsiprocess'' ''7654'' 1 (map sample_worker_sock [50000, 50001])), x)"
    using x by (simp add: sample_one [OF v(6)] sample_strip handle_command_def)
  then have run: "serve sample_sys sample_net False [Some ?a] v =
      (Loops, x\<lparr>config := (config x)(''tsi.worker.id'' \<mapsto> CInt (1 + 1))\<rparr>,
       [\<lparr>wk_id = 1, wk_world = x, wk_result = worker_result ''newtsiprocess'' ''7654'' (map sample_worker_sock [50000, 50001])\<rparr>])"
    by (simp only: serve.simps prod.case outcome.case served.case)
  show thesis
    by (rule that, simp only: tsi_main_def v(1) connect_def l run prod.case outcome.case) (simp_all add: worker_result_def)
qed

lemma sample_premises:
  "read_config_file [''tsi.properties'' \<mapsto> sample_file] ([''TSI.py'', ''tsi.properties''] ! 1) = Inr sample_settings"
  "sample_settings ''tsi.userCacheTtl'' = Some (CInt 600)" "(0::int) \<le> 600"
  "euid (cred fresh_process) = 0 \<or> sample_settings ''tsi.switch_uid'' = Some (CBool True)"
  "id_prints_numbers sample_sys" "privileged (cred fresh_process)" "ruid (cred fresh_process) = euid (cred fresh_process)"
  "suid (cred fresh_process) = euid (cred fresh_process)" "0 \<le> euid (cred fresh_process)" "0 \<le> egid (cred fresh_process)"
proof -
  show "sample_settings ''tsi.userCacheTtl'' = Some (CInt 600)" by code_simp
qed (simp_all add: sample_read sample_ids fresh_process_def privileged_def root_cred_def)

theorem main_workers_ok_witness:
  "\<exists>v wk enforce fail. tsi_main sample_sys sample_net Nobatch [3, 12, 1] [''tsi.properties'' \<mapsto> sample_file] sample_hosts
      [''TSI.py'', ''tsi.properties''] [Some (arrives ''10.0.0.1'' ''newtsiprocess 7654'')] fresh_process = (Loops, v, [wk]) \<and>
    worker_ok sample_sys 0 0 enforce fail (wk_world wk)"
proof -
  obtain v wk where m: "tsi_main sample_sys sample_net Nobatch [3, 12, 1] [''tsi.properties'' \<mapsto> sample_file] sample_hosts
      [''TSI.py'', ''tsi.properties''] [Some (arrives ''10.0.0.1'' ''newtsiprocess 7654'')] fresh_process = (Loops, v, [wk])"
    by (rule sample_tsi_main)
  from main_workers_ok [OF m sample_premises] obtain enforce fail where "worker_ok sample_sys 0 0 enforce fail (wk_world wk)"
    by (auto simp: fresh_process_def root_cred_def)
  with m show ?thesis by blast
qed


end
