(* ===== verification/StreamFiles.thy ===== *)
theory StreamFiles
  imports FileIO
begin

text \<open>
  File transfer of \<open>lib/IO.py\<close> through the stream connector of \<open>lib/Connector.py\<close>: a chunk is announced and
  sent as one base64 block on standard output, and received as one block from standard input. Joining the
  two sides gives that a part of a file arrives unchanged in another file.
\<close>

section \<open>Sending\<close>

lemma write_chunks_block:
  assumes "n \<le> length buf"
  shows "write_chunks Streams buf n 0 (int n) w =
    (Ret (), w\<lparr>ctl_out := ctl_out w @ (if n = 0 then [] else data_block (take n buf))\<rparr>)"
proof (cases "n = 0")
  case True
  then show ?thesis by (subst write_chunks.simps) (simp add: run_simps)
next
  case False
  have "write_chunks Streams buf n n 0 v = (Ret (), v)" for v
    by (subst write_chunks.simps) (simp add: run_simps)
  with False assms show ?thesis
    by (subst write_chunks.simps) (simp add: bnd_run data_block_written min_def)
qed

text \<open>What precedes the block: the reply with the number of bytes.\<close>

definition chunk_header :: "nat \<Rightarrow> string" where
  "chunk_header n = ''TSI_OK'' @ [NL] @ ''TSI_LENGTH '' @ show_int (int n) @ [NL] @ ''ENDOFMESSAGE'' @ [NL]"

lemma get_file_chunk_block:
  assumes "chunk_request msg w path start len" and "reads_file S w path c" and "\<forall>k n. n \<le> read_limit S k n"
    and "d = take len (drop start c)"
  shows "get_file_chunk Streams S msg w =
    (Ret (), w\<lparr>ctl_out := ctl_out w @ chunk_header (length d) @ (if d = [] then [] else data_block d)\<rparr>)"
proof -
  have r: "read_chunks S c start (replicate len (CHR 0x00)) 0 (int len) =
      (d @ drop (length d) (replicate len (CHR 0x00)), length d)"
    unfolding assms(4) using assms(3) by (intro read_chunks_full) simp_all
  show ?thesis
    unfolding get_file_chunk_run [OF assms(1,2)] r Let_def fst_conv snd_conv
    by (subst write_chunks_block) (simp_all add: chunk_header_def)
qed

section \<open>Receiving\<close>

lemma copy_data_block:
  assumes "file_at w p = Some (FFile c m)" and "ctl_in w = data_block d @ rest" and "0 < n" and "n \<le> length d"
  shows "copy_data Streams S p (int n) w = (Ret (), w\<lparr>ctl_in := rest,
      files := (files w)(abs_path w p \<mapsto> FFile (c @ d) m)\<rparr>)"
proof -
  let ?v = "w\<lparr>ctl_in := rest\<rparr>"
  have ab: "abs_path ?v p = abs_path w p" by (simp add: abs_path_def)
  have r: "stream_read_data n w = (Ret d, ?v)" by (rule stream_read_block [OF assms(2)])
  have fl: "flush_buf S p d (length d) ?v = (Ret (), ?v\<lparr>files := (files w)(abs_path w p \<mapsto> FFile (c @ d) m)\<rparr>)"
    using flush_buf_run [of ?v p c m d "length d" S] assms(1) by (simp add: file_at_def ab)
  have fin: "copy_data Streams S p (int n - int (length d)) x = (Ret (), x)" for x
    using assms(4) by (subst copy_data.simps) simp
  have ne: "d \<noteq> []" "n \<noteq> 0" using assms(3,4) by auto
  show ?thesis by (subst copy_data.simps) (simp add: ne r fl fin)
qed

lemma put_file_chunk_block:
  assumes "put_request msg w path mode keep n" and "writes_file S w path old" and "ctl_in w = data_block d @ rest"
    and "0 < n" and "n \<le> length d" and "py_int8 mode = Some i" and "c_int_range i"
  shows "\<exists>w' m. put_file_chunk Streams S msg w = (Ret (), w') \<and>
    file_at w' path = Some (FFile ((if keep then old else []) @ d) m) \<and> ctl_in w' = rest \<and> ctl_out w' = ctl_out w @ put_reply"
proof -
  obtain fs m where o: "open_write S path keep w = (Ret (), w\<lparr>files := fs\<rparr>)"
      "fs (abs_path w path) = Some (FFile (if keep then old else []) m)"
    using open_write_run [OF assms(2), of keep] by metis
  define v where "v = w\<lparr>files := fs, ctl_out := ctl_out w @ put_reply\<rparr>"
  have av: "abs_path v path = abs_path w path" by (simp add: v_def abs_path_def)
  have fv: "file_at v path = Some (FFile (if keep then old else []) m)" using o av by (simp add: file_at_def) (simp add: v_def)
  have iv: "ctl_in v = data_block d @ rest" using assms(3) by (simp add: v_def)
  define c where "c = (if keep then old else []) @ d"
  define x where "x = v\<lparr>ctl_in := rest, files := (files v)(abs_path v path \<mapsto> FFile c m)\<rparr>"
  have cx: "copy_data Streams S path (int n) v = (Ret (), x)"
    using copy_data_block [OF fv iv assms(4,5), of S] by (simp add: x_def c_def)
  have ax: "abs_path x path = abs_path w path" by (simp add: x_def v_def abs_path_def)
  have fx: "file_at x path = Some (FFile c m)" by (simp add: file_at_def ax) (simp add: x_def av)
  obtain m' where s: "set_requested_mode path mode x = (Ret (), x\<lparr>files := (files x)(abs_path x path \<mapsto> FFile c m')\<rparr>)"
    using set_requested_mode_run [OF fx assms(6,7)] by blast
  have okv: "ok (Some ''ENDOFMESSAGE'') (w\<lparr>files := fs\<rparr>) = (Ret (), v)"
    by (simp add: run_simps v_def put_reply_def)
  have "put_file_chunk Streams S msg w = (Ret (), x\<lparr>files := (files x)(abs_path x path \<mapsto> FFile c m')\<rparr>)"
    unfolding put_file_chunk_run [OF assms(1)] by (simp add: bnd_run o(1) okv cx s)
  then show ?thesis
    by (intro exI conjI) (assumption, auto simp: file_at_def ax abs_path_def c_def x_def v_def)
qed

section \<open>A part of a file travels\<close>

text \<open>
  C26: What one program sends through the streams another one stores: if the part of a file that a request
  for a chunk sends is not empty, and another program that handles a request to store as many bytes finds
  on its standard input what follows the header of the first, then its file holds the part of the first
  file, after its old contents when these are kept, and nothing else of the input is used up.
\<close>

theorem chunk_travels:
  assumes "chunk_request get_msg v from start len" and "reads_file S v from c" and "\<forall>k n. n \<le> read_limit S k n"
    and "d = take len (drop start c)" and "d \<noteq> []" and "get_file_chunk Streams S get_msg v = (r, v')"
    and "put_request put_msg w path mode keep (length d)" and "writes_file T w path old" and "py_int8 mode = Some i" and "c_int_range i"
    and "written v v' @ rest = chunk_header (length d) @ ctl_in w"
  shows "r = Ret () \<and> (\<exists>w' m. put_file_chunk Streams T put_msg w = (Ret (), w') \<and>
    file_at w' path = Some (FFile ((if keep then old else []) @ d) m) \<and> ctl_in w' = rest)"
proof -
  have g: "r = Ret ()" "v' = v\<lparr>ctl_out := ctl_out v @ chunk_header (length d) @ data_block d\<rparr>"
    using get_file_chunk_block [OF assms(1-4)] assms(5,6) by simp_all
  then have "ctl_in w = data_block d @ rest" using assms(11) by (simp add: written_def)
  from put_file_chunk_block [OF assms(7,8) this _ order_refl assms(9,10)] assms(5) g(1) show ?thesis by blast
qed

theorem chunk_travels_witness:
  "\<exists>v' r w' m. get_file_chunk Streams sample_sys sample_get sample_file_world = (r, v') \<and>
     put_file_chunk Streams sample_sys (sample_put ''4'') (sample_file_world\<lparr>ctl_in := data_block ''worl'' @ ''more''\<rparr>) = (Ret (), w') \<and>
     file_at w' ''/tmp/a'' = Some (FFile ''hello worldworl'' m) \<and> ctl_in w' = ''more''"
proof -
  let ?w = "sample_file_world\<lparr>ctl_in := data_block ''worl'' @ ''more''\<rparr>"
  obtain r v' where g: "get_file_chunk Streams sample_sys sample_get sample_file_world = (r, v')" by fastforce
  have k: "\<forall>k n. n \<le> read_limit sample_sys k n" by (simp add: sample_sys_def)
  have d: "''worl'' = take 4 (drop 6 ''hello world'')" "''worl'' \<noteq> []" by simp_all
  have "py_int ''4'' = Some (int 4)" by code_simp
  from sample_put_request [OF _ this] have p: "put_request (sample_put ''4'') ?w ''/tmp/a'' ''600'' True (length ''worl'')"
    by (simp add: put_request_def)
  have o: "writes_file sample_sys ?w ''/tmp/a'' ''hello world''"
    by (simp add: writes_file_def file_at_def sample_files_def) (simp add: sample_sys_def)
  have m: "py_int8 ''600'' = Some 384" "c_int_range 384" by (code_simp, simp add: c_int_range_def)
  have "written sample_file_world v' @ ''more'' = chunk_header (length ''worl'') @ ctl_in ?w"
    using g get_file_chunk_block [OF sample_chunk sample_reads k d(1)] by (auto simp: written_def)
  from chunk_travels [OF sample_chunk sample_reads k d g p o m this] g show ?thesis by auto
qed

end
