(* ===== verification/Logging.thy ===== *)
theory Logging
  imports PyStr
begin

text \<open>
  \<open>lib/Log.py\<close>: where the messages of the program go. A call gives the list of entries it makes, in the
  system log or on standard output. The time, the process id and whether \<open>openlog\<close> succeeds for a name
  are parameters. The one-shot program answers on standard output, so what its logger prints matters.
\<close>

section \<open>The logger\<close>

record logger =
  verbose :: bool
  use_syslog :: bool
  log_name :: string
  quiet :: bool

datatype log_entry = Syslog string string | Stdout string

definition new_logger :: "(string \<Rightarrow> bool) \<Rightarrow> string \<Rightarrow> bool \<Rightarrow> bool \<Rightarrow> bool \<Rightarrow> logger" where
  "new_logger openlog name v s q = \<lparr>verbose = v, use_syslog = s \<and> openlog name, log_name = name, quiet = q\<rparr>"

definition log_out :: "string \<Rightarrow> int \<Rightarrow> logger \<Rightarrow> string \<Rightarrow> string \<Rightarrow> log_entry list" where
  "log_out tstamp pid L level message =
     (if \<not> quiet L then
        [Stdout (tstamp @ '' ['' @ level @ '']['' @ log_name L @ '']['' @ show_int pid @ ''] '' @ message @ [NL])]
      else [])"

definition reinit :: "(string \<Rightarrow> bool) \<Rightarrow> string \<Rightarrow> bool \<Rightarrow> bool \<Rightarrow> bool \<Rightarrow> logger \<Rightarrow> logger" where
  "reinit openlog name v s q L =
     (let L = L\<lparr>verbose := v, use_syslog := s, log_name := name, quiet := q\<rparr> in
      if use_syslog L \<and> \<not> openlog name then L\<lparr>use_syslog := False\<rparr> else L)"

datatype log_call = LogError string | LogWarning string | LogInfo string | LogDebug string

fun write_log :: "string \<Rightarrow> int \<Rightarrow> logger \<Rightarrow> log_call \<Rightarrow> log_entry list" where
  "write_log tstamp pid L (LogError m) =
     (if use_syslog L then [Syslog ''LOG_ERR'' m] else log_out tstamp pid L ''ERROR'' m)"
| "write_log tstamp pid L (LogWarning m) =
     (if use_syslog L then [Syslog ''LOG_WARNING'' m] else log_out tstamp pid L ''WARN'' m)"
| "write_log tstamp pid L (LogInfo m) =
     (if use_syslog L then [Syslog ''LOG_INFO'' m] else log_out tstamp pid L ''INFO'' m)"
| "write_log tstamp pid L (LogDebug m) =
     (if \<not> verbose L then []
      else if use_syslog L then [Syslog ''LOG_DEBUG'' m] else log_out tstamp pid L ''DEBUG'' m)"

text \<open>All entries of a sequence of calls, each with its time.\<close>

definition log_run :: "int \<Rightarrow> logger \<Rightarrow> (string \<times> log_call) list \<Rightarrow> log_entry list" where
  "log_run pid L calls = concat (map (\<lambda>(t, c). write_log t pid L c) calls)"

section \<open>Where messages go\<close>

lemma reinit_new: "reinit openlog name v s q L = new_logger openlog name v s q"
  by (cases L) (auto simp: reinit_def new_logger_def Let_def)

fun is_debug :: "log_call \<Rightarrow> bool" where
  "is_debug (LogDebug m) = True"
| "is_debug (LogError m) = False"
| "is_debug (LogWarning m) = False"
| "is_debug (LogInfo m) = False"

lemma write_log_length:
  "length (write_log t pid L c) = (if is_debug c \<and> \<not> verbose L \<or> \<not> use_syslog L \<and> quiet L then 0 else 1)"
  by (cases c) (auto simp: log_out_def)

lemma write_log_sink: "e \<in> set (write_log t pid L c) \<Longrightarrow> (\<exists>p m. e = Syslog p m) = use_syslog L"
  by (cases c) (auto simp: log_out_def split: if_splits)


end
