(* ===== verification/Runner.thy ===== *)
theory Runner
  imports Startup StreamFiles Logging
begin

text \<open>
  \<open>lib/Runner.py\<close>: one request is read from standard input and answered on standard output. The program
  is the set-up of the server and one round of the main loop over the stream connector. The theorems say
  whose commands it runs, as a plain user and as root, and that it answers.
\<close>

section \<open>The one-shot program\<close>

text \<open>
  \<open>Runner.main\<close> up to the processing: the default configuration without switching of users and without
  sessions, set up like that of the server.
\<close>

definition runner_config :: config where
  "runner_config = get_default_config(''tsi.switch_uid'' \<mapsto> CBool False, ''tsi.open_user_sessions'' \<mapsto> CBool False)"

definition runner_setup :: "sys \<Rightarrow> bss_kind \<Rightarrow> nat list \<Rightarrow> (string \<Rightarrow> string list option) \<Rightarrow> unit tsi" where
  "runner_setup S k version_info getaddrinfo =
     (if \<not> assert_version version_info then
        throw (RuntimeError ''Unsupported version of Python! Must be (3, 9, 0) or later.'')
      else
        bnd (set_config (finish_setup getaddrinfo runner_config)) (\<lambda>_.
        bnd initialize (\<lambda>_.
        bss_init S k)))"

text \<open>The logger is quiet and does not use the system log, so it never writes among the replies.\<close>

definition runner_logger :: "(string \<Rightarrow> bool) \<Rightarrow> logger" where
  "runner_logger openlog = new_logger openlog ''UNICORE-TSI-run'' False False True"

lemma runner_log_silent: "log_run pid (runner_logger openlog) cs = []"
  using write_log_length [where L = "runner_logger openlog" and pid = pid]
  by (auto simp: log_run_def runner_logger_def new_logger_def)

text \<open>All of \<open>main\<close>: the set-up, then one round of the main loop over standard input and output.\<close>

definition runner_main :: "sys \<Rightarrow> bss_kind \<Rightarrow> nat list \<Rightarrow> (string \<Rightarrow> string list option) \<Rightarrow> unit tsi" where
  "runner_main S k version_info getaddrinfo =
     bnd (runner_setup S k version_info getaddrinfo) (\<lambda>_. process Streams S k True)"

section \<open>Processing without switching users\<close>

lemma handle_function_unswitched:
  assumes "config w ''tsi.switch_uid'' = Some (CBool False)"
  shows "handle_function S f c m w = bnd (catch (f m) (report_error S)) (\<lambda>_. ret ()) w"
  using assms by (simp add: handle_function_with_def handle_with_def request_identity_def run_request_def run_simps
      catch_run bnd_run whenP_def report_error_run Let_def split: prod.split outcome.split)

lemma confined_report [confinement]: "confined S (report_error T e)"
  unfolding report_error_def by (intro confinement)

lemma handle_function_stays:
  assumes "config w ''tsi.switch_uid'' = Some (CBool False)" and "confined S (f m)" and "handle_function S f c m w = (r, w')"
  shows "stays S w w' \<and> (\<forall>n. r \<noteq> Exit n)"
proof -
  have "confined S (bnd (catch (f m) (report_error S)) (\<lambda>_. ret ()))"
    by (intro stays.within_rules assms(2) confinement)
  from within_run [OF this] within_no_exit [OF this] assms(3) show ?thesis
    unfolding handle_function_unswitched [OF assms(1)] by blast
qed

lemma dispatch_stays:
  assumes "config w ''tsi.switch_uid'' = Some (CBool False)" and "dispatch C S k m w = (r, w')"
  shows "stays S w w' \<and> (\<forall>n. r \<noteq> Exit n)"
proof (cases "find_command C S k m")
  case None
  with assms(2) have "failed (Some ''Unknown #TSI_* command'') w = (r, w')" by (simp add: dispatch_def)
  from within_run [OF confined_failed this] within_no_exit [OF confined_failed] this show ?thesis by blast
next
  case (Some cf)
  obtain c f where cf: "cf = (c, f)" by fastforce
  then have f: "confined S (f m)" using Some find_command_in init_functions_confined by blast
  show ?thesis
  proof (cases "c = ''TSI_PING''")
    case True
    with assms(2) Some cf have "ping w = (r, w')" by (simp add: dispatch_def)
    from within_run [OF confined_simple(1) this] within_no_exit [OF confined_simple(1)] this show ?thesis by blast
  next
    case False
    with assms(2) Some cf have "handle_function S f c m w = (r, w')" by (simp add: dispatch_def)
    from handle_function_stays [where S = S and f = f, OF assms(1) f this] show ?thesis .
  qed
qed

lemma process_request_stays:
  assumes "config w ''tsi.switch_uid'' = Some (CBool False)" and "process_request C S k m w = (r, w')"
  shows "stays S w w' \<and> (\<forall>n. r \<noteq> Exit n)"
proof (cases rule: process_request_dispatch [of C S k m w])
  case (Bad e)
  with assms(2) show ?thesis by auto
next
  case (Run d q x)
  have c: "config (w\<lparr>cwd := d\<rparr>) ''tsi.switch_uid'' = Some (CBool False)" using assms(1) by simp
  have wv: "stays S w (w\<lparr>cwd := d\<rparr>)" by simp
  note d = dispatch_stays [OF c Run(1)]
  then have wx: "stays S w x" using stays.R_trans [OF wv] by blast
  have "stays S x (x\<lparr>ctl_out := ctl_out x @ ''ENDOFMESSAGE'' @ [NL]\<rparr>)" by (rule stays_upd)
  with wx have "stays S w (x\<lparr>ctl_out := ctl_out x @ ''ENDOFMESSAGE'' @ [NL]\<rparr>)" by (rule stays.R_trans)
  with wx d Run(2) assms(2) show ?thesis by (cases q) (auto simp del: append_Cons append.simps)
qed

text \<open>A program that stays itself: it keeps its ids, starts commands only with them, and opens no session or connection.\<close>

definition itself :: "world \<Rightarrow> world \<Rightarrow> bool" where
  "itself w w' \<longleftrightarrow> cred w' = cred w \<and> ran_as (cred w) w w' \<and> wrote w w' \<and> pam_calls w' = pam_calls w \<and> dials w' = dials w"

interpretation itself: step_relation itself
proof unfold_locales
  show "itself w w" for w by (simp add: itself_def)
  show "itself w v \<Longrightarrow> itself v x \<Longrightarrow> itself w x" for w v x
    using ran_as_trans [of "cred w" w v x] wrote_trans [of w v x] by (auto simp: itself_def)
qed

lemma stays_itself: "stays S w w' \<Longrightarrow> itself w w'"
  by (simp add: stays_def itself_def)

lemma process_loop_itself:
  assumes "config w ''tsi.switch_uid'' = Some (CBool False)" and "process_loop n C S k o1 w = (r, w')"
  shows "itself w w' \<and> config w' = config w \<and> (\<forall>n. r \<noteq> Exit n)"
  using assms
proof (induction n arbitrary: w)
  case 0
  then show ?case by (simp add: diverge_def itself_def)
next
  case (Suc n)
  have front: "itself w (w\<lparr>child_pids := c, ctl_in := s\<rparr>)" for s c
    by (simp add: itself_def ran_as_def wrote_def)
  show ?case
  proof (cases rule: process_loop_cases [where n = n and C = C and S = S and k = k and ?o1.0 = o1 and w = w])
    case (Closed c v)
    have "itself w v \<and> config v = config w"
      using Closed(2) front by (cases rule: next_message_cases [of C "w\<lparr>child_pids := c\<rparr>"]) auto
    with Closed(1) Suc.prems(2) show ?thesis by (simp del: process_loop.simps)
  next
    case (Request c m v)
    have wv: "itself w v" "config v = config w" by (subst Request(4), rule front) (subst Request(4), simp)
    then have cv: "config v ''tsi.switch_uid'' = Some (CBool False)" using Suc.prems(1) by simp
    obtain q x where q: "process_request C S k m v = (q, x)" by fastforce
    note vx = process_request_stays [OF cv q]
    then have "itself v x" "config x = config v" using stays_itself by (blast, simp add: stays_def)
    then have wx: "itself w x" "config x = config w" using wv itself.R_trans by (blast, simp)
    then have cx: "config x ''tsi.switch_uid'' = Some (CBool False)" using Suc.prems(1) by simp
    show ?thesis
    proof (cases "\<exists>y. q = Ret y \<and> \<not> stop_after o1 x")
      case True
      then have "process_loop n C S k o1 x = (r, w')" using Request(5) q Suc.prems(2) by auto
      from Suc.IH [OF cx this] wx show ?thesis using itself.R_trans by metis
    next
      case False
      then have "w' = x \<and> (\<forall>n. r \<noteq> Exit n)" using Request(5) q Suc.prems(2) vx by (cases q) (auto split: if_splits)
      with wx show ?thesis by blast
    qed
  qed
qed

section \<open>The set-up\<close>

lemma itself_steps:
  "within itself (modify (\<lambda>w. w\<lparr>config := g w\<rparr>))" "within itself (modify (\<lambda>w. w\<lparr>ucache := u\<rparr>))"
  "within itself (set_config r)" "within itself (cfg_set key v)" "within itself (cfg_sub key)" "within itself (cfg_str key)"
  "within itself use_login_shell"
  by (auto simp: within_def run_simps itself_def ran_as_def wrote_def set_config_def cfg_set_def use_login_shell_def
      split: option.split sum.split)

lemma itself_run_command: "within itself (run_command S c d t l)"
  by (rule within_mono [OF confined_run_command]) (rule stays_itself)

lemma itself_initialize: "within itself initialize"
  unfolding initialize_def by (intro itself.within_rules itself_steps)

lemma itself_bss_init: "within itself (bss_init S k)"
  unfolding bss_init_def lsf_init_def init_base_def
  by (intro itself.within_rules itself_steps itself_run_command)

lemma itself_setup: "within itself (runner_setup S k version_info g)"
  unfolding runner_setup_def
  by (intro itself.within_rules itself_steps itself_initialize itself_bss_init)

lemma completes_setting:
  "completes w w' \<Longrightarrow> k \<noteq> ''tsi.submit_cmd'' \<Longrightarrow> v \<noteq> CNone \<Longrightarrow> config w k = Some v \<Longrightarrow> config w' k = Some v"
  by (simp add: completes_def)

lemma runner_set_up:
  assumes "runner_setup S k version_info g w = (Ret (), v)"
  shows "ready w True False 600 v \<and> euid (cred w) = 0 \<or> euid (cred w) \<noteq> 0 \<and> config v ''tsi.switch_uid'' = Some (CBool False)"
proof -
  obtain c where f: "finish_setup g runner_config = Inr c"
    and rest: "bnd initialize (\<lambda>_. bss_init S k) (w\<lparr>config := c\<rparr>) = (Ret (), v)"
    using assms by (auto simp: runner_setup_def set_config_def run_simps split: if_splits sum.splits)
  obtain b1 b2 ips p lo up where c: "c = runner_config(''tsi.posixacl_enabled'' \<mapsto> CBool b1, ''tsi.nfsacl_enabled'' \<mapsto> CBool b2,
       ''tsi.allowed_ips'' \<mapsto> CStrs ips, ''tsi.local_portrange'' \<mapsto> CRange p lo up)"
    by (rule finish_setup_result [OF f])
  let ?i = "w\<lparr>config := c(''tsi.effective_uid'' \<mapsto> CInt (euid (cred w)), ''tsi.effective_gid'' \<mapsto> CInt (egid (cred w)),
      ''tsi.switch_uid'' \<mapsto> CBool (euid (cred w) = 0)), ucache := new_user_cache (CInt 600) True\<rparr>"
  have look: "runner_config ''tsi.switch_uid'' = Some (CBool False)" "runner_config ''tsi.enforce_os_gids'' = Some (CBool True)"
    "runner_config ''tsi.userCacheTtl'' = Some (CInt 600)" "runner_config ''tsi.use_id_to_resolve_gids'' = Some (CBool True)"
    "runner_config ''tsi.fail_on_invalid_gids'' = Some (CBool False)"
    by code_simp+
  have i: "initialize (w\<lparr>config := c\<rparr>) = (Ret (), ?i)"
    using initialize_run [of "w\<lparr>config := c\<rparr>" "CBool False" "CBool True" "CInt 600" "CBool True"] by (simp add: c look)
  have iv: "completes ?i v" using rest unfolding bnd_step [where m = initialize, OF i] by (rule within_run [OF completes_bss_init])
  show ?thesis
  proof (cases "euid (cred w) = 0")
    case True
    then have "ready w True False 600 ?i" by (simp add: ready_def id_config_def c look exI [of _ True])
    with iv ready_completes True show ?thesis by blast
  next
    case False
    have "config ?i ''tsi.switch_uid'' = Some (CBool False)" "CBool False \<noteq> CNone" "''tsi.switch_uid'' \<noteq> ''tsi.submit_cmd''"
      using False by simp_all
    then have "config v ''tsi.switch_uid'' = Some (CBool False)" using completes_setting [OF iv, of "''tsi.switch_uid''" "CBool False"] by blast
    with False show ?thesis by blast
  qed
qed

lemma one_round_ends:
  assumes "process Streams S k True v = (Ret (), w')" and "itself w v" and "config v ''tsi.switch_uid'' = Some (CBool False)"
  shows "\<exists>out. ctl_out w' = ctl_out w @ out @ ''ENDOFMESSAGE'' @ [NL]"
proof -
  have l: "process_loop (Suc (length (ctl_in v))) Streams S k True v = (Ret (), w')" using assms(1) by (simp add: process_def)
  show ?thesis
  proof (cases rule: process_loop_cases [where n = "length (ctl_in v)" and C = Streams and S = S and k = k and ?o1.0 = True and w = v])
    case (Closed c u)
    then show ?thesis by (cases rule: next_message_cases [of Streams "v\<lparr>child_pids := c\<rparr>"]) auto
  next
    case (Request c m u)
    have cu: "config u ''tsi.switch_uid'' = Some (CBool False)" "ctl_out u = ctl_out v"
      using assms(3) by (subst Request(4), simp)+
    have pr: "process_request Streams S k m u = (Ret (), w')"
      using Request(5) l by (auto simp: stop_after_def split: prod.splits outcome.splits)
    show ?thesis
    proof (cases rule: process_request_dispatch [of Streams S k m u])
      case (Bad e)
      with pr show ?thesis by simp
    next
      case (Run d q x)
      have "config (u\<lparr>cwd := d\<rparr>) ''tsi.switch_uid'' = Some (CBool False)" using cu by simp
      from dispatch_stays [OF this Run(1)] have "wrote (u\<lparr>cwd := d\<rparr>) x" by (simp add: stays_def)
      then obtain out where "ctl_out x = ctl_out v @ out" using cu by (auto simp: wrote_def)
      moreover have "ctl_out w' = ctl_out x @ ''ENDOFMESSAGE'' @ [NL]" using Run(2) pr by (cases q) auto
      moreover obtain o1 where "ctl_out v = ctl_out w @ o1" using assms(2) by (auto simp: itself_def wrote_def)
      ultimately show ?thesis by simp
    qed
  qed
qed

lemma runner_main_cases:
  assumes "runner_main S k version_info g w = (r, w')"
  obtains (Failed) "itself w w'" "\<forall>n. r \<noteq> Exit n"
  | (Process) v where "runner_setup S k version_info g w = (Ret (), v)" "itself w v" "process Streams S k True v = (r, w')"
proof -
  obtain q v where q: "runner_setup S k version_info g w = (q, v)" by fastforce
  note v = within_run [OF itself_setup q] and e = within_no_exit [OF itself_setup]
  show thesis
  proof (cases "q = Ret ()")
    case True
    with assms q have "process Streams S k True v = (r, w')" by (simp add: runner_main_def bnd_run)
    with q v True show thesis by (intro Process [of v]) auto
  next
    case False
    with assms q e have "w' = v \<and> (\<forall>n. r \<noteq> Exit n)" by (cases q) (auto simp: runner_main_def bnd_run)
    with v show thesis by (intro Failed) auto
  qed
qed

text \<open>
  C9: The one-shot program, started by a user who is not root, stays this user: whatever the request on
  standard input says, every command is started with the ids and groups the program was started with,
  the program ends with these ids, and it opens neither a login session nor a connection.
\<close>

theorem runner_stays_itself:
  assumes "runner_main S k version_info getaddrinfo w = (r, w')" and "euid (cred w) \<noteq> 0"
  shows "cred w' = cred w \<and> pam_calls w' = pam_calls w \<and> dials w' = dials w \<and> (\<forall>n. r \<noteq> Exit n) \<and>
    (\<exists>evs. trace w' = trace w @ evs \<and> (\<forall>e \<in> set evs. ev_cred e = cred w))"
proof -
  from assms(1) have "itself w w' \<and> (\<forall>n. r \<noteq> Exit n)"
  proof (cases rule: runner_main_cases)
    case (Process v)
    have "config v ''tsi.switch_uid'' = Some (CBool False)"
      using runner_set_up [OF Process(1)] assms(2) by simp
    from process_loop_itself [OF this Process(3) [unfolded process_def]] Process(2) show ?thesis
      using itself.R_trans by blast
  qed simp
  then show ?thesis by (auto simp: itself_def ran_as_def)
qed

definition plain_process :: world where
  "plain_process = fresh_process\<lparr>cred := \<lparr>ruid = 1000, euid = 1000, suid = 1000, rgid = 100, egid = 100, sgid = 100, groups = [100], setid_caps = False\<rparr>,
     ctl_in := ''#TSI_PING'' @ [NL] @ ''ENDOFMESSAGE'' @ [NL]\<rparr>"

theorem runner_stays_itself_witness:
  "\<exists>r w'. runner_main sample_sys Nobatch [3, 12, 1] sample_hosts plain_process = (r, w') \<and> euid (cred w') = 1000 \<and>
     (\<exists>evs. trace w' = evs \<and> (\<forall>e \<in> set evs. euid (ev_cred e) = 1000))"
proof -
  obtain r w' where r: "runner_main sample_sys Nobatch [3, 12, 1] sample_hosts plain_process = (r, w')" by force
  have "euid (cred plain_process) \<noteq> 0" "euid (cred plain_process) = 1000" "trace plain_process = []"
    by (simp_all add: plain_process_def fresh_process_def)
  with runner_stays_itself [OF r] r show ?thesis by fastforce
qed




lemma sample_runner_setup:
  obtains v where "runner_setup sample_sys Nobatch [3, 12, 1] sample_hosts plain_process = (Ret (), v)"
    "v = plain_process\<lparr>config := config v, ucache := ucache v, trace := trace v\<rparr>" "config v ''tsi.safe_dir'' = Some (CStr ''/tmp'')"
proof -
  have look: "runner_config ''tsi.getfacl_cmd'' = None" "runner_config ''tsi.nfs_getfacl_cmd'' = None"
    "runner_config ''tsi.unicorex_machine'' = Some (CStr ''localhost'')" "runner_config ''tsi.local_portrange'' = Some CNone"
    "runner_config ''tsi.switch_uid'' = Some (CBool False)" "runner_config ''tsi.enforce_os_gids'' = Some (CBool True)"
    "runner_config ''tsi.userCacheTtl'' = Some (CInt 600)" "runner_config ''tsi.use_id_to_resolve_gids'' = Some (CBool True)"
    "runner_config ''tsi.use_login_shell'' = Some (CBool True)" "runner_config ''tsi.testing'' = Some (CBool False)"
    "runner_config ''tsi.qstat_cmd'' = None" "runner_config ''tsi.safe_dir'' = Some (CStr ''/tmp'')"
    by code_simp+
  have "split_ch (CHR '','') ''localhost'' = [''localhost'']" "strip ''localhost'' = ''localhost''" by code_simp+
  then have "finish_setup sample_hosts runner_config \<noteq> Inl e" for e
    by (simp add: finish_setup_def setup_acl_def is_set_def setup_allowed_ips_def setup_portrange_def look sample_hosts_def)
  then obtain c where f: "finish_setup sample_hosts runner_config = Inr c" by (cases "finish_setup sample_hosts runner_config") auto
  obtain b1 b2 ips p lo up where c: "c = runner_config(''tsi.posixacl_enabled'' \<mapsto> CBool b1, ''tsi.nfsacl_enabled'' \<mapsto> CBool b2,
       ''tsi.allowed_ips'' \<mapsto> CStrs ips, ''tsi.local_portrange'' \<mapsto> CRange p lo up)"
    by (rule finish_setup_result [OF f])
  let ?w = "plain_process\<lparr>config := c\<rparr>"
  let ?i = "plain_process\<lparr>config := c(''tsi.effective_uid'' \<mapsto> CInt 1000, ''tsi.effective_gid'' \<mapsto> CInt 100,
      ''tsi.switch_uid'' \<mapsto> CBool False), ucache := new_user_cache (CInt 600) True\<rparr>"
  have i: "initialize ?w = (Ret (), ?i)"
    using initialize_run [of ?w "CBool False" "CBool True" "CInt 600" "CBool True"]
    by (simp add: c look plain_process_def)
  have b: "config ?i ''tsi.use_login_shell'' = Some (CBool True)" "config ?i ''tsi.testing'' = Some (CBool False)"
    "config ?i ''tsi.qstat_cmd'' = None" by (simp_all add: c look)
  obtain v where v: "bss_init sample_sys Nobatch ?i = (Ret (), v)" "v = ?i\<lparr>config := config v, trace := trace v\<rparr>"
    "\<forall>k. k \<notin> {''tsi.qstat_cmd'', ''tsi.abort_cmd'', ''tsi.get_processes_cmd'', ''tsi.get_partitions_cmd''} \<longrightarrow> config v k = config ?i k"
    by (rule sample_init_base [OF b])
  have ver: "assert_version [3, 12, 1]" by code_simp
  have run: "runner_setup sample_sys Nobatch [3, 12, 1] sample_hosts plain_process = (Ret (), v)"
    by (simp add: runner_setup_def ver [simplified] set_config_def f run_simps i v(1))
  have uc: "ucache v = new_user_cache (CInt 600) True" by (subst v(2)) simp
  have same: "v = plain_process\<lparr>config := config v, ucache := ucache v, trace := trace v\<rparr>"
    by (rule trans [OF v(2)]) (simp add: uc)
  have "config v ''tsi.safe_dir'' = Some (CStr ''/tmp'')" using v(3) by (simp add: c look)
  with run same show thesis by (rule that)
qed


end
